theory Spec2Isabelle
  imports Main "HOL-Library.Word" "HOL-Library.Sublist"
begin

unbundle bit_operations_syntax

section \<open>JavaScript strings\<close>

text \<open>
  A JavaScript string is a sequence of UTF-16 code units; \<open>length\<close>, indexing, the
  regular expression classes \<open>\s\<close> and \<open>\S\<close> (without the \<open>u\<close> flag) and the
  \<open>charIndex\<close> of a speech boundary event all count code units. ASCII literals of the
  source are written with \<open>asc\<close>; other characters are given by their code unit.
\<close>

type_synonym jschar = "16 word"
type_synonym jsstring = "jschar list"

definition asc :: "string \<Rightarrow> jsstring" where
  "asc s = map of_char s"

section \<open>JavaScript values\<close>

text \<open>
  The exceptions that the modelled code can throw, as error values.
\<close>

datatype jserror =
    URIError
  | InvalidCharacterError
  | SyntaxError
  | TypeError
  | QuotaExceededError

text \<open>
  The values \<open>JSON.parse\<close> returns and \<open>JSON.stringify\<close> prints. A number is kept as
  its literal: the doubles of JavaScript are not modelled, and the only number the
  application stores, \<open>Date.now()\<close>, is an integer that prints and parses as its
  decimal digits. An object is the list of its members in the order of the text;
  reading a property takes the last member of that name, as a later duplicate
  overwrites an earlier one.
\<close>

datatype json =
    JNull
  | JBool bool
  | JNumber jsstring
  | JString jsstring
  | JArray "json list"
  | JObject "(jsstring \<times> json) list"

text \<open>
  What a variable holds at run time, whatever its TypeScript annotation says: a value
  as above or \<open>undefined\<close> (\<open>None\<close>). The handler of a shared link passes the
  properties of a parsed object to the setters of the state as they are.
\<close>

type_synonym jsvalue = "json option"

definition isDigit :: "jschar \<Rightarrow> bool" where
  "isDigit c \<longleftrightarrow> 0x30 \<le> c \<and> c \<le> 0x39"

definition digitsValue :: "jsstring \<Rightarrow> int" where
  "digitsValue ds = foldl (\<lambda>n c. 10 * n + int (unat c - 0x30)) 0 ds"

text \<open>
  Whether the double of a number literal is zero. The literal is an optional minus,
  the digits of the integer part, an optional fraction behind a point and an optional
  exponent behind \<open>e\<close> or \<open>E\<close>; it stands for \<open>m * 10^k\<close>, where \<open>m\<close> is the number
  written by the digits of the integer part and the fraction together and \<open>k\<close> is the
  exponent less the number of fraction digits. The nearest double is zero when \<open>m\<close> is
  zero and when the value is at most \<open>2^-1075\<close>, half the smallest positive double
  (a tie goes to the even significand, which is zero).
\<close>

definition numberIsZero :: "jsstring \<Rightarrow> bool" where
  "numberIsZero lit =
     (let body = (case lit of [] \<Rightarrow> [] | c # cs \<Rightarrow> if c = 0x2D then cs else lit);
          mantissa = takeWhile (\<lambda>c. c \<noteq> 0x65 \<and> c \<noteq> 0x45) body;
          exponent = drop 1 (dropWhile (\<lambda>c. c \<noteq> 0x65 \<and> c \<noteq> 0x45) body);
          fraction = drop 1 (dropWhile isDigit mantissa);
          m = digitsValue (takeWhile isDigit mantissa @ fraction);
          e = (case exponent of
                 [] \<Rightarrow> 0
               | s # ds \<Rightarrow>
                   if s = 0x2D then - digitsValue ds
                   else if s = 0x2B then digitsValue ds
                   else digitsValue exponent);
          k = e - int (length fraction)
      in m = 0 \<or> (k < 0 \<and> m * 2 ^ 1075 \<le> 10 ^ nat (- k)))"

text \<open>
  \<open>ToBoolean\<close>, the test behind \<open>!x\<close>, \<open>x && y\<close> and \<open>if (x)\<close>: \<open>undefined\<close>, \<open>null\<close>,
  \<open>false\<close>, a zero and the empty string are falsy; every other value, also every
  array and every object, is truthy.
\<close>

definition truthy :: "jsvalue \<Rightarrow> bool" where
  "truthy v =
     (case v of
        None \<Rightarrow> False
      | Some JNull \<Rightarrow> False
      | Some (JBool b) \<Rightarrow> b
      | Some (JNumber n) \<Rightarrow> \<not> numberIsZero n
      | Some (JString s) \<Rightarrow> s \<noteq> []
      | Some (JArray xs) \<Rightarrow> True
      | Some (JObject ms) \<Rightarrow> True)"

section \<open>Word segmenter: \<open>textParts\<close> and \<open>wordMap\<close> (index.tsx, lines 242-259)\<close>

text \<open>
  The class \<open>\s\<close> of an ECMAScript regular expression: WhiteSpace and LineTerminator
  code points (TAB, LF, VT, FF, CR, SP, NBSP, the Unicode space separators, LS, PS,
  ZWNBSP). \<open>\S\<close> is its complement.
\<close>

definition isWhiteSpace :: "jschar \<Rightarrow> bool" where
  "isWhiteSpace c \<longleftrightarrow>
     c = 0x09 \<or> c = 0x0A \<or> c = 0x0B \<or> c = 0x0C \<or> c = 0x0D \<or> c = 0x20 \<or>
     c = 0xA0 \<or> c = 0x1680 \<or> (0x2000 \<le> c \<and> c \<le> 0x200A) \<or>
     c = 0x2028 \<or> c = 0x2029 \<or> c = 0x202F \<or> c = 0x205F \<or> c = 0x3000 \<or>
     c = 0xFEFF"

text \<open>
  One attempt of \<open>/\S+\s*/\<close> at the current position: \<open>\S+\<close> takes the longest run of
  non-whitespace, which must not be empty, then \<open>\s*\<close> takes the longest run of
  whitespace (both quantifiers are greedy and nothing follows them, so there is no
  backtracking). The result is the matched text and the rest of the input.
\<close>

definition matchPart :: "jsstring \<Rightarrow> (jsstring \<times> jsstring) option" where
  "matchPart s =
     (let w = takeWhile (\<lambda>c. \<not> isWhiteSpace c) s;
          r = dropWhile (\<lambda>c. \<not> isWhiteSpace c) s
      in if w = [] then None
         else Some (w @ takeWhile isWhiteSpace r, dropWhile isWhiteSpace r))"

lemma matchPart_shorter:
  "matchPart (c # cs) = Some (m, r) \<Longrightarrow> length r < Suc (length cs)"
proof -
  assume a: "matchPart (c # cs) = Some (m, r)"
  have nw: "\<not> isWhiteSpace c"
    using a by (auto simp: matchPart_def Let_def split: if_splits)
  have r: "r = dropWhile isWhiteSpace (dropWhile (\<lambda>c. \<not> isWhiteSpace c) cs)"
    using a nw by (auto simp: matchPart_def Let_def split: if_splits)
  have "length r \<le> length (dropWhile (\<lambda>c. \<not> isWhiteSpace c) cs)"
    unfolding r by (rule length_dropWhile_le)
  also have "\<dots> \<le> length cs"
    by (rule length_dropWhile_le)
  finally show ?thesis by simp
qed

text \<open>
  The global flag: the matcher is tried at the last index; where it fails the index
  moves one code unit on, where it succeeds the match is collected and the search goes
  on behind it, until the end of the string.
\<close>

function matchAll :: "jsstring \<Rightarrow> jsstring list" where
  "matchAll [] = []"
| "matchAll (c # cs) =
     (case matchPart (c # cs) of
        None \<Rightarrow> matchAll cs
      | Some (m, r) \<Rightarrow> m # matchAll r)"
  by pat_completeness auto
termination
  by (relation "measure length") (auto dest: matchPart_shorter)

text \<open>\<open>String.prototype.match\<close> with a global pattern: \<open>null\<close> when nothing matches.\<close>

definition String_match :: "jsstring \<Rightarrow> jsstring list option" where
  "String_match s = (case matchAll s of [] \<Rightarrow> None | m # ms \<Rightarrow> Some (m # ms))"

text \<open>
  \<open>textParts\<close> (lines 244-247). \<open>if (!resultText) return []\<close> returns for every falsy
  value. Behind it \<open>resultText.match\<close> is the method of a string only: on \<open>true\<close>, on a
  number that is not zero, on an array and on an object the property \<open>match\<close> is
  \<open>undefined\<close>, or a parsed value of the object that is no function, and the call
  throws \<open>TypeError\<close>.
\<close>

definition textParts :: "jsvalue \<Rightarrow> jserror + jsstring list" where
  "textParts resultText =
     (if \<not> truthy resultText then Inr []
      else
        (case resultText of
           Some (JString s) \<Rightarrow>
             Inr (case String_match s of None \<Rightarrow> [] | Some parts \<Rightarrow> parts)
         | _ \<Rightarrow> Inl TypeError))"

record wordEntry =
  word :: jsstring
  startIndex :: int

text \<open>The \<open>map\<close> callback of \<open>wordMap\<close> with its running \<open>charCount\<close>.\<close>

fun wordMap_from :: "int \<Rightarrow> jsstring list \<Rightarrow> wordEntry list" where
  "wordMap_from charCount [] = []"
| "wordMap_from charCount (part # parts) =
     \<lparr>word = part, startIndex = charCount\<rparr>
       # wordMap_from (charCount + int (length part)) parts"

definition wordMap :: "jsstring list \<Rightarrow> wordEntry list" where
  "wordMap parts = (if length parts = 0 then [] else wordMap_from 0 parts)"

section \<open>Boundary handler (index.tsx, lines 567-580)\<close>

text \<open>
  The \<open>for\<close> loop of \<open>utterance.onboundary\<close>, with its loop variable \<open>i\<close> and the
  variable \<open>currentWordIndex\<close>; \<open>break\<close> leaves the loop at the first entry that
  starts behind \<open>charIndex\<close>.
\<close>

function boundaryLoop :: "wordEntry list \<Rightarrow> int \<Rightarrow> nat \<Rightarrow> int \<Rightarrow> int" where
  "boundaryLoop wm charIndex i currentWordIndex =
     (if i < length wm then
        (if startIndex (wm ! i) \<le> charIndex
         then boundaryLoop wm charIndex (Suc i) (int i)
         else currentWordIndex)
      else currentWordIndex)"
  by pat_completeness auto
termination
  by (relation "measure (\<lambda>(wm, charIndex, i, cur). length wm - i)") auto

declare boundaryLoop.simps [simp del]

definition currentWordIndex :: "wordEntry list \<Rightarrow> int \<Rightarrow> int" where
  "currentWordIndex wm charIndex = boundaryLoop wm charIndex 0 (- 1)"

text \<open>
  The handler's effect on the state \<open>highlightedWordIndex\<close>: it is set only when the
  scan found an entry.
\<close>

definition onboundary :: "wordEntry list \<Rightarrow> int \<Rightarrow> int \<Rightarrow> int" where
  "onboundary wm charIndex highlightedWordIndex =
     (let cur = currentWordIndex wm charIndex
      in if cur \<noteq> - 1 then cur else highlightedWordIndex)"

text \<open>
  The sequence of highlighted indices over a run of boundary events, delivered in
  order: each event passes through \<open>onboundary\<close>.
\<close>

fun boundaryTrace :: "wordEntry list \<Rightarrow> int \<Rightarrow> int list \<Rightarrow> int list" where
  "boundaryTrace wm hi [] = []"
| "boundaryTrace wm hi (c # cs) =
     onboundary wm c hi # boundaryTrace wm (onboundary wm c hi) cs"

section \<open>Prompt builder: \<open>getPrompts\<close> (index.tsx, lines 261-338)\<close>

text \<open>
  The string literals of \<open>getPrompts\<close>, each under a name. The template literal of
  line 262 and the literal of line 289 have the query spliced in.
\<close>

definition baseTextPrompt_head :: jsstring where
  "baseTextPrompt_head =
     asc ''Kullan'' @ [0x131] @ asc ''c'' @ [0x131] @ asc ''n'' @ [0x131] @
     asc ''n '' @ [0x15F] @ asc ''u kelimelerinden yola '' @ [0xE7, 0x131] @
     asc ''karak 90'' @ [0x27] @ asc ''lar T'' @ [0xFC] @ asc ''rkiye'' @ [0x27] @
     asc ''sindeki bir '' @ [0xE7] @ asc ''ocukluk an'' @ [0x131] @ asc ''s'' @
     [0x131] @ asc ''n'' @ [0x131] @ asc '' anlatan, k'' @ [0x131] @
     asc ''sa, '' @ [0x15F] @ asc ''iirsel ve nostaljik bir metin yaz: '' @ [0x22]"

definition baseTextPrompt_tail :: jsstring where
  "baseTextPrompt_tail =
     [0x22] @ asc ''. Tonu s'' @ [0x131] @ asc ''cak, biraz h'' @ [0xFC] @
     asc ''z'' @ [0xFC] @ asc ''nl'' @ [0xFC] @ asc '' ve r'' @ [0xFC] @
     asc ''ya gibi olsun.''"

definition baseTextPrompt :: "jsstring \<Rightarrow> jsstring" where
  "baseTextPrompt userQuery = baseTextPrompt_head @ userQuery @ baseTextPrompt_tail"

text \<open>The sentences the first \<open>switch\<close> puts behind \<open>baseTextPrompt\<close> (lines 264-287).\<close>

definition tone_cartoon :: jsstring where
  "tone_cartoon =
     asc '' Bu an'' @ [0x131] @ asc ''y'' @ [0x131] @ asc '', sanki 90'' @
     [0x27] @ asc ''lar'' @ [0x131] @ asc ''n pastel tonlu, i'' @ [0xE7] @
     asc '' '' @ [0x131] @ asc ''s'' @ [0x131] @ asc ''tan bir '' @ [0xE7] @
     asc ''izgi filminin unutulmu'' @ [0x15F] @ asc '' bir sahnesi gibi anlat.''"

definition tone_series :: jsstring where
  "tone_series =
     asc '' Bu an'' @ [0x131] @ asc ''y'' @ [0x131] @ asc '', 90'' @ [0x27] @
     asc ''lar yap'' @ [0x131] @ asc ''m'' @ [0x131] @ asc '' bir T'' @ [0xFC] @
     asc ''rk aile dizisinin s'' @ [0x131] @ asc ''cak bir sahnesi gibi, o d'' @
     [0xF6] @ asc ''nemin diyaloglar'' @ [0x131] @
     asc ''na benzer bir naiflikle anlat.''"

definition tone_clip :: jsstring where
  "tone_clip =
     asc '' Bu an'' @ [0x131] @ asc ''y'' @ [0x131] @ asc '', 90'' @ [0x27] @
     asc ''lar T'' @ [0xFC] @ asc ''rk'' @ [0xE7] @ asc ''e pop m'' @ [0xFC] @
     asc ''zi'' @ [0x11F] @ asc ''i video klibinin '' @ [0x15F] @
     asc ''iirsel ve biraz da abs'' @ [0xFC] @ asc ''rt bir sahnesi gibi anlat.''"

definition tone_dream :: jsstring where
  "tone_dream =
     asc '' Bu an'' @ [0x131] @ asc ''y'' @ [0x131] @ asc '', ger'' @ [0xE7] @
     asc ''ek'' @ [0xFC] @ asc ''st'' @ [0xFC] @
     asc '' ve sembolik imgelerle dolu bir r'' @ [0xFC] @
     asc ''ya sahnesi gibi anlat.''"

definition tone_fairytale :: jsstring where
  "tone_fairytale =
     asc '' Bu an'' @ [0x131] @ asc ''y'' @ [0x131] @
     asc '', sanki eski bir masal kitab'' @ [0x131] @ asc ''ndan f'' @ [0x131] @
     asc ''rlam'' @ [0x131, 0x15F] @ asc '', b'' @ [0xFC] @ asc ''y'' @ [0xFC] @
     asc ''l'' @ [0xFC] @ asc '' bir ill'' @ [0xFC] @
     asc ''strasyonun hikayesi gibi anlat.''"

definition tone_scifi :: jsstring where
  "tone_scifi =
     asc '' Bu an'' @ [0x131] @ asc ''y'' @ [0x131] @ asc '', 90'' @ [0x27] @
     asc ''lar'' @ [0x131] @ asc ''n retro-f'' @ [0xFC] @ asc ''t'' @ [0xFC] @
     asc ''ristik bir bilim kurgu konsept '' @ [0xE7] @ asc ''izimi gibi, o d'' @
     [0xF6] @ asc ''nemin gelecek tasavvurunu yans'' @ [0x131] @
     asc ''tarak anlat.''"

definition tone_general :: jsstring where
  "tone_general =
     asc '' Sanki eski bir an'' @ [0x131] @ asc '' g'' @ [0xFC] @ asc ''nl'' @
     [0xFC, 0x11F, 0xFC] @ asc ''nden bir par'' @ [0xE7] @
     asc ''a gibi hissettirsin.''"

text \<open>The initial value of \<open>imagePrompt\<close> (line 289).\<close>

definition baseImagePrompt_head :: jsstring where
  "baseImagePrompt_head =
     asc ''A dream-like, nostalgic, and slightly surreal image representing '' @
     asc ''a Turkish childhood memory about '' @ [0x22]"

definition baseImagePrompt_tail :: jsstring where
  "baseImagePrompt_tail =
     [0x22] @
     asc ''. Avoid clear faces. Capture the feeling and atmosphere. No '' @
     asc ''text.''"

definition baseImagePrompt :: "jsstring \<Rightarrow> jsstring" where
  "baseImagePrompt userQuery = baseImagePrompt_head @ userQuery @ baseImagePrompt_tail"

text \<open>The sentences the second \<open>switch\<close> appends, by category (lines 291-310).\<close>

definition scene_cartoon :: jsstring where
  "scene_cartoon =
     asc '' The scene should feel like a vintage 90s animation cel from '' @
     asc ''a classic, gentle cartoon. Use soft, pastel colors.''"

definition scene_series :: jsstring where
  "scene_series =
     asc '' The scene should look like a cinematic still from a 90s Turkish '' @
     asc ''television drama. Slightly grainy with warm color grading.''"

definition scene_clip :: jsstring where
  "scene_clip =
     asc '' The scene must emulate the aesthetic of a 90s Turkish pop music '' @
     asc ''video: dreamy, slightly surreal, with soft focus and lens flares.''"

definition scene_dream :: jsstring where
  "scene_dream =
     asc '' The scene should be highly surreal, symbolic, and dream-like, '' @
     asc ''with illogical connections and a hazy, ethereal quality.''"

definition scene_fairytale :: jsstring where
  "scene_fairytale =
     asc '' The scene should look like a beautiful, classic fairy tale '' @
     asc ''book illustration, with enchanting details and a magical atmosphere.''"

definition scene_scifi :: jsstring where
  "scene_scifi =
     asc '' The scene should be a piece of retro-futuristic sci-fi concept '' @
     asc ''art from the 90s. Imagine technology and daily life as envisioned '' @
     asc ''in that era, with chunky hardware, neon glows, and a slightly '' @
     asc ''analog feel.''"

text \<open>The sentences the third \<open>switch\<close> appends, by style (lines 312-335).\<close>

definition render_watercolor :: jsstring where
  "render_watercolor =
     asc '' Render this scene in the style of a soft, expressive watercolor '' @
     asc ''painting.''"

definition render_sketch :: jsstring where
  "render_sketch =
     asc '' Render this scene as a nostalgic, hand-drawn pencil sketch '' @
     asc ''on textured paper.''"

definition render_oil_painting :: jsstring where
  "render_oil_painting =
     asc '' Render this scene as a classic, textured oil painting with '' @
     asc ''visible brushstrokes.''"

definition render_pixel_art :: jsstring where
  "render_pixel_art =
     asc '' Render this scene as vibrant, detailed 16-bit pixel art, in '' @
     asc ''the style of a classic 90s video game.''"

definition render_three_d :: jsstring where
  "render_three_d =
     asc '' Render this scene as an early 90s 3D render, with simple geometry, '' @
     asc ''basic lighting, and a slightly plastic-like texture.''"

definition render_vintage_poster :: jsstring where
  "render_vintage_poster =
     asc '' Render this scene as a vintage poster from the 1990s, with '' @
     asc ''bold graphic elements and a retro color palette. Avoid any legible '' @
     asc ''text.''"

definition render_faded_photo :: jsstring where
  "render_faded_photo =
     asc '' The final image must have the look of a warm, retro, faded '' @
     asc ''photograph from the 90s.''"

record prompts =
  textPrompt :: jsstring
  imagePrompt :: jsstring

text \<open>
  The first \<open>switch\<close>: \<open>case 'general'\<close> falls through to \<open>default\<close>, so every other
  category takes the last branch.
\<close>

definition switch_textPrompt :: "jsstring \<Rightarrow> jsstring \<Rightarrow> jsstring" where
  "switch_textPrompt selectedCategory baseText =
     (if selectedCategory = asc ''cartoon'' then baseText @ tone_cartoon
      else if selectedCategory = asc ''series'' then baseText @ tone_series
      else if selectedCategory = asc ''clip'' then baseText @ tone_clip
      else if selectedCategory = asc ''dream'' then baseText @ tone_dream
      else if selectedCategory = asc ''fairytale'' then baseText @ tone_fairytale
      else if selectedCategory = asc ''scifi'' then baseText @ tone_scifi
      else baseText @ tone_general)"

text \<open>
  The second \<open>switch\<close> has no \<open>default\<close>: for \<open>'general'\<close> and for every unlisted
  category \<open>imagePrompt\<close> stays as it is.
\<close>

definition switch_imageCategory :: "jsstring \<Rightarrow> jsstring \<Rightarrow> jsstring" where
  "switch_imageCategory selectedCategory imagePrompt0 =
     (if selectedCategory = asc ''cartoon'' then imagePrompt0 @ scene_cartoon
      else if selectedCategory = asc ''series'' then imagePrompt0 @ scene_series
      else if selectedCategory = asc ''clip'' then imagePrompt0 @ scene_clip
      else if selectedCategory = asc ''dream'' then imagePrompt0 @ scene_dream
      else if selectedCategory = asc ''fairytale'' then imagePrompt0 @ scene_fairytale
      else if selectedCategory = asc ''scifi'' then imagePrompt0 @ scene_scifi
      else imagePrompt0)"

text \<open>The third \<open>switch\<close>: \<open>case 'faded-photo'\<close> falls through to \<open>default\<close>.\<close>

definition switch_imageStyle :: "jsstring \<Rightarrow> jsstring \<Rightarrow> jsstring" where
  "switch_imageStyle selectedStyle imagePrompt1 =
     (if selectedStyle = asc ''watercolor'' then imagePrompt1 @ render_watercolor
      else if selectedStyle = asc ''sketch'' then imagePrompt1 @ render_sketch
      else if selectedStyle = asc ''oil-painting'' then imagePrompt1 @ render_oil_painting
      else if selectedStyle = asc ''pixel-art'' then imagePrompt1 @ render_pixel_art
      else if selectedStyle = asc ''3d-render'' then imagePrompt1 @ render_three_d
      else if selectedStyle = asc ''vintage-poster'' then imagePrompt1 @ render_vintage_poster
      else imagePrompt1 @ render_faded_photo)"

definition getPrompts :: "jsstring \<Rightarrow> jsstring \<Rightarrow> jsstring \<Rightarrow> prompts" where
  "getPrompts selectedCategory userQuery selectedStyle =
     \<lparr>textPrompt = switch_textPrompt selectedCategory (baseTextPrompt userQuery),
      imagePrompt =
        switch_imageStyle selectedStyle
          (switch_imageCategory selectedCategory (baseImagePrompt userQuery))\<rparr>"

text \<open>
  The keys of the catalogues \<open>categories\<close> and \<open>styles\<close> (lines 210-228): the values the
  selector buttons can set.
\<close>

definition categories :: "jsstring list" where
  "categories =
     [asc ''general'', asc ''cartoon'', asc ''series'', asc ''clip'', asc ''dream'',
      asc ''fairytale'', asc ''scifi'']"

definition styles :: "jsstring list" where
  "styles =
     [asc ''faded-photo'', asc ''watercolor'', asc ''sketch'', asc ''oil-painting'',
      asc ''pixel-art'', asc ''3d-render'', asc ''vintage-poster'']"

text \<open>
  The composition rule in the specification's words: a clause chosen by the category
  alone and a clause chosen by the style alone.
\<close>

definition toneClause :: "jsstring \<Rightarrow> jsstring" where
  "toneClause category =
     (if category = asc ''cartoon'' then tone_cartoon
      else if category = asc ''series'' then tone_series
      else if category = asc ''clip'' then tone_clip
      else if category = asc ''dream'' then tone_dream
      else if category = asc ''fairytale'' then tone_fairytale
      else if category = asc ''scifi'' then tone_scifi
      else tone_general)"

definition categoryClause :: "jsstring \<Rightarrow> jsstring" where
  "categoryClause category =
     (if category = asc ''cartoon'' then scene_cartoon
      else if category = asc ''series'' then scene_series
      else if category = asc ''clip'' then scene_clip
      else if category = asc ''dream'' then scene_dream
      else if category = asc ''fairytale'' then scene_fairytale
      else if category = asc ''scifi'' then scene_scifi
      else [])"

definition styleClause :: "jsstring \<Rightarrow> jsstring" where
  "styleClause style =
     (if style = asc ''watercolor'' then render_watercolor
      else if style = asc ''sketch'' then render_sketch
      else if style = asc ''oil-painting'' then render_oil_painting
      else if style = asc ''pixel-art'' then render_pixel_art
      else if style = asc ''3d-render'' then render_three_d
      else if style = asc ''vintage-poster'' then render_vintage_poster
      else render_faded_photo)"

section \<open>Application state (index.tsx, lines 28-60)\<close>

text \<open>
  The type \<open>Memory\<close>. A memory is made from the state by \<open>handleSetTitle\<close>: its
  \<open>resultText\<close> is the state's, and its \<open>imageUrl\<close> is \<open>imageUrls[0]\<close>, which is
  \<open>undefined\<close> (\<open>None\<close>) when there is no image.
\<close>

record memory =
  mem_id :: int
  mem_title :: jsstring
  mem_query :: jsstring
  mem_category :: jsstring
  mem_imageStyle :: jsstring
  mem_resultText :: "jsstring option"
  mem_imageUrl :: "jsstring option"

text \<open>
  The \<open>useState\<close> cells of \<open>App\<close> that the handlers below read or write, at the
  types of their declarations. Every handler of this section and of the history store
  writes values of these types into them; the text of a generation can be
  \<open>undefined\<close>, which is the \<open>None\<close> of \<open>resultText\<close>. The handler of a shared link
  is the one writer that does not keep the types: the cells it leaves, and what the
  next render does with them, are the subject of the section on the share codec.
\<close>

record app_state =
  query :: jsstring
  resultText :: "jsstring option"
  imageUrls :: "jsstring option list"
  activeImageIndex :: nat
  loading :: bool
  error :: jsstring
  category :: jsstring
  imageStyle :: jsstring
  title :: jsstring
  tempTitle :: jsstring
  isTitleSet :: bool
  showShareFallback :: bool
  history :: "memory list"
  isSpeaking :: bool
  isPaused :: bool
  highlightedWordIndex :: int

definition initial_app :: app_state where
  "initial_app =
     \<lparr>query = [], resultText = Some [], imageUrls = [], activeImageIndex = 0,
      loading = False, error = [], category = asc ''general'',
      imageStyle = asc ''faded-photo'', title = [], tempTitle = [], isTitleSet = False,
      showShareFallback = False, history = [], isSpeaking = False, isPaused = False,
      highlightedWordIndex = - 1\<rparr>"

section \<open>The speech synthesis engine, as the handlers use it\<close>

text \<open>
  The browser's \<open>speechSynthesis\<close> object is not code of the repository; the model keeps
  what the Web Speech API states about the calls the handlers make. The engine holds a
  queue of utterances; \<open>speak\<close> appends to it, \<open>cancel\<close> removes every utterance from
  it, \<open>pause\<close> and \<open>resume\<close> set and clear the paused state. The utterance at the head
  of the queue begins at some point (event \<open>start\<close>), reports boundaries while it is
  spoken, and leaves the queue at its \<open>end\<close> or \<open>error\<close> event. An utterance removed by
  \<open>cancel\<close> still receives a final \<open>end\<close> or \<open>error\<close> event; these are delivered before
  a later utterance begins. The attribute \<open>speaking\<close> is defined as true if an utterance
  has begun being spoken and has not completed, whether paused or not; some browsers
  report it also for an utterance that is queued and has not begun, so the engine
  carries this as the fixed flag \<open>pendingCounts\<close>, which is false for an engine that
  follows the definition.

  Every utterance of the application has the same four handlers; they differ only in
  the \<open>wordMap\<close> that the closure of \<open>onboundary\<close> captured when the utterance was made.
  Voice, pitch and rate do not enter any state of the application and are left out.
\<close>

record utterance =
  utext :: jsstring
  boundaryMap :: "wordEntry list"

record speechSynthesis =
  queue :: "utterance list"
  begun :: bool
  paused :: bool
  cancelled :: "utterance list"
  pendingCounts :: bool

definition speaking :: "speechSynthesis \<Rightarrow> bool" where
  "speaking s \<longleftrightarrow> queue s \<noteq> [] \<and> (begun s \<or> pendingCounts s)"

definition cancel :: "speechSynthesis \<Rightarrow> speechSynthesis" where
  "cancel s = s\<lparr>queue := [], begun := False, cancelled := cancelled s @ queue s\<rparr>"

definition speak :: "utterance \<Rightarrow> speechSynthesis \<Rightarrow> speechSynthesis" where
  "speak u s = s\<lparr>queue := queue s @ [u]\<rparr>"

definition pause :: "speechSynthesis \<Rightarrow> speechSynthesis" where
  "pause s = s\<lparr>paused := True\<rparr>"

definition resume :: "speechSynthesis \<Rightarrow> speechSynthesis" where
  "resume s = s\<lparr>paused := False\<rparr>"

definition initial_synth :: "bool \<Rightarrow> speechSynthesis" where
  "initial_synth pc =
     \<lparr>queue = [], begun = False, paused = False, cancelled = [], pendingCounts = pc\<rparr>"

record world =
  ui :: app_state
  synth :: speechSynthesis

definition initial_world :: "bool \<Rightarrow> world" where
  "initial_world pc = \<lparr>ui = initial_app, synth = initial_synth pc\<rparr>"

section \<open>Playback handlers (index.tsx, lines 72-79 and 505-604)\<close>

text \<open>The handlers \<open>onstart\<close>, \<open>onend\<close> and \<open>onerror\<close> of an utterance (lines 582-600).\<close>

definition onstart :: "app_state \<Rightarrow> app_state" where
  "onstart a = a\<lparr>isSpeaking := True, isPaused := False, highlightedWordIndex := 0\<rparr>"

definition onend :: "app_state \<Rightarrow> app_state" where
  "onend a = a\<lparr>isSpeaking := False, isPaused := False, highlightedWordIndex := - 1\<rparr>"

definition speechErrorMessage :: jsstring where
  "speechErrorMessage =
     asc ''Seslendirme s'' @ [0x131] @ asc ''ras'' @ [0x131] @
     asc ''nda bir hata olu'' @ [0x15F] @ asc ''tu.''"

definition onerror :: "app_state \<Rightarrow> app_state" where
  "onerror a =
     a\<lparr>isSpeaking := False, isPaused := False, highlightedWordIndex := - 1,
       error := speechErrorMessage\<rparr>"

text \<open>The cell \<open>resultText\<close> as the value that \<open>textParts\<close> receives.\<close>

definition textValue :: "jsstring option \<Rightarrow> jsvalue" where
  "textValue t = map_option JString t"

text \<open>
  \<open>handlePlayToggle\<close> (lines 545-604). The new utterance is made from \<open>resultText\<close>, and
  its \<open>onboundary\<close> closes over the \<open>wordMap\<close> of the same render, which is made from the
  \<open>textParts\<close> of that render. A render in which \<open>textParts\<close> throws shows no button, so
  the handler runs with the parts of a render that succeeded.
\<close>

definition handlePlayToggle :: "world \<Rightarrow> world" where
  "handlePlayToggle w =
     (case resultText (ui w) of
        None \<Rightarrow> w
      | Some t \<Rightarrow>
          if t = [] then w
          else if isSpeaking (ui w) \<and> \<not> isPaused (ui w) then
            w\<lparr>synth := pause (synth w), ui := (ui w)\<lparr>isPaused := True\<rparr>\<rparr>
          else if isSpeaking (ui w) \<and> isPaused (ui w) then
            w\<lparr>synth := resume (synth w), ui := (ui w)\<lparr>isPaused := False\<rparr>\<rparr>
          else
            (case textParts (textValue (resultText (ui w))) of
               Inl e \<Rightarrow> w
             | Inr parts \<Rightarrow>
                 w\<lparr>synth :=
                     speak \<lparr>utext = t, boundaryMap = wordMap parts\<rparr> (cancel (synth w))\<rparr>))"

text \<open>\<open>if (speechSynthesis.speaking) speechSynthesis.cancel()\<close> (lines 75, 506, 527).\<close>

definition cancelIfSpeaking :: "speechSynthesis \<Rightarrow> speechSynthesis" where
  "cancelIfSpeaking s = (if speaking s then cancel s else s)"

definition loadMemoryFromHistory :: "memory \<Rightarrow> world \<Rightarrow> world" where
  "loadMemoryFromHistory m w =
     w\<lparr>synth := cancelIfSpeaking (synth w),
       ui := (ui w)\<lparr>isSpeaking := False, isPaused := False, highlightedWordIndex := - 1,
               query := mem_query m, resultText := mem_resultText m,
               imageUrls := [mem_imageUrl m], activeImageIndex := 0,
               tempTitle := mem_title m, category := mem_category m,
               imageStyle := mem_imageStyle m, isTitleSet := False, loading := False,
               error := [], showShareFallback := False, title := []\<rparr>\<rparr>"

text \<open>\<open>handleStartNew\<close> (lines 526-543); scrolling the window is not part of the state.\<close>

definition handleStartNew :: "world \<Rightarrow> world" where
  "handleStartNew w =
     w\<lparr>synth := cancelIfSpeaking (synth w),
       ui := (ui w)\<lparr>isSpeaking := False, isPaused := False, highlightedWordIndex := - 1,
               query := [], resultText := Some [], imageUrls := [],
               activeImageIndex := 0, title := [], tempTitle := [], isTitleSet := False,
               error := [], showShareFallback := False\<rparr>\<rparr>"

text \<open>The cleanup of the first effect, run when the component unmounts (lines 73-79).\<close>

definition unmountCleanup :: "world \<Rightarrow> world" where
  "unmountCleanup w = w\<lparr>synth := cancelIfSpeaking (synth w)\<rparr>"

text \<open>
  \<open>String.prototype.trim\<close> removes WhiteSpace and LineTerminator code units, the class
  \<open>\s\<close>, from both ends.
\<close>

definition trim :: "jsstring \<Rightarrow> jsstring" where
  "trim s = rev (dropWhile isWhiteSpace (rev (dropWhile isWhiteSpace s)))"

text \<open>
  \<open>handleGenerate\<close> (lines 351-392) up to its \<open>await\<close>, and its two continuations: the
  responses arrived, or a request failed.
\<close>

definition handleGenerate_begin :: "world \<Rightarrow> world" where
  "handleGenerate_begin w =
     (if trim (query (ui w)) = [] \<or> loading (ui w) then w
      else let w1 = handleStartNew w in w1\<lparr>ui := (ui w1)\<lparr>loading := True\<rparr>\<rparr>)"

definition handleGenerate_done :: "jsstring option \<Rightarrow> jsstring list \<Rightarrow> world \<Rightarrow> world" where
  "handleGenerate_done responseText generatedImageUrls w =
     w\<lparr>ui := (ui w)\<lparr>resultText := responseText, imageUrls := map Some generatedImageUrls,
               activeImageIndex := 0, loading := False\<rparr>\<rparr>"

definition generateErrorMessage :: jsstring where
  "generateErrorMessage =
     asc ''An'' @ [0x131] @ asc '' canland'' @ [0x131] @ asc ''r'' @ [0x131] @
     asc ''l'' @ [0x131] @ asc ''rken bir sorun olu'' @ [0x15F] @ asc ''tu. L'' @
     [0xFC] @ asc ''tfen tekrar deneyin.''"

definition handleGenerate_failed :: "world \<Rightarrow> world" where
  "handleGenerate_failed w =
     w\<lparr>ui := (ui w)\<lparr>error := generateErrorMessage, loading := False\<rparr>\<rparr>"

section \<open>Runs of the playback state machine\<close>

text \<open>
  What can happen to a mounted component: the user's actions (typing the query, line
  652, and the buttons), the two ways a generation ends, and the events of the engine.
  The end of a generation is allowed at any time, which covers every change of
  \<open>resultText\<close> from outside, as the one by a shared link that carries a text. An event
  of the engine that the engine's state does not allow leaves the state as it is.
\<close>

datatype event =
    SetQuery jsstring
  | PlayToggle
  | LoadMemory memory
  | StartNew
  | GenerateClick
  | GenerateDone "jsstring option" "jsstring list"
  | GenerateFailed
  | UtteranceStart
  | UtteranceBoundary int
  | UtteranceEnd
  | UtteranceError
  | CancelledEnd
  | CancelledError

fun step :: "event \<Rightarrow> world \<Rightarrow> world" where
  "step (SetQuery q) w = w\<lparr>ui := (ui w)\<lparr>query := q\<rparr>\<rparr>"
| "step PlayToggle w = handlePlayToggle w"
| "step (LoadMemory m) w = loadMemoryFromHistory m w"
| "step StartNew w = handleStartNew w"
| "step GenerateClick w = handleGenerate_begin w"
| "step (GenerateDone t urls) w = handleGenerate_done t urls w"
| "step GenerateFailed w = handleGenerate_failed w"
| "step UtteranceStart w =
     (case queue (synth w) of
        [] \<Rightarrow> w
      | u # us \<Rightarrow>
          if \<not> begun (synth w) \<and> cancelled (synth w) = []
          then w\<lparr>synth := (synth w)\<lparr>begun := True\<rparr>, ui := onstart (ui w)\<rparr>
          else w)"
| "step (UtteranceBoundary charIndex) w =
     (case queue (synth w) of
        [] \<Rightarrow> w
      | u # us \<Rightarrow>
          if begun (synth w)
          then w\<lparr>ui := (ui w)\<lparr>highlightedWordIndex :=
                  onboundary (boundaryMap u) charIndex (highlightedWordIndex (ui w))\<rparr>\<rparr>
          else w)"
| "step UtteranceEnd w =
     (case queue (synth w) of
        [] \<Rightarrow> w
      | u # us \<Rightarrow>
          if begun (synth w)
          then w\<lparr>synth := (synth w)\<lparr>queue := us, begun := False\<rparr>, ui := onend (ui w)\<rparr>
          else w)"
| "step UtteranceError w =
     (case queue (synth w) of
        [] \<Rightarrow> w
      | u # us \<Rightarrow>
          w\<lparr>synth := (synth w)\<lparr>queue := us, begun := False\<rparr>, ui := onerror (ui w)\<rparr>)"
| "step CancelledEnd w =
     (case cancelled (synth w) of
        [] \<Rightarrow> w
      | u # us \<Rightarrow> w\<lparr>synth := (synth w)\<lparr>cancelled := us\<rparr>, ui := onend (ui w)\<rparr>)"
| "step CancelledError w =
     (case cancelled (synth w) of
        [] \<Rightarrow> w
      | u # us \<Rightarrow> w\<lparr>synth := (synth w)\<lparr>cancelled := us\<rparr>, ui := onerror (ui w)\<rparr>)"

fun run :: "event list \<Rightarrow> world \<Rightarrow> world" where
  "run [] w = w"
| "run (e # es) w = run es (step e w)"

text \<open>
  The invariant of the runs. At most one utterance is queued, and it was made by
  \<open>handlePlayToggle\<close> from a non-empty text. While the head utterance is being spoken
  the component shows \<open>isSpeaking\<close> and no event of a cancelled utterance is pending.
  The highlighted index is \<open>- 1\<close> unless an utterance is being spoken; then it is a
  position of that utterance's word map, or 0 when that word map is empty.
\<close>

definition index_ok :: "wordEntry list \<Rightarrow> int \<Rightarrow> bool" where
  "index_ok wm hi \<longleftrightarrow> (0 \<le> hi \<and> hi < int (length wm)) \<or> (hi = 0 \<and> wm = [])"

definition made_by_toggle :: "utterance \<Rightarrow> bool" where
  "made_by_toggle u \<longleftrightarrow>
     utext u \<noteq> []
     \<and> (case textParts (Some (JString (utext u))) of
          Inl e \<Rightarrow> False
        | Inr parts \<Rightarrow> boundaryMap u = wordMap parts)"

definition playback_inv :: "world \<Rightarrow> bool" where
  "playback_inv w \<longleftrightarrow>
     length (queue (synth w)) \<le> 1
     \<and> list_all made_by_toggle (queue (synth w))
     \<and> (\<not> begun (synth w) \<or>
          (queue (synth w) \<noteq> [] \<and> isSpeaking (ui w) \<and> cancelled (synth w) = []))
     \<and> (highlightedWordIndex (ui w) = - 1 \<or>
          (begun (synth w) \<and> queue (synth w) \<noteq> []
           \<and> index_ok (boundaryMap (hd (queue (synth w)))) (highlightedWordIndex (ui w))))"

section \<open>Built-in functions of the share codec\<close>

text \<open>
  \<open>encodeURIComponent\<close>, \<open>decodeURIComponent\<close>, \<open>btoa\<close>, \<open>atob\<close>, \<open>JSON.stringify\<close> and
  \<open>JSON.parse\<close> belong to the platform, not to the repository. They are modelled from
  ECMA-262 (URI handling, the JSON object) and from the HTML standard (forgiving
  base64), with every exception they can throw as an error value.
\<close>

subsection \<open>Hexadecimal digits and UTF-8\<close>

definition hexDigitValue :: "jschar \<Rightarrow> nat option" where
  "hexDigitValue c =
     (if 0x30 \<le> c \<and> c \<le> 0x39 then Some (unat c - 0x30)
      else if 0x41 \<le> c \<and> c \<le> 0x46 then Some (unat c - 0x41 + 10)
      else if 0x61 \<le> c \<and> c \<le> 0x66 then Some (unat c - 0x61 + 10)
      else None)"

definition upperHexDigit :: "nat \<Rightarrow> jschar" where
  "upperHexDigit n = (if n < 10 then of_nat (0x30 + n) else of_nat (0x41 + (n - 10)))"

definition lowerHexDigit :: "nat \<Rightarrow> jschar" where
  "lowerHexDigit n = (if n < 10 then of_nat (0x30 + n) else of_nat (0x61 + (n - 10)))"

text \<open>\<open>ParseHexOctet\<close>: two hexadecimal digits as a byte.\<close>

definition parseHexOctet :: "jschar \<Rightarrow> jschar \<Rightarrow> nat option" where
  "parseHexOctet h l =
     (case (hexDigitValue h, hexDigitValue l) of
        (Some a, Some b) \<Rightarrow> Some (16 * a + b)
      | _ \<Rightarrow> None)"

definition isHighSurrogate :: "jschar \<Rightarrow> bool" where
  "isHighSurrogate c \<longleftrightarrow> 0xD800 \<le> c \<and> c \<le> 0xDBFF"

definition isLowSurrogate :: "jschar \<Rightarrow> bool" where
  "isLowSurrogate c \<longleftrightarrow> 0xDC00 \<le> c \<and> c \<le> 0xDFFF"

text \<open>The code point of a surrogate pair, and the code units of a code point.\<close>

definition pairCodePoint :: "jschar \<Rightarrow> jschar \<Rightarrow> nat" where
  "pairCodePoint hi lo = (unat hi - 0xD800) * 0x400 + (unat lo - 0xDC00) + 0x10000"

definition utf16EncodeCodePoint :: "nat \<Rightarrow> jsstring" where
  "utf16EncodeCodePoint cp =
     (if cp < 0x10000 then [of_nat cp]
      else [of_nat (0xD800 + (cp - 0x10000) div 0x400),
            of_nat (0xDC00 + (cp - 0x10000) mod 0x400)])"

definition utf8Encode :: "nat \<Rightarrow> nat list" where
  "utf8Encode cp =
     (if cp < 0x80 then [cp]
      else if cp < 0x800 then [0xC0 + cp div 0x40, 0x80 + cp mod 0x40]
      else if cp < 0x10000 then
        [0xE0 + cp div 0x1000, 0x80 + cp div 0x40 mod 0x40, 0x80 + cp mod 0x40]
      else
        [0xF0 + cp div 0x40000, 0x80 + cp div 0x1000 mod 0x40,
         0x80 + cp div 0x40 mod 0x40, 0x80 + cp mod 0x40])"

definition isContinuation :: "nat \<Rightarrow> bool" where
  "isContinuation b \<longleftrightarrow> 0x80 \<le> b \<and> b < 0xC0"

text \<open>
  The code point of a sequence of octets, where the sequence is a valid UTF-8 encoding:
  shortest form, no surrogate, at most \<open>0x10FFFF\<close>.
\<close>

definition utf8Decode :: "nat list \<Rightarrow> nat option" where
  "utf8Decode octets =
     (case octets of
        [a, b] \<Rightarrow>
          let cp = (a - 0xC0) * 0x40 + (b - 0x80)
          in if 0xC0 \<le> a \<and> a < 0xE0 \<and> isContinuation b \<and> 0x80 \<le> cp then Some cp
             else None
      | [a, b, c] \<Rightarrow>
          let cp = (a - 0xE0) * 0x1000 + (b - 0x80) * 0x40 + (c - 0x80)
          in if 0xE0 \<le> a \<and> a < 0xF0 \<and> isContinuation b \<and> isContinuation c
                \<and> 0x800 \<le> cp \<and> \<not> (0xD800 \<le> cp \<and> cp < 0xE000)
             then Some cp else None
      | [a, b, c, d] \<Rightarrow>
          let cp = (a - 0xF0) * 0x40000 + (b - 0x80) * 0x1000 + (c - 0x80) * 0x40
                     + (d - 0x80)
          in if 0xF0 \<le> a \<and> a < 0xF8 \<and> isContinuation b \<and> isContinuation c
                \<and> isContinuation d \<and> 0x10000 \<le> cp \<and> cp \<le> 0x10FFFF
             then Some cp else None
      | _ \<Rightarrow> None)"

subsection \<open>\<open>encodeURIComponent\<close>\<close>

text \<open>The characters \<open>encodeURIComponent\<close> leaves as they are.\<close>

definition uriUnreserved :: "jschar \<Rightarrow> bool" where
  "uriUnreserved c \<longleftrightarrow>
     (0x41 \<le> c \<and> c \<le> 0x5A) \<or> (0x61 \<le> c \<and> c \<le> 0x7A) \<or> (0x30 \<le> c \<and> c \<le> 0x39)
     \<or> c \<in> set (asc ''-_.!~*'') \<or> c = 0x27 \<or> c = 0x28 \<or> c = 0x29"

definition percentOctet :: "nat \<Rightarrow> jsstring" where
  "percentOctet b = [0x25, upperHexDigit (b div 16), upperHexDigit (b mod 16)]"

definition percentEncode :: "nat \<Rightarrow> jsstring" where
  "percentEncode cp = concat (map percentOctet (utf8Encode cp))"

text \<open>
  The abstract operation \<open>Encode\<close>: an unreserved code unit is copied; otherwise the
  code point at the position is taken (a surrogate pair counts as one), an unpaired
  surrogate throws \<open>URIError\<close>, and the octets of its UTF-8 form are written as
  \<open>%XX\<close>.
\<close>

fun encodeURIComponent :: "jsstring \<Rightarrow> jserror + jsstring" where
  "encodeURIComponent [] = Inr []"
| "encodeURIComponent [c] =
     (if uriUnreserved c then Inr [c]
      else if isHighSurrogate c \<or> isLowSurrogate c then Inl URIError
      else Inr (percentEncode (unat c)))"
| "encodeURIComponent (c # d # cs) =
     (if uriUnreserved c then map_sum id ((#) c) (encodeURIComponent (d # cs))
      else if isHighSurrogate c then
        (if isLowSurrogate d
         then map_sum id ((@) (percentEncode (pairCodePoint c d))) (encodeURIComponent cs)
         else Inl URIError)
      else if isLowSurrogate c then Inl URIError
      else map_sum id ((@) (percentEncode (unat c))) (encodeURIComponent (d # cs)))"

subsection \<open>\<open>decodeURIComponent\<close>\<close>

text \<open>The number of leading 1 bits of an octet that is at least \<open>0x80\<close>.\<close>

definition leadingOnes :: "nat \<Rightarrow> nat" where
  "leadingOnes b =
     (if b < 0xC0 then 1 else if b < 0xE0 then 2 else if b < 0xF0 then 3
      else if b < 0xF8 then 4 else 5)"

text \<open>The \<open>n\<close> continuation escapes \<open>%XX\<close> that must follow the first octet.\<close>

fun continuationOctets :: "nat \<Rightarrow> jsstring \<Rightarrow> nat list option" where
  "continuationOctets 0 s = Some []"
| "continuationOctets (Suc n) (p # h # l # s) =
     (if p = 0x25 then
        (case parseHexOctet h l of
           None \<Rightarrow> None
         | Some b \<Rightarrow>
             (case continuationOctets n s of
                None \<Rightarrow> None
              | Some bs \<Rightarrow> Some (b # bs)))
      else None)"
| "continuationOctets (Suc n) s = None"

text \<open>
  The abstract operation \<open>Decode\<close> with an empty set of preserved escapes. Every
  malformed escape throws \<open>URIError\<close>: a \<open>%\<close> without two hexadecimal digits, a first
  octet that is a continuation or has more than four leading 1 bits, missing or
  malformed continuation escapes, octets that are not valid UTF-8.
\<close>

function decodeURIComponent :: "jsstring \<Rightarrow> jserror + jsstring" where
  "decodeURIComponent [] = Inr []"
| "decodeURIComponent (c # cs) =
     (if c \<noteq> 0x25 then map_sum id ((#) c) (decodeURIComponent cs)
      else
        (case cs of
           h # l # r \<Rightarrow>
             (case parseHexOctet h l of
                None \<Rightarrow> Inl URIError
              | Some b \<Rightarrow>
                  if b < 0x80 then map_sum id ((#) (of_nat b)) (decodeURIComponent r)
                  else
                    let n = leadingOnes b
                    in if n = 1 \<or> n > 4 then Inl URIError
                       else
                         (case continuationOctets (n - 1) r of
                            None \<Rightarrow> Inl URIError
                          | Some bs \<Rightarrow>
                              (case utf8Decode (b # bs) of
                                 None \<Rightarrow> Inl URIError
                               | Some cp \<Rightarrow>
                                   map_sum id ((@) (utf16EncodeCodePoint cp))
                                     (decodeURIComponent (drop (3 * (n - 1)) r)))))
         | _ \<Rightarrow> Inl URIError))"
  by pat_completeness auto
termination
  by (relation "measure length") auto

subsection \<open>\<open>btoa\<close> and \<open>atob\<close>\<close>

text \<open>
  The base64 alphabet: \<open>A\<close> to \<open>Z\<close>, \<open>a\<close> to \<open>z\<close>, \<open>0\<close> to \<open>9\<close>, \<open>+\<close> and \<open>/\<close> for the
  values 0 to 63.
\<close>

definition base64Char :: "nat \<Rightarrow> jschar" where
  "base64Char n =
     (if n < 26 then of_nat (0x41 + n)
      else if n < 52 then of_nat (0x61 + (n - 26))
      else if n < 62 then of_nat (0x30 + (n - 52))
      else if n = 62 then 0x2B
      else 0x2F)"

definition base64Value :: "jschar \<Rightarrow> nat option" where
  "base64Value c =
     (if 0x41 \<le> c \<and> c \<le> 0x5A then Some (unat c - 0x41)
      else if 0x61 \<le> c \<and> c \<le> 0x7A then Some (unat c - 0x61 + 26)
      else if 0x30 \<le> c \<and> c \<le> 0x39 then Some (unat c - 0x30 + 52)
      else if c = 0x2B then Some 62
      else if c = 0x2F then Some 63
      else None)"

text \<open>Base64 of a sequence of octets, with padding (RFC 4648).\<close>

fun base64Encode :: "nat list \<Rightarrow> jsstring" where
  "base64Encode [] = []"
| "base64Encode [a] = [base64Char (a div 4), base64Char (a mod 4 * 16), 0x3D, 0x3D]"
| "base64Encode [a, b] =
     [base64Char (a div 4), base64Char (a mod 4 * 16 + b div 16),
      base64Char (b mod 16 * 4), 0x3D]"
| "base64Encode (a # b # c # bs) =
     base64Char (a div 4) # base64Char (a mod 4 * 16 + b div 16)
       # base64Char (b mod 16 * 4 + c div 64) # base64Char (c mod 64) # base64Encode bs"

text \<open>
  \<open>btoa\<close>: a code unit above \<open>0xFF\<close> throws \<open>InvalidCharacterError\<close>; otherwise the code
  units are the octets to encode.
\<close>

definition btoa :: "jsstring \<Rightarrow> jserror + jsstring" where
  "btoa s =
     (if \<exists>c \<in> set s. 0xFF < c then Inl InvalidCharacterError
      else Inr (base64Encode (map unat s)))"

definition isAsciiWhitespace :: "jschar \<Rightarrow> bool" where
  "isAsciiWhitespace c \<longleftrightarrow> c = 0x09 \<or> c = 0x0A \<or> c = 0x0C \<or> c = 0x0D \<or> c = 0x20"

text \<open>Groups of four sextets give three octets; two or three left over give one or two.\<close>

fun base64DecodeValues :: "nat list \<Rightarrow> nat list" where
  "base64DecodeValues (a # b # c # d # vs) =
     (a * 4 + b div 16) # (b mod 16 * 16 + c div 4) # (c mod 4 * 64 + d)
       # base64DecodeValues vs"
| "base64DecodeValues [a, b, c] = [a * 4 + b div 16, b mod 16 * 16 + c div 4]"
| "base64DecodeValues [a, b] = [a * 4 + b div 16]"
| "base64DecodeValues vs = []"

text \<open>Removing one trailing \<open>=\<close>, if there is one.\<close>

definition dropPad :: "jsstring \<Rightarrow> jsstring" where
  "dropPad s = (if s \<noteq> [] \<and> last s = 0x3D then butlast s else s)"

text \<open>
  \<open>atob\<close>, the forgiving base64 decoding: ASCII whitespace is removed; if the length is
  a multiple of four, one or two trailing \<open>=\<close> are removed; a length that leaves
  remainder 1 or a character outside the alphabet throws \<open>InvalidCharacterError\<close>.
\<close>

definition atob :: "jsstring \<Rightarrow> jserror + jsstring" where
  "atob s =
     (let d0 = filter (\<lambda>c. \<not> isAsciiWhitespace c) s;
          d = (if length d0 mod 4 = 0 then dropPad (dropPad d0) else d0)
      in if length d mod 4 = 1 then Inl InvalidCharacterError
         else (case those (map base64Value d) of
                 None \<Rightarrow> Inl InvalidCharacterError
               | Some vs \<Rightarrow> Inr (map of_nat (base64DecodeValues vs))))"

subsection \<open>\<open>JSON.stringify\<close>\<close>

definition unicodeEscape :: "jschar \<Rightarrow> jsstring" where
  "unicodeEscape c =
     [0x5C, 0x75, lowerHexDigit (unat c div 4096), lowerHexDigit (unat c div 256 mod 16),
      lowerHexDigit (unat c div 16 mod 16), lowerHexDigit (unat c mod 16)]"

text \<open>
  One code unit that is no surrogate, as \<open>QuoteJSONString\<close> writes it: the short
  escapes, \<open>\uXXXX\<close> for the other control characters, the character itself otherwise.
\<close>

definition quoteChar :: "jschar \<Rightarrow> jsstring" where
  "quoteChar c =
     (if c = 0x08 then [0x5C, 0x62]
      else if c = 0x09 then [0x5C, 0x74]
      else if c = 0x0A then [0x5C, 0x6E]
      else if c = 0x0C then [0x5C, 0x66]
      else if c = 0x0D then [0x5C, 0x72]
      else if c = 0x22 then [0x5C, 0x22]
      else if c = 0x5C then [0x5C, 0x5C]
      else if c < 0x20 then unicodeEscape c
      else [c])"

text \<open>
  The body of the quoted string. \<open>QuoteJSONString\<close> walks over code points: a
  surrogate pair is copied, an unpaired surrogate is written as \<open>\uXXXX\<close>.
\<close>

fun quoteBody :: "jsstring \<Rightarrow> jsstring" where
  "quoteBody [] = []"
| "quoteBody [c] =
     (if isHighSurrogate c \<or> isLowSurrogate c then unicodeEscape c else quoteChar c)"
| "quoteBody (c # d # cs) =
     (if isHighSurrogate c then
        (if isLowSurrogate d then c # d # quoteBody cs
         else unicodeEscape c @ quoteBody (d # cs))
      else if isLowSurrogate c then unicodeEscape c @ quoteBody (d # cs)
      else quoteChar c @ quoteBody (d # cs))"

definition quoteJSONString :: "jsstring \<Rightarrow> jsstring" where
  "quoteJSONString s = 0x22 # quoteBody s @ [0x22]"

text \<open>The elements or members of a list, separated by commas.\<close>

fun commaSeparated :: "jsstring list \<Rightarrow> jsstring" where
  "commaSeparated [] = []"
| "commaSeparated [x] = x"
| "commaSeparated (x # y # ys) = x @ 0x2C # commaSeparated (y # ys)"

fun JSON_stringify :: "json \<Rightarrow> jsstring" where
  "JSON_stringify JNull = asc ''null''"
| "JSON_stringify (JBool b) = (if b then asc ''true'' else asc ''false'')"
| "JSON_stringify (JNumber n) = n"
| "JSON_stringify (JString s) = quoteJSONString s"
| "JSON_stringify (JArray xs) = 0x5B # commaSeparated (map JSON_stringify xs) @ [0x5D]"
| "JSON_stringify (JObject ms) =
     0x7B # commaSeparated
       (map (\<lambda>m. quoteJSONString (fst m) @ 0x3A # JSON_stringify (snd m)) ms) @ [0x7D]"

subsection \<open>\<open>JSON.parse\<close>\<close>

definition isJSONWhitespace :: "jschar \<Rightarrow> bool" where
  "isJSONWhitespace c \<longleftrightarrow> c = 0x09 \<or> c = 0x0A \<or> c = 0x0D \<or> c = 0x20"

definition skipWhitespace :: "jsstring \<Rightarrow> jsstring" where
  "skipWhitespace s = dropWhile isJSONWhitespace s"

text \<open>The character a short escape \<open>\c\<close> stands for.\<close>

definition unescapeChar :: "jschar \<Rightarrow> jschar option" where
  "unescapeChar c =
     (if c = 0x22 then Some 0x22
      else if c = 0x5C then Some 0x5C
      else if c = 0x2F then Some 0x2F
      else if c = 0x62 then Some 0x08
      else if c = 0x66 then Some 0x0C
      else if c = 0x6E then Some 0x0A
      else if c = 0x72 then Some 0x0D
      else if c = 0x74 then Some 0x09
      else None)"

definition hex4 :: "jschar \<Rightarrow> jschar \<Rightarrow> jschar \<Rightarrow> jschar \<Rightarrow> jschar option" where
  "hex4 a b c d =
     (case (hexDigitValue a, hexDigitValue b, hexDigitValue c, hexDigitValue d) of
        (Some x, Some y, Some z, Some w) \<Rightarrow> Some (of_nat (4096 * x + 256 * y + 16 * z + w))
      | _ \<Rightarrow> None)"

text \<open>
  The characters of a string literal behind its opening quote, up to and including the
  closing quote: the string and the rest of the text, or \<open>None\<close> where the literal is
  malformed (no closing quote, a raw control character, a bad escape).
\<close>

fun parseStringBody :: "jsstring \<Rightarrow> (jsstring \<times> jsstring) option" where
  "parseStringBody [] = None"
| "parseStringBody (c # cs) =
     (if c = 0x22 then Some ([], cs)
      else if c = 0x5C then
        (case cs of
           [] \<Rightarrow> None
         | e # es \<Rightarrow>
             if e = 0x75 then
               (case es of
                  h1 # h2 # h3 # h4 # r \<Rightarrow>
                    (case hex4 h1 h2 h3 h4 of
                       None \<Rightarrow> None
                     | Some u \<Rightarrow> map_option (map_prod ((#) u) id) (parseStringBody r))
                | _ \<Rightarrow> None)
             else
               (case unescapeChar e of
                  None \<Rightarrow> None
                | Some u \<Rightarrow> map_option (map_prod ((#) u) id) (parseStringBody es)))
      else if c < 0x20 then None
      else map_option (map_prod ((#) c) id) (parseStringBody cs))"

text \<open>
  A number literal at the start of the text: an optional minus, \<open>0\<close> or a run of
  digits without a leading zero, an optional fraction and an optional exponent, each
  with at least one digit. The result is the literal and the rest of the text.
\<close>

definition parseDigits :: "jsstring \<Rightarrow> (jsstring \<times> jsstring) option" where
  "parseDigits s =
     (if takeWhile isDigit s = [] then None
      else Some (takeWhile isDigit s, dropWhile isDigit s))"

definition parseInt :: "jsstring \<Rightarrow> (jsstring \<times> jsstring) option" where
  "parseInt s =
     (case s of
        [] \<Rightarrow> None
      | c # cs \<Rightarrow> if c = 0x30 then Some ([c], cs) else parseDigits s)"

definition parseFraction :: "jsstring \<Rightarrow> (jsstring \<times> jsstring) option" where
  "parseFraction s =
     (case s of
        [] \<Rightarrow> Some ([], s)
      | c # cs \<Rightarrow>
          if c = 0x2E then map_option (map_prod ((#) c) id) (parseDigits cs)
          else Some ([], s))"

definition parseExponent :: "jsstring \<Rightarrow> (jsstring \<times> jsstring) option" where
  "parseExponent s =
     (case s of
        [] \<Rightarrow> Some ([], s)
      | c # cs \<Rightarrow>
          if c = 0x65 \<or> c = 0x45 then
            (case cs of
               [] \<Rightarrow> None
             | d # ds \<Rightarrow>
                 if d = 0x2B \<or> d = 0x2D
                 then map_option (map_prod (\<lambda>x. c # d # x) id) (parseDigits ds)
                 else map_option (map_prod ((#) c) id) (parseDigits cs))
          else Some ([], s))"

definition parseNumber :: "jsstring \<Rightarrow> (jsstring \<times> jsstring) option" where
  "parseNumber s =
     (let (sign, s1) = (case s of [] \<Rightarrow> ([], s)
                        | c # cs \<Rightarrow> if c = 0x2D then ([c], cs) else ([], s))
      in case parseInt s1 of
           None \<Rightarrow> None
         | Some (i, s2) \<Rightarrow>
             (case parseFraction s2 of
                None \<Rightarrow> None
              | Some (f, s3) \<Rightarrow>
                  (case parseExponent s3 of
                     None \<Rightarrow> None
                   | Some (e, s4) \<Rightarrow> Some (sign @ i @ f @ e, s4))))"

text \<open>One of the literals \<open>true\<close>, \<open>false\<close>, \<open>null\<close> at the start of the text.\<close>

definition parseLiteral :: "jsstring \<Rightarrow> json \<Rightarrow> jsstring \<Rightarrow> (json \<times> jsstring) option" where
  "parseLiteral lit v s =
     (if take (length lit) s = lit then Some (v, drop (length lit) s) else None)"

lemma skipWhitespace_length: "length (skipWhitespace s) \<le> length s"
  by (simp add: skipWhitespace_def length_dropWhile_le)

lemma skipWhitespace_Cons_length:
  "skipWhitespace s = c # cs \<Longrightarrow> length cs < length s"
  using skipWhitespace_length [of s] by simp

lemma parseStringBody_shorter:
  "parseStringBody s = Some (x, r) \<Longrightarrow> length r < length s"
proof (induction s arbitrary: x r rule: parseStringBody.induct)
  case 1
  then show ?case by simp
next
  case (2 c cs)
  then show ?case
    by (fastforce split: if_splits list.splits option.splits)
qed

text \<open>
  The grammar of values. \<open>parseElements\<close> reads the elements of an array behind its
  opening bracket, up to and including the closing bracket; \<open>parseMembers\<close> reads the
  members of an object likewise. Both require at least one element or member: the
  empty array and the empty object are recognised by \<open>parseValue\<close>, and a comma must be
  followed by a further element or member. The two comparisons of lengths serve the
  termination proof only: the text behind a parsed value is always shorter than the
  text the value was parsed from (\<open>parseValue_shorter\<close> below), so they never fail.
\<close>

function parseValue :: "jsstring \<Rightarrow> (json \<times> jsstring) option"
  and parseElements :: "jsstring \<Rightarrow> (json list \<times> jsstring) option"
  and parseMembers :: "jsstring \<Rightarrow> ((jsstring \<times> json) list \<times> jsstring) option"
where
  "parseValue s =
     (case skipWhitespace s of
        [] \<Rightarrow> None
      | c # cs \<Rightarrow>
          if c = 0x7B then
            (case skipWhitespace cs of
               [] \<Rightarrow> None
             | d # ds \<Rightarrow>
                 if d = 0x7D then Some (JObject [], ds)
                 else map_option (map_prod JObject id) (parseMembers (d # ds)))
          else if c = 0x5B then
            (case skipWhitespace cs of
               [] \<Rightarrow> None
             | d # ds \<Rightarrow>
                 if d = 0x5D then Some (JArray [], ds)
                 else map_option (map_prod JArray id) (parseElements (d # ds)))
          else if c = 0x22 then map_option (map_prod JString id) (parseStringBody cs)
          else if c = 0x74 then parseLiteral (asc ''true'') (JBool True) (c # cs)
          else if c = 0x66 then parseLiteral (asc ''false'') (JBool False) (c # cs)
          else if c = 0x6E then parseLiteral (asc ''null'') JNull (c # cs)
          else map_option (map_prod JNumber id) (parseNumber (c # cs)))"
| "parseElements s =
     (case parseValue s of
        None \<Rightarrow> None
      | Some (v, r) \<Rightarrow>
          (case skipWhitespace r of
             [] \<Rightarrow> None
           | c # cs \<Rightarrow>
               if c = 0x5D then Some ([v], cs)
               else if c = 0x2C \<and> length cs < length s
               then map_option (map_prod ((#) v) id) (parseElements cs)
               else None))"
| "parseMembers s =
     (case skipWhitespace s of
        [] \<Rightarrow> None
      | q # qs \<Rightarrow>
          if q \<noteq> 0x22 then None
          else
            (case parseStringBody qs of
               None \<Rightarrow> None
             | Some (k, r0) \<Rightarrow>
                 (case skipWhitespace r0 of
                    [] \<Rightarrow> None
                  | c # cs \<Rightarrow>
                      if c \<noteq> 0x3A then None
                      else
                        (case parseValue cs of
                           None \<Rightarrow> None
                         | Some (v, r) \<Rightarrow>
                             (case skipWhitespace r of
                                [] \<Rightarrow> None
                              | e # es \<Rightarrow>
                                  if e = 0x7D then Some ([(k, v)], es)
                                  else if e = 0x2C \<and> length es < length s
                                  then map_option (map_prod ((#) (k, v)) id)
                                         (parseMembers es)
                                  else None)))))"
  by pat_completeness auto
termination
  apply (relation "measure (\<lambda>x. case x of
    Inl s \<Rightarrow> 2 * length s
  | Inr (Inl s) \<Rightarrow> 2 * length s + 1
  | Inr (Inr s) \<Rightarrow> 2 * length s + 1)")
    apply simp_all
  subgoal for s c cs d ds
    using skipWhitespace_Cons_length [of s "0x7B" cs] skipWhitespace_Cons_length [of cs d ds]
    by simp
  subgoal for s c cs d ds
    using skipWhitespace_Cons_length [of s "0x5B" cs] skipWhitespace_Cons_length [of cs d ds]
    by simp
  subgoal for s q qs p k r0 c cs
    using skipWhitespace_Cons_length [of s "0x22" qs] parseStringBody_shorter [of qs k r0]
      skipWhitespace_Cons_length [of r0 "0x3A" cs]
    by simp
  done

declare parseValue.simps [simp del] parseElements.simps [simp del]
  parseMembers.simps [simp del]

text \<open>
  \<open>JSON.parse\<close>: one value, with nothing but whitespace behind it; anything else throws
  \<open>SyntaxError\<close>.
\<close>

definition JSON_parse :: "jsstring \<Rightarrow> jserror + json" where
  "JSON_parse s =
     (case parseValue s of
        None \<Rightarrow> Inl SyntaxError
      | Some (v, r) \<Rightarrow> if skipWhitespace r = [] then Inr v else Inl SyntaxError)"

section \<open>Share codec: \<open>handleCopyLink\<close> and \<open>handleSharedMemory\<close> (index.tsx, lines 124-167 and 486-503)\<close>

text \<open>The type \<open>SharedMemoryData\<close>: \<open>Memory\<close> without \<open>id\<close> and \<open>imageUrl\<close>.\<close>

record sharedMemoryData =
  sh_title :: jsstring
  sh_query :: jsstring
  sh_category :: jsstring
  sh_imageStyle :: jsstring
  sh_resultText :: jsstring

text \<open>
  The object literal \<open>dataToShare\<close> of \<open>handleCopyLink\<close>, with its properties in the
  order of the source.
\<close>

definition sharedMemoryData_json :: "sharedMemoryData \<Rightarrow> json" where
  "sharedMemoryData_json d =
     JObject
       [(asc ''title'', JString (sh_title d)),
        (asc ''resultText'', JString (sh_resultText d)),
        (asc ''query'', JString (sh_query d)),
        (asc ''category'', JString (sh_category d)),
        (asc ''imageStyle'', JString (sh_imageStyle d))]"

text \<open>
  \<open>encodeURIComponent(btoa(JSON.stringify(dataToShare)))\<close>: the token behind
  \<open>?memory=\<close>. \<open>handleCopyLink\<close> has no \<open>try\<close>: an exception of \<open>btoa\<close> leaves the
  handler.
\<close>

definition encodeShare :: "json \<Rightarrow> jserror + jsstring" where
  "encodeShare dataToShare =
     (case btoa (JSON_stringify dataToShare) of
        Inl e \<Rightarrow> Inl e
      | Inr base64Data \<Rightarrow> encodeURIComponent base64Data)"

text \<open>
  The data of the link as \<open>handleCopyLink\<close> takes it from the state; \<open>JSON.stringify\<close>
  leaves out a property whose value is \<open>undefined\<close>.
\<close>

definition dataToShare :: "app_state \<Rightarrow> json" where
  "dataToShare a =
     JObject
       ([(asc ''title'', JString (title a))]
        @ (case resultText a of None \<Rightarrow> [] | Some t \<Rightarrow> [(asc ''resultText'', JString t)])
        @ [(asc ''query'', JString (query a)),
           (asc ''category'', JString (category a)),
           (asc ''imageStyle'', JString (imageStyle a))])"

definition handleCopyLink_token :: "app_state \<Rightarrow> jserror + jsstring" where
  "handleCopyLink_token a = encodeShare (dataToShare a)"

text \<open>
  \<open>JSON.parse(atob(decodeURIComponent(sharedData)))\<close> (line 129), where \<open>sharedData\<close> is
  the value of the parameter \<open>memory\<close> as \<open>URLSearchParams.get\<close> returned it.
\<close>

definition decodeShared :: "jsstring \<Rightarrow> jserror + json" where
  "decodeShared sharedData =
     (case decodeURIComponent sharedData of
        Inl e \<Rightarrow> Inl e
      | Inr b64 \<Rightarrow>
          (case atob b64 of
             Inl e \<Rightarrow> Inl e
           | Inr serialized \<Rightarrow> JSON_parse serialized))"

text \<open>
  Reading a property of a parsed value, for a name that no built-in prototype defines
  (as \<open>query\<close>, \<open>resultText\<close>, \<open>title\<close>, \<open>category\<close> and \<open>imageStyle\<close>): \<open>null\<close> throws
  \<open>TypeError\<close>, an object gives its last member of that name, and everything else,
  like an object without such a member, gives \<open>undefined\<close> (\<open>None\<close>).
\<close>

definition getProperty :: "json \<Rightarrow> jsstring \<Rightarrow> jserror + json option" where
  "getProperty v name =
     (case v of
        JNull \<Rightarrow> Inl TypeError
      | JObject ms \<Rightarrow> Inr (map_of (rev ms) name)
      | _ \<Rightarrow> Inr None)"

text \<open>The values the five setters receive (lines 130-134); \<open>None\<close> is \<open>undefined\<close>.\<close>

record sharedFields =
  f_query :: "json option"
  f_resultText :: "json option"
  f_title :: "json option"
  f_category :: "json option"
  f_imageStyle :: "json option"

definition readFields :: "json \<Rightarrow> jserror + sharedFields" where
  "readFields decodedData =
     (case getProperty decodedData (asc ''query'') of
        Inl e \<Rightarrow> Inl e
      | Inr q \<Rightarrow>
     (case getProperty decodedData (asc ''resultText'') of
        Inl e \<Rightarrow> Inl e
      | Inr r \<Rightarrow>
     (case getProperty decodedData (asc ''title'') of
        Inl e \<Rightarrow> Inl e
      | Inr t \<Rightarrow>
     (case getProperty decodedData (asc ''category'') of
        Inl e \<Rightarrow> Inl e
      | Inr c \<Rightarrow>
     (case getProperty decodedData (asc ''imageStyle'') of
        Inl e \<Rightarrow> Inl e
      | Inr i \<Rightarrow>
          Inr \<lparr>f_query = q, f_resultText = r, f_title = t, f_category = c,
               f_imageStyle = i\<rparr>)))))"

definition sharedErrorMessage :: jsstring where
  "sharedErrorMessage =
     asc ''Payla'' @ [0x15F, 0x131] @ asc ''lan an'' @ [0x131] @ asc '' y'' @
     [0xFC] @ asc ''klenirken bir sorun olu'' @ [0x15F] @ asc ''tu.''"

text \<open>
  The decoding part of \<open>handleSharedMemory\<close>: nothing happens without the parameter or
  with an empty one (\<open>if (sharedData)\<close>); inside the \<open>try\<close> every exception of the
  decoding and of the property reads ends in the \<open>catch\<close>, which sets the error message;
  otherwise the five values go to the setters. The regeneration of the image that
  follows in the same \<open>try\<close> is a call of the generation service.
\<close>

datatype shareOutcome =
    NoSharedData
  | SharedFailed jsstring
  | SharedLoaded sharedFields

definition handleSharedMemory_decode :: "jsstring option \<Rightarrow> shareOutcome" where
  "handleSharedMemory_decode sharedData =
     (case sharedData of
        None \<Rightarrow> NoSharedData
      | Some sd \<Rightarrow>
          if sd = [] then NoSharedData
          else
            (case decodeShared sd of
               Inl e \<Rightarrow> SharedFailed sharedErrorMessage
             | Inr decodedData \<Rightarrow>
                 (case readFields decodedData of
                    Inl e \<Rightarrow> SharedFailed sharedErrorMessage
                  | Inr fs \<Rightarrow> SharedLoaded fs)))"

text \<open>
  \<open>ToString\<close> of a parsed value, where a template literal or a property key needs a
  string: whether the conversion throws. An object of \<open>JSON.parse\<close> inherits
  \<open>toString\<close> and \<open>valueOf\<close> from \<open>Object.prototype\<close> unless it has a member of that
  name, whose value is no function. With a member \<open>toString\<close> the conversion finds no
  method that returns a primitive value and throws \<open>TypeError\<close>; without it the
  inherited method answers. An array joins the conversions of its elements.
\<close>

fun toStringThrows :: "json \<Rightarrow> bool" where
  "toStringThrows (JObject ms) = (map_of ms (asc ''toString'') \<noteq> None)"
| "toStringThrows (JArray xs) = list_ex toStringThrows xs"
| "toStringThrows JNull = False"
| "toStringThrows (JBool b) = False"
| "toStringThrows (JNumber n) = False"
| "toStringThrows (JString s) = False"

text \<open>
  The cells of \<open>App\<close> that \<open>handleSharedMemory\<close> writes, with the values of the first
  five as the handler passes them on, and their initial values (lines 42-56).
\<close>

record linkState =
  l_query :: jsvalue
  l_resultText :: jsvalue
  l_title :: jsvalue
  l_category :: jsvalue
  l_imageStyle :: jsvalue
  l_isTitleSet :: bool
  l_loading :: bool
  l_imageUrls :: "jsstring list"
  l_activeImageIndex :: nat
  l_error :: jsstring
  l_isLoadingShared :: bool

definition initial_linkState :: linkState where
  "initial_linkState =
     \<lparr>l_query = Some (JString []), l_resultText = Some (JString []),
      l_title = Some (JString []), l_category = Some (JString (asc ''general'')),
      l_imageStyle = Some (JString (asc ''faded-photo'')), l_isTitleSet = False,
      l_loading = False, l_imageUrls = [], l_activeImageIndex = 0, l_error = [],
      l_isLoadingShared = True\<rparr>"

text \<open>
  How the regeneration of the image ends (lines 139-152): with the data URLs made from
  the response of the service, or with an exception of the request or of the reading
  of its response.
\<close>

datatype imagesOutcome =
    ImagesGenerated "jsstring list"
  | ImagesFailed

text \<open>
  \<open>handleSharedMemory\<close> (lines 124-167) as a whole. The setters run before the
  regeneration, so their values stay when a later statement of the \<open>try\<close> throws; the
  \<open>catch\<close> sets the error message and leaves \<open>loading\<close> as it is. Of the call of
  \<open>getPrompts\<close> only the image prompt is used, and it goes to the service; the call
  throws exactly when the template literals cannot convert \<open>decodedData.query\<close> to a
  string (\<open>undefined\<close> converts to the text \<open>undefined\<close>); the switches compare with
  \<open>===\<close> and convert nothing.
\<close>

definition handleSharedMemory ::
  "jsstring option \<Rightarrow> imagesOutcome \<Rightarrow> linkState \<Rightarrow> linkState" where
  "handleSharedMemory sharedData images st =
     (case handleSharedMemory_decode sharedData of
        NoSharedData \<Rightarrow> st\<lparr>l_isLoadingShared := False\<rparr>
      | SharedFailed message \<Rightarrow> st\<lparr>l_error := message, l_isLoadingShared := False\<rparr>
      | SharedLoaded fs \<Rightarrow>
          let st1 = st\<lparr>l_query := f_query fs, l_resultText := f_resultText fs,
                       l_title := f_title fs, l_category := f_category fs,
                       l_imageStyle := f_imageStyle fs, l_isTitleSet := True,
                       l_loading := True\<rparr>
          in if (case f_query fs of None \<Rightarrow> False | Some q \<Rightarrow> toStringThrows q)
             then st1\<lparr>l_error := sharedErrorMessage, l_isLoadingShared := False\<rparr>
             else
               (case images of
                  ImagesFailed \<Rightarrow>
                    st1\<lparr>l_error := sharedErrorMessage, l_isLoadingShared := False\<rparr>
                | ImagesGenerated generatedImageUrls \<Rightarrow>
                    st1\<lparr>l_imageUrls := generatedImageUrls, l_activeImageIndex := 0,
                        l_loading := False, l_isLoadingShared := False\<rparr>))"

text \<open>
  What the render evaluates of these cells first. The memo \<open>textParts\<close> is computed at
  every render (line 244), before the early return for \<open>isLoadingShared\<close> (line 607).
  Once the shared link is handled, the input section is
  rendered when \<open>!resultText && !loading\<close> (line 620), and with it the attribute
  \<open>disabled={loading || !query.trim()}\<close> of its button (line 678). \<open>trim\<close> is a method
  of strings only: on \<open>undefined\<close> and \<open>null\<close> the property read throws \<open>TypeError\<close>, on
  every other value that is no string the call of what is no function does. No \<open>try\<close>
  of the component is around its render.
\<close>

definition callTrim :: "jsvalue \<Rightarrow> jserror + jsstring" where
  "callTrim v = (case v of Some (JString s) \<Rightarrow> Inr (trim s) | _ \<Rightarrow> Inl TypeError)"

definition inputSectionRendered :: "linkState \<Rightarrow> bool" where
  "inputSectionRendered st \<longleftrightarrow>
     \<not> l_isLoadingShared st \<and> \<not> truthy (l_resultText st) \<and> \<not> l_loading st"

definition generateDisabled :: "linkState \<Rightarrow> jserror + bool" where
  "generateDisabled st =
     (if l_loading st then Inr True
      else (case callTrim (l_query st) of Inl e \<Rightarrow> Inl e | Inr t \<Rightarrow> Inr (t = [])))"

text \<open>The fields a decoded link must show to agree with the data that was shared.\<close>

definition fieldsOf :: "sharedMemoryData \<Rightarrow> sharedFields" where
  "fieldsOf d =
     \<lparr>f_query = Some (JString (sh_query d)),
      f_resultText = Some (JString (sh_resultText d)),
      f_title = Some (JString (sh_title d)),
      f_category = Some (JString (sh_category d)),
      f_imageStyle = Some (JString (sh_imageStyle d))\<rparr>"

section \<open>History store: \<open>handleSetTitle\<close> and the loading effect (index.tsx, lines 171-180 and 394-420)\<close>

text \<open>
  \<open>localStorage\<close>, as far as the application uses it: the one entry under the key
  \<open>aniMakinesiHistory\<close>, and the room the browser still grants for it. \<open>setItem\<close> throws
  \<open>QuotaExceededError\<close> when the key and the value together exceed that room, and leaves
  the entry as it was.
\<close>

record localStorage =
  item :: "jsstring option"
  capacity :: nat

definition storageKey :: jsstring where
  "storageKey = asc ''aniMakinesiHistory''"

definition setItem :: "jsstring \<Rightarrow> localStorage \<Rightarrow> jserror + localStorage" where
  "setItem v st =
     (if length storageKey + length v \<le> capacity st then Inr (st\<lparr>item := Some v\<rparr>)
      else Inl QuotaExceededError)"

definition getItem :: "localStorage \<Rightarrow> jsstring option" where
  "getItem st = item st"

definition removeItem :: "localStorage \<Rightarrow> localStorage" where
  "removeItem st = st\<lparr>item := None\<rparr>"

text \<open>
  The decimal digits of a number, as \<open>JSON.stringify\<close> prints an integer (of magnitude
  below \<open>10^21\<close>; \<open>Date.now()\<close> is a count of milliseconds far below that).
\<close>

definition digitChar :: "nat \<Rightarrow> jschar" where
  "digitChar d = of_nat (0x30 + d)"

fun natToString :: "nat \<Rightarrow> jsstring" where
  "natToString n =
     (if n < 10 then [digitChar n]
      else natToString (n div 10) @ [digitChar (n mod 10)])"

declare natToString.simps [simp del]

definition numberToString :: "int \<Rightarrow> jsstring" where
  "numberToString i = (if i < 0 then 0x2D # natToString (nat (- i)) else natToString (nat i))"

text \<open>
  A memory as the object \<open>JSON.stringify\<close> sees: the properties in the order of the
  object literal \<open>newMemory\<close>, without those whose value is \<open>undefined\<close>.
\<close>

definition memory_json :: "memory \<Rightarrow> json" where
  "memory_json m =
     JObject
       ([(asc ''id'', JNumber (numberToString (mem_id m))),
         (asc ''title'', JString (mem_title m)),
         (asc ''query'', JString (mem_query m)),
         (asc ''category'', JString (mem_category m)),
         (asc ''imageStyle'', JString (mem_imageStyle m))]
        @ (case mem_resultText m of
             None \<Rightarrow> []
           | Some t \<Rightarrow> [(asc ''resultText'', JString t)])
        @ (case mem_imageUrl m of
             None \<Rightarrow> []
           | Some u \<Rightarrow> [(asc ''imageUrl'', JString u)]))"

definition history_json :: "memory list \<Rightarrow> json" where
  "history_json h = JArray (map memory_json h)"

text \<open>
  The updater that \<open>handleSetTitle\<close> passes to \<open>setHistory\<close> (lines 410-418): the new
  memory goes to the head, the whole list is written, and a failure of the write is
  logged and otherwise ignored.
\<close>

definition appendMemory ::
  "memory \<Rightarrow> memory list \<times> localStorage \<Rightarrow> memory list \<times> localStorage" where
  "appendMemory newMemory hs =
     (let updatedHistory = newMemory # fst hs
      in (updatedHistory,
          case setItem (JSON_stringify (history_json updatedHistory)) (snd hs) of
            Inl e \<Rightarrow> snd hs
          | Inr st \<Rightarrow> st))"

text \<open>
  \<open>handleSetTitle\<close>, with the value of \<open>Date.now()\<close> as a parameter. A title of
  whitespace only does nothing.
\<close>

definition handleSetTitle ::
  "int \<Rightarrow> app_state \<times> localStorage \<Rightarrow> app_state \<times> localStorage" where
  "handleSetTitle now as =
     (let a = fst as in
      if trim (tempTitle a) = [] then as
      else
        let newTitle = trim (tempTitle a);
            newMemory =
              \<lparr>mem_id = now, mem_title = newTitle, mem_query = query a,
               mem_category = category a, mem_imageStyle = imageStyle a,
               mem_resultText = resultText a,
               mem_imageUrl = (case imageUrls a of [] \<Rightarrow> None | u # us \<Rightarrow> u)\<rparr>;
            hs = appendMemory newMemory (history a, snd as)
        in (a\<lparr>title := newTitle, isTitleSet := True, history := fst hs\<rparr>, snd hs))"

text \<open>
  The loading of the history when the component mounts (lines 171-180): the value
  that \<open>setHistory\<close> receives, if any, and the storage afterwards. Nothing is set when
  there is no entry or an empty one; an entry that does not parse is removed.
\<close>

definition loadHistory :: "localStorage \<Rightarrow> json option \<times> localStorage" where
  "loadHistory st =
     (case getItem st of
        None \<Rightarrow> (None, st)
      | Some savedHistory \<Rightarrow>
          if savedHistory = [] then (None, st)
          else
            (case JSON_parse savedHistory of
               Inl e \<Rightarrow> (None, removeItem st)
             | Inr v \<Rightarrow> (Some v, st)))"

text \<open>
  The values of the model that \<open>JSON.stringify\<close> prints and \<open>JSON.parse\<close> reads back:
  those whose numbers are integers.
\<close>

fun printable :: "json \<Rightarrow> bool" where
  "printable JNull = True"
| "printable (JBool b) = True"
| "printable (JNumber n) = (\<exists>i. n = numberToString i)"
| "printable (JString s) = True"
| "printable (JArray xs) = list_all printable xs"
| "printable (JObject ms) = list_all (\<lambda>m. printable (snd m)) ms"

text \<open>A text behind a value inside an array or an object, or the end of the text.\<close>

definition closes :: "jsstring \<Rightarrow> bool" where
  "closes r \<longleftrightarrow> r = [] \<or> hd r = 0x2C \<or> hd r = 0x5D \<or> hd r = 0x7D"

text \<open>The first character of a printed value: no whitespace and no closing bracket.\<close>

definition startsValue :: "jsstring \<Rightarrow> bool" where
  "startsValue s \<longleftrightarrow>
     (case s of [] \<Rightarrow> False
      | c # cs \<Rightarrow> \<not> isJSONWhitespace c \<and> c \<noteq> 0x5D \<and> c \<noteq> 0x7D)"

section \<open>Example data\<close>

text \<open>Two memories, and a storage with room for both.\<close>

definition memory_a :: memory where
  "memory_a =
     \<lparr>mem_id = 1, mem_title = asc ''A'', mem_query = asc ''misket'',
      mem_category = asc ''general'', mem_imageStyle = asc ''faded-photo'',
      mem_resultText = Some (asc ''a''), mem_imageUrl = Some (asc ''data:,'')\<rparr>"

definition memory_b :: memory where
  "memory_b =
     \<lparr>mem_id = 2, mem_title = asc ''B'', mem_query = asc ''kaset'',
      mem_category = asc ''general'', mem_imageStyle = asc ''faded-photo'',
      mem_resultText = Some (asc ''b''), mem_imageUrl = None\<rparr>"

text \<open>
  A run up to a generated text \<open>a\<close>: the query \<open>kaset\<close> is typed and the generation
  returns. The same for a text of four words. A run to the start of an utterance for a
  text that is a single space.
\<close>

definition run_a :: "event list" where
  "run_a = [SetQuery (asc ''kaset''), GenerateClick, GenerateDone (Some (asc ''a'')) []]"

definition run_words :: "event list" where
  "run_words =
     [SetQuery (asc ''kaset''), GenerateClick, GenerateDone (Some (asc ''a b c d'')) []]"

definition run_blank :: "event list" where
  "run_blank =
     [SetQuery (asc ''kaset''), GenerateClick, GenerateDone (Some (asc '' '')) [],
      PlayToggle, UtteranceStart]"

definition roomy_storage :: localStorage where
  "roomy_storage = \<lparr>item = None, capacity = 1000\<rparr>"

definition full_storage :: localStorage where
  "full_storage = \<lparr>item = None, capacity = 0\<rparr>"

definition titled_app :: app_state where
  "titled_app =
     initial_app\<lparr>tempTitle := asc '' Bayram '', query := asc ''misket'',
       resultText := Some (asc ''a'')\<rparr>"

text \<open>The shared data of the specification's example.\<close>

definition bayram :: sharedMemoryData where
  "bayram =
     \<lparr>sh_title = asc ''Bayram'', sh_query = asc ''misket'', sh_category = asc ''general'',
      sh_imageStyle = asc ''faded-photo'', sh_resultText = asc ''...''\<rparr>"

section \<open>Notions for the properties of the codec\<close>

text \<open>
  The sextets and the padding of which \<open>base64Encode\<close> composes its result.
\<close>

fun base64Sextets :: "nat list \<Rightarrow> nat list" where
  "base64Sextets [] = []"
| "base64Sextets [a] = [a div 4, a mod 4 * 16]"
| "base64Sextets [a, b] = [a div 4, a mod 4 * 16 + b div 16, b mod 16 * 4]"
| "base64Sextets (a # b # c # bs) =
     a div 4 # (a mod 4 * 16 + b div 16) # (b mod 16 * 4 + c div 64) # c mod 64
       # base64Sextets bs"

fun base64Padding :: "nat list \<Rightarrow> jsstring" where
  "base64Padding [] = []"
| "base64Padding [a] = [0x3D, 0x3D]"
| "base64Padding [a, b] = [0x3D]"
| "base64Padding (a # b # c # bs) = base64Padding bs"

text \<open>The characters of a base64 text, and strings that \<open>btoa\<close> accepts.\<close>

definition isBase64Text :: "jschar \<Rightarrow> bool" where
  "isBase64Text c \<longleftrightarrow> base64Value c \<noteq> None \<or> c = 0x3D"

definition latin1 :: "jsstring \<Rightarrow> bool" where
  "latin1 s \<longleftrightarrow> (\<forall>c \<in> set s. c \<le> 0xFF)"

definition latin1Data :: "sharedMemoryData \<Rightarrow> bool" where
  "latin1Data d \<longleftrightarrow>
     latin1 (sh_title d) \<and> latin1 (sh_query d) \<and> latin1 (sh_category d)
     \<and> latin1 (sh_imageStyle d) \<and> latin1 (sh_resultText d)"

section \<open>Properties of the segmenter\<close>

lemma matchAll_concat: "concat (matchAll s) = dropWhile isWhiteSpace s"
proof (induction s rule: matchAll.induct)
  case 1
  show ?case by simp
next
  case (2 c cs)
  show ?case
  proof (cases "isWhiteSpace c")
    case True
    then have "matchPart (c # cs) = None"
      by (simp add: matchPart_def)
    with 2 True show ?thesis by simp
  next
    case False
    define r where "r = dropWhile (\<lambda>c. \<not> isWhiteSpace c) cs"
    define w where "w = takeWhile (\<lambda>c. \<not> isWhiteSpace c) cs"
    have mp: "matchPart (c # cs) =
        Some ((c # w) @ takeWhile isWhiteSpace r, dropWhile isWhiteSpace r)"
      using False by (simp add: matchPart_def Let_def r_def w_def)
    have "concat (matchAll (c # cs)) =
        (c # w) @ takeWhile isWhiteSpace r @ concat (matchAll (dropWhile isWhiteSpace r))"
      using mp by simp
    also have "\<dots> = (c # w) @ takeWhile isWhiteSpace r @ dropWhile isWhiteSpace r"
      using 2(2) [OF mp refl] by simp
    also have "\<dots> = c # cs"
      by (simp add: r_def w_def)
    finally show ?thesis using False by simp
  qed
qed

text \<open>On a string \<open>textParts\<close> does not throw: its parts are all the matches.\<close>

lemma textParts_string: "textParts (Some (JString s)) = Inr (matchAll s)"
proof (cases s)
  case Nil
  then show ?thesis by (simp add: textParts_def truthy_def)
next
  case (Cons c cs)
  then show ?thesis
    by (cases "matchAll (c # cs)") (simp_all add: textParts_def truthy_def String_match_def)
qed

lemma textParts_undefined: "textParts None = Inr []"
  by (simp add: textParts_def truthy_def)

lemma textParts_concat:
  "\<exists>parts. textParts (Some (JString s)) = Inr parts
     \<and> concat parts = dropWhile isWhiteSpace s"
  by (simp add: textParts_string matchAll_concat)

lemma wordMap_from_length [simp]: "length (wordMap_from n parts) = length parts"
  by (induction parts arbitrary: n) simp_all

lemma wordMap_length [simp]: "length (wordMap parts) = length parts"
  by (simp add: wordMap_def)

lemma wordMap_Nil_iff [simp]: "wordMap parts = [] \<longleftrightarrow> parts = []"
  by (cases parts) (simp_all add: wordMap_def)

lemma wordMap_from_lower:
  "e \<in> set (wordMap_from n parts) \<Longrightarrow> n \<le> startIndex e"
proof (induction parts arbitrary: n)
  case Nil
  then show ?case by simp
next
  case (Cons p ps)
  from Cons.prems have "e = \<lparr>word = p, startIndex = n\<rparr>
      \<or> e \<in> set (wordMap_from (n + int (length p)) ps)"
    by simp
  then show ?case
  proof
    assume "e = \<lparr>word = p, startIndex = n\<rparr>"
    then show ?thesis by simp
  next
    assume "e \<in> set (wordMap_from (n + int (length p)) ps)"
    then have "n + int (length p) \<le> startIndex e" by (rule Cons.IH)
    then show ?thesis by simp
  qed
qed

lemma wordMap_from_sorted:
  "sorted (map startIndex (wordMap_from n parts))"
proof (induction parts arbitrary: n)
  case Nil
  show ?case by simp
next
  case (Cons p ps)
  have "\<forall>e \<in> set (wordMap_from (n + int (length p)) ps). n \<le> startIndex e"
    using wordMap_from_lower [of _ "n + int (length p)" ps] by fastforce
  with Cons.IH [of "n + int (length p)"] show ?case by simp
qed

lemma wordMap_sorted: "sorted (map startIndex (wordMap parts))"
  by (simp add: wordMap_def wordMap_from_sorted)

lemma textParts_reproduces:
  assumes "s \<noteq> []" "\<not> isWhiteSpace (hd s)"
  shows "\<exists>parts. textParts (Some (JString s)) = Inr parts \<and> concat parts = s"
  using assms
  by (cases s) (simp_all del: matchAll.simps add: textParts_string matchAll_concat)

lemma wordMap_from_startIndex:
  "i < length parts \<Longrightarrow>
     startIndex (wordMap_from n parts ! i) = n + int (length (concat (take i parts)))"
proof (induction parts arbitrary: n i)
  case Nil
  then show ?case by simp
next
  case (Cons p ps)
  show ?case
  proof (cases i)
    case 0
    then show ?thesis by simp
  next
    case (Suc j)
    with Cons.prems have "j < length ps" by simp
    then have "startIndex (wordMap_from (n + int (length p)) ps ! j)
        = n + int (length p) + int (length (concat (take j ps)))"
      by (rule Cons.IH)
    with Suc show ?thesis by simp
  qed
qed

text \<open>
  The start index of a part is the number of code units of the parts before it: its
  position in the concatenation of the parts, which is its position in the text
  exactly when the text does not begin with whitespace.
\<close>

lemma wordMap_startIndex:
  "i < length parts \<Longrightarrow>
     startIndex (wordMap parts ! i) = int (length (concat (take i parts)))"
  by (cases "parts = []") (simp_all add: wordMap_def wordMap_from_startIndex)

section \<open>Properties of the boundary scan\<close>

lemma boundaryLoop_takeWhile:
  "boundaryLoop wm c i cur =
     (let n = length (takeWhile (\<lambda>e. startIndex e \<le> c) (drop i wm))
      in if n = 0 then cur else int (i + n) - 1)"
proof (induction wm c i cur rule: boundaryLoop.induct)
  case (1 wm c i cur)
  show ?case
  proof (cases "i < length wm")
    case False
    then show ?thesis by (simp add: boundaryLoop.simps [of wm c i cur])
  next
    case True
    then have d: "drop i wm = wm ! i # drop (Suc i) wm"
      by (simp add: Cons_nth_drop_Suc)
    show ?thesis
    proof (cases "startIndex (wm ! i) \<le> c")
      case False
      with True d show ?thesis by (simp add: boundaryLoop.simps [of wm c i cur])
    next
      case le: True
      have "boundaryLoop wm c i cur = boundaryLoop wm c (Suc i) (int i)"
        using True le by (simp add: boundaryLoop.simps [of wm c i cur])
      also have "\<dots> =
          (let n = length (takeWhile (\<lambda>e. startIndex e \<le> c) (drop (Suc i) wm))
           in if n = 0 then int i else int (Suc i + n) - 1)"
        using "1.IH" [OF True le] .
      finally show ?thesis using le d by (simp add: Let_def)
    qed
  qed
qed

lemma currentWordIndex_takeWhile:
  "currentWordIndex wm c = int (length (takeWhile (\<lambda>e. startIndex e \<le> c) wm)) - 1"
  by (simp add: currentWordIndex_def boundaryLoop_takeWhile Let_def)

lemma takeWhile_length_mono:
  "(\<And>x. P x \<Longrightarrow> Q x) \<Longrightarrow> length (takeWhile P xs) \<le> length (takeWhile Q xs)"
  by (induction xs) auto

lemma currentWordIndex_mono:
  "c \<le> c' \<Longrightarrow> currentWordIndex wm c \<le> currentWordIndex wm c'"
proof -
  assume "c \<le> c'"
  then have "length (takeWhile (\<lambda>e. startIndex e \<le> c) wm)
      \<le> length (takeWhile (\<lambda>e. startIndex e \<le> c') wm)"
    by (intro takeWhile_length_mono) simp
  then show ?thesis by (simp add: currentWordIndex_takeWhile)
qed

lemma currentWordIndex_range:
  "- 1 \<le> currentWordIndex wm c \<and> currentWordIndex wm c < int (length wm)"
proof -
  have "length (takeWhile (\<lambda>e. startIndex e \<le> c) wm) \<le> length wm"
    by (rule length_takeWhile_le)
  then show ?thesis by (simp add: currentWordIndex_takeWhile)
qed

lemma currentWordIndex_start:
  assumes "currentWordIndex wm c \<noteq> - 1"
  shows "startIndex (wm ! nat (currentWordIndex wm c)) \<le> c"
proof -
  let ?P = "\<lambda>e. startIndex e \<le> c"
  let ?n = "length (takeWhile ?P wm)"
  from assms have pos: "0 < ?n" by (simp add: currentWordIndex_takeWhile)
  then have lt: "?n - 1 < ?n" by simp
  have "takeWhile ?P wm ! (?n - 1) \<in> set (takeWhile ?P wm)"
    using lt by (rule nth_mem)
  then have "?P (takeWhile ?P wm ! (?n - 1))"
    by (rule set_takeWhileD [THEN conjunct2])
  moreover have "takeWhile ?P wm ! (?n - 1) = wm ! (?n - 1)"
    using lt by (rule takeWhile_nth)
  moreover have "nat (currentWordIndex wm c) = ?n - 1"
    using pos by (simp add: currentWordIndex_takeWhile)
  ultimately show ?thesis by simp
qed

lemma currentWordIndex_none:
  assumes "\<forall>e \<in> set wm. c < startIndex e"
  shows "currentWordIndex wm c = - 1"
proof -
  have "takeWhile (\<lambda>e. startIndex e \<le> c) wm = []"
    using assms by (cases wm) auto
  then show ?thesis by (simp add: currentWordIndex_takeWhile)
qed

lemma currentWordIndex_last:
  assumes srt: "sorted (map startIndex wm)"
      and j: "nat (currentWordIndex wm c) < j" "j < length wm"
      and found: "currentWordIndex wm c \<noteq> - 1"
  shows "c < startIndex (wm ! j)"
proof -
  let ?P = "\<lambda>e. startIndex e \<le> c"
  let ?n = "length (takeWhile ?P wm)"
  from found have pos: "0 < ?n" by (simp add: currentWordIndex_takeWhile)
  then have n: "nat (currentWordIndex wm c) = ?n - 1"
    by (simp add: currentWordIndex_takeWhile)
  with j pos have nj: "?n \<le> j" by simp
  with j have nlt: "?n < length wm" by simp
  then have "\<not> ?P (wm ! ?n)" by (rule nth_length_takeWhile)
  moreover have "startIndex (wm ! ?n) \<le> startIndex (wm ! j)"
    using srt nj j(2) nlt by (simp add: sorted_iff_nth_mono)
  ultimately show ?thesis by simp
qed


lemma onboundary_lower: "0 \<le> hi \<Longrightarrow> 0 \<le> onboundary wm c hi"
  using currentWordIndex_range [of wm c] by (auto simp: onboundary_def Let_def)

lemma boundaryTrace_sorted_from:
  "sorted (c0 # cs) \<Longrightarrow> 0 \<le> h \<Longrightarrow> h = 0 \<or> h = currentWordIndex wm c0
     \<Longrightarrow> sorted (h # boundaryTrace wm h cs)"
proof (induction cs arbitrary: c0 h)
  case Nil
  show ?case by simp
next
  case (Cons c cs)
  let ?h = "onboundary wm c h"
  from Cons.prems(1) have le: "c0 \<le> c" and srt: "sorted (c # cs)"
    by simp_all
  have mono: "currentWordIndex wm c0 \<le> currentWordIndex wm c"
    using le by (rule currentWordIndex_mono)
  have h_le: "h \<le> ?h"
    using Cons.prems(2,3) mono currentWordIndex_range [of wm c]
    by (auto simp: onboundary_def Let_def)
  have nonneg: "0 \<le> ?h"
    using Cons.prems(2) by (rule onboundary_lower)
  have inv: "?h = 0 \<or> ?h = currentWordIndex wm c"
    using Cons.prems(2,3) mono currentWordIndex_range [of wm c0]
    by (auto simp: onboundary_def Let_def)
  have "sorted (?h # boundaryTrace wm ?h cs)"
    using srt nonneg inv by (rule Cons.IH)
  with h_le show ?case by auto
qed

lemma boundaryTrace_sorted:
  assumes "sorted cs"
  shows "sorted (0 # boundaryTrace wm 0 cs)"
proof (cases cs)
  case Nil
  then show ?thesis by simp
next
  case (Cons c cs')
  let ?h = "onboundary wm c 0"
  have nonneg: "0 \<le> ?h" by (rule onboundary_lower) simp
  have inv: "?h = 0 \<or> ?h = currentWordIndex wm c"
    by (auto simp: onboundary_def Let_def)
  have "sorted (?h # boundaryTrace wm ?h cs')"
    using assms nonneg inv unfolding Cons by (rule boundaryTrace_sorted_from)
  with nonneg show ?thesis unfolding Cons by auto
qed

lemma currentWordIndex_map_sorted:
  "sorted cs \<Longrightarrow> sorted (map (currentWordIndex wm) cs)"
  by (induction cs) (auto intro: currentWordIndex_mono)

text \<open>
  Where the parts concatenate to the text, the start index of a part is the offset at
  which the part stands in the text.
\<close>

lemma wordMap_offset:
  assumes "concat parts = text" "i < length parts"
  shows "take (length (parts ! i)) (drop (nat (startIndex (wordMap parts ! i))) text)
      = parts ! i"
proof -
  have "parts = take i parts @ parts ! i # drop (Suc i) parts"
    using assms(2) by (simp add: id_take_nth_drop [symmetric])
  then have "concat parts
      = concat (take i parts) @ parts ! i @ concat (drop (Suc i) parts)"
    by (metis concat.simps(2) concat_append)
  then have "drop (length (concat (take i parts))) text
      = parts ! i @ concat (drop (Suc i) parts)"
    using assms(1) by simp
  then show ?thesis
    using assms(2) by (simp add: wordMap_startIndex)
qed

lemma matchAll_nonempty:
  assumes "s \<noteq> []" "\<not> isWhiteSpace (hd s)"
  shows "matchAll s \<noteq> []"
proof -
  from assms obtain c cs where s: "s = c # cs" and c: "\<not> isWhiteSpace c"
    by (cases s) auto
  then have "matchPart (c # cs) \<noteq> None"
    by (simp add: matchPart_def Let_def)
  then show ?thesis
    unfolding s by (auto split: option.splits)
qed

lemma currentWordIndex_found:
  assumes "parts \<noteq> []" "0 \<le> c"
  shows "currentWordIndex (wordMap parts) c \<noteq> - 1"
proof -
  from assms(1) obtain p ps where "parts = p # ps"
    by (cases parts) auto
  then have "takeWhile (\<lambda>e. startIndex e \<le> c) (wordMap parts) \<noteq> []"
    using assms(2) by (simp add: wordMap_def)
  then show ?thesis
    by (simp add: currentWordIndex_takeWhile)
qed

lemma boundaryTrace_scan:
  assumes "\<forall>c \<in> set cs. currentWordIndex wm c \<noteq> - 1"
  shows "boundaryTrace wm hi cs = map (currentWordIndex wm) cs"
  using assms by (induction cs arbitrary: hi) (simp_all add: onboundary_def)

text \<open>
  The highlighting of a text that does not begin with whitespace, for boundary events
  with strictly increasing offsets into the text. The index that the handler sets at
  each event is the result of the scan; along the events it does not decrease; its
  part stands in the text at its start index, which is at or before the reported
  offset; and every later part starts behind the offset.
\<close>

lemma boundary_highlight_monotone:
  assumes lead: "text \<noteq> []" "\<not> isWhiteSpace (hd text)"
    and parts: "textParts (Some (JString text)) = Inr parts"
    and cs: "sorted_wrt (<) cs" "\<forall>c \<in> set cs. 0 \<le> c"
  shows "boundaryTrace (wordMap parts) hi cs = map (currentWordIndex (wordMap parts)) cs"
    and "sorted (boundaryTrace (wordMap parts) hi cs)"
    and "\<forall>c \<in> set cs.
           0 \<le> currentWordIndex (wordMap parts) c
           \<and> nat (currentWordIndex (wordMap parts) c) < length parts
           \<and> startIndex (wordMap parts ! nat (currentWordIndex (wordMap parts) c)) \<le> c
           \<and> take (length (parts ! nat (currentWordIndex (wordMap parts) c)))
                (drop (nat (startIndex
                   (wordMap parts ! nat (currentWordIndex (wordMap parts) c)))) text)
               = parts ! nat (currentWordIndex (wordMap parts) c)
           \<and> (\<forall>j. nat (currentWordIndex (wordMap parts) c) < j \<and> j < length parts
                  \<longrightarrow> c < startIndex (wordMap parts ! j))"
proof -
  let ?wm = "wordMap parts"
  from parts have p: "parts = matchAll text"
    by (simp add: textParts_string)
  have ne: "parts \<noteq> []"
    unfolding p using lead by (rule matchAll_nonempty)
  have whole: "concat parts = text"
    unfolding p using lead by (cases "text") (simp_all del: matchAll.simps add: matchAll_concat)
  have found: "\<forall>c \<in> set cs. currentWordIndex ?wm c \<noteq> - 1"
    using ne cs(2) by (simp add: currentWordIndex_found)
  show trace: "boundaryTrace ?wm hi cs = map (currentWordIndex ?wm) cs"
    using found by (rule boundaryTrace_scan)
  from cs(1) have "sorted cs"
    by (rule strict_sorted_imp_sorted)
  then show "sorted (boundaryTrace ?wm hi cs)"
    unfolding trace by (rule currentWordIndex_map_sorted)
  show "\<forall>c \<in> set cs.
           0 \<le> currentWordIndex ?wm c
           \<and> nat (currentWordIndex ?wm c) < length parts
           \<and> startIndex (?wm ! nat (currentWordIndex ?wm c)) \<le> c
           \<and> take (length (parts ! nat (currentWordIndex ?wm c)))
                (drop (nat (startIndex (?wm ! nat (currentWordIndex ?wm c)))) text)
               = parts ! nat (currentWordIndex ?wm c)
           \<and> (\<forall>j. nat (currentWordIndex ?wm c) < j \<and> j < length parts
                  \<longrightarrow> c < startIndex (?wm ! j))"
  proof
    fix c
    assume "c \<in> set cs"
    with found have f: "currentWordIndex ?wm c \<noteq> - 1" by simp
    have r: "0 \<le> currentWordIndex ?wm c" "nat (currentWordIndex ?wm c) < length parts"
      using f currentWordIndex_range [of ?wm c] by auto
    have s: "startIndex (?wm ! nat (currentWordIndex ?wm c)) \<le> c"
      using f by (rule currentWordIndex_start)
    have o: "take (length (parts ! nat (currentWordIndex ?wm c)))
        (drop (nat (startIndex (?wm ! nat (currentWordIndex ?wm c)))) text)
        = parts ! nat (currentWordIndex ?wm c)"
      using whole r(2) by (rule wordMap_offset)
    have l: "c < startIndex (?wm ! j)"
      if "nat (currentWordIndex ?wm c) < j \<and> j < length parts" for j
      using currentWordIndex_last [OF wordMap_sorted, of parts c j] that f by simp
    from r s o l show "0 \<le> currentWordIndex ?wm c
           \<and> nat (currentWordIndex ?wm c) < length parts
           \<and> startIndex (?wm ! nat (currentWordIndex ?wm c)) \<le> c
           \<and> take (length (parts ! nat (currentWordIndex ?wm c)))
                (drop (nat (startIndex (?wm ! nat (currentWordIndex ?wm c)))) text)
               = parts ! nat (currentWordIndex ?wm c)
           \<and> (\<forall>j. nat (currentWordIndex ?wm c) < j \<and> j < length parts
                  \<longrightarrow> c < startIndex (?wm ! j))"
      by blast
  qed
qed

section \<open>The claims on segmentation and highlighting\<close>

text \<open>
  C1 (concatenating the parts of \<open>textParts\<close> reproduces every non-empty string). The
  code differs at a string that begins with whitespace, which the pattern never
  matches: for the two code units SPACE, \<open>a\<close> the only part is \<open>a\<close>, so the
  concatenation of the parts is not the input, and \<open>wordMap\<close> gives the part the start
  index 0 although it stands at index 1 of \<open>resultText\<close>; for a single space there is
  no part at all. In general the parts concatenate to the text without its leading
  whitespace (\<open>textParts_concat\<close>).
\<close>

theorem textParts_leading_whitespace:
  "textParts (Some (JString (asc '' a''))) = Inr [asc ''a'']
   \<and> concat [asc ''a''] \<noteq> asc '' a''
   \<and> wordMap [asc ''a''] = [\<lparr>word = asc ''a'', startIndex = 0\<rparr>]
   \<and> textParts (Some (JString (asc '' ''))) = Inr []
   \<and> concat ([] :: jsstring list) \<noteq> asc '' ''"
  by (simp add: textParts_def truthy_def String_match_def matchPart_def wordMap_def
      asc_def isWhiteSpace_def)

text \<open>
  C4 (the highlighted span is the last one that starts at or before the reported
  offset). The code differs at a text that begins with whitespace, by the defect of
  C1: \<open>wordMap\<close> counts the start indices from the first part, not from the start of
  the text. For the text of three spaces, \<open>a\<close>, a space and \<open>b\<close> the parts are \<open>a\<close>
  with its space and \<open>b\<close>, which stand at the offsets 3 and 5 of the text and get the
  start indices 0 and 2. At the boundary events of the two words, with the offsets 3
  and 5, the handler highlights the index 1 both times: at the offset 3 it highlights
  \<open>b\<close>, which starts behind the offset, where the last span that starts at or before
  the offset is \<open>a\<close>, the index 0. At the offset 0, which precedes both spans, the
  scan finds the index 0.
\<close>

theorem boundary_highlight_leading_whitespace:
  "textParts (Some (JString (asc ''   a b''))) = Inr [asc ''a '', asc ''b'']
   \<and> wordMap [asc ''a '', asc ''b'']
       = [\<lparr>word = asc ''a '', startIndex = 0\<rparr>, \<lparr>word = asc ''b'', startIndex = 2\<rparr>]
   \<and> take 2 (drop 3 (asc ''   a b'')) = asc ''a ''
   \<and> take 1 (drop 5 (asc ''   a b'')) = asc ''b''
   \<and> currentWordIndex (wordMap [asc ''a '', asc ''b'']) 3 = 1
   \<and> onboundary (wordMap [asc ''a '', asc ''b'']) 3 0 = 1
   \<and> boundaryTrace (wordMap [asc ''a '', asc ''b'']) 0 [3, 5] = [1, 1]
   \<and> currentWordIndex (wordMap [asc ''a '', asc ''b'']) 0 = 0"
  by (simp add: textParts_def truthy_def String_match_def matchPart_def wordMap_def
      asc_def isWhiteSpace_def onboundary_def currentWordIndex_takeWhile)

section \<open>The claims on the prompt builder\<close>

lemma baseTextPrompt_nonempty: "baseTextPrompt userQuery \<noteq> []"
  by (simp add: baseTextPrompt_def baseTextPrompt_head_def asc_def)

lemma baseImagePrompt_nonempty: "baseImagePrompt userQuery \<noteq> []"
  by (simp add: baseImagePrompt_def baseImagePrompt_head_def asc_def)

lemma switch_textPrompt_tone:
  "switch_textPrompt selectedCategory baseText = baseText @ toneClause selectedCategory"
  by (simp add: switch_textPrompt_def toneClause_def)

lemma switch_imageCategory_clause:
  "switch_imageCategory selectedCategory imagePrompt0
     = imagePrompt0 @ categoryClause selectedCategory"
  by (simp add: switch_imageCategory_def categoryClause_def)

lemma switch_imageStyle_clause:
  "switch_imageStyle selectedStyle imagePrompt1 = imagePrompt1 @ styleClause selectedStyle"
  by (simp add: switch_imageStyle_def styleClause_def)

lemma toneClause_unlisted:
  "selectedCategory \<notin> set categories \<Longrightarrow> toneClause selectedCategory = tone_general"
  by (simp add: toneClause_def categories_def)

lemma categoryClause_unlisted:
  "selectedCategory \<notin> set categories \<Longrightarrow> categoryClause selectedCategory = []"
  by (simp add: categoryClause_def categories_def)

lemma styleClause_unlisted:
  "selectedStyle \<notin> set styles \<Longrightarrow> styleClause selectedStyle = render_faded_photo"
  by (simp add: styleClause_def styles_def)

lemma clauses_general:
  "toneClause (asc ''general'') = tone_general" "categoryClause (asc ''general'') = []"
  "styleClause (asc ''faded-photo'') = render_faded_photo"
  by (simp_all add: toneClause_def categoryClause_def styleClause_def asc_def)

lemma getPrompts_clauses:
  "getPrompts selectedCategory userQuery selectedStyle =
     \<lparr>textPrompt = baseTextPrompt userQuery @ toneClause selectedCategory,
      imagePrompt = baseImagePrompt userQuery @ categoryClause selectedCategory
                      @ styleClause selectedStyle\<rparr>"
  by (simp add: getPrompts_def switch_textPrompt_tone switch_imageCategory_clause
      switch_imageStyle_clause)

text \<open>
  C7: \<open>getPrompts\<close> has no failing branch and returns prompts for all strings. A category
  outside the catalogue gives what \<open>'general'\<close> gives, a style outside the catalogue
  what \<open>'faded-photo'\<close> gives: the narrative prompt closes with the general sentence,
  the image prompt with the faded photograph sentence. For a non-empty query (and for
  the empty one as well) neither prompt is empty.
\<close>

theorem getPrompts_fallback_nonempty:
  "(selectedCategory \<notin> set categories \<longrightarrow>
      getPrompts selectedCategory userQuery selectedStyle
        = getPrompts (asc ''general'') userQuery selectedStyle
      \<and> textPrompt (getPrompts selectedCategory userQuery selectedStyle)
        = baseTextPrompt userQuery @ tone_general)
   \<and> (selectedStyle \<notin> set styles \<longrightarrow>
      getPrompts selectedCategory userQuery selectedStyle
        = getPrompts selectedCategory userQuery (asc ''faded-photo'')
      \<and> imagePrompt (getPrompts selectedCategory userQuery selectedStyle)
        = switch_imageCategory selectedCategory (baseImagePrompt userQuery)
            @ render_faded_photo)
   \<and> (userQuery \<noteq> [] \<longrightarrow>
      textPrompt (getPrompts selectedCategory userQuery selectedStyle) \<noteq> []
      \<and> imagePrompt (getPrompts selectedCategory userQuery selectedStyle) \<noteq> [])"
proof (intro conjI impI)
  assume c: "selectedCategory \<notin> set categories"
  show "getPrompts selectedCategory userQuery selectedStyle
      = getPrompts (asc ''general'') userQuery selectedStyle"
    by (simp add: getPrompts_clauses toneClause_unlisted [OF c]
        categoryClause_unlisted [OF c] clauses_general)
  show "textPrompt (getPrompts selectedCategory userQuery selectedStyle)
      = baseTextPrompt userQuery @ tone_general"
    by (simp add: getPrompts_clauses toneClause_unlisted [OF c])
next
  assume s: "selectedStyle \<notin> set styles"
  show "getPrompts selectedCategory userQuery selectedStyle
      = getPrompts selectedCategory userQuery (asc ''faded-photo'')"
    by (simp add: getPrompts_clauses styleClause_unlisted [OF s] clauses_general)
  show "imagePrompt (getPrompts selectedCategory userQuery selectedStyle)
      = switch_imageCategory selectedCategory (baseImagePrompt userQuery)
          @ render_faded_photo"
    by (simp add: getPrompts_clauses switch_imageCategory_clause
        styleClause_unlisted [OF s])
next
  show "textPrompt (getPrompts selectedCategory userQuery selectedStyle) \<noteq> []"
    by (simp add: getPrompts_clauses baseTextPrompt_nonempty)
  show "imagePrompt (getPrompts selectedCategory userQuery selectedStyle) \<noteq> []"
    by (simp add: getPrompts_clauses baseImagePrompt_nonempty)
qed

theorem getPrompts_fallback_nonempty_witness:
  "asc ''western'' \<notin> set categories \<and> asc ''mosaic'' \<notin> set styles \<and> asc ''kaset'' \<noteq> []
   \<and> getPrompts (asc ''western'') (asc ''kaset'') (asc ''mosaic'')
       = getPrompts (asc ''general'') (asc ''kaset'') (asc ''mosaic'')
   \<and> getPrompts (asc ''western'') (asc ''kaset'') (asc ''mosaic'')
       = getPrompts (asc ''western'') (asc ''kaset'') (asc ''faded-photo'')
   \<and> textPrompt (getPrompts (asc ''western'') (asc ''kaset'') (asc ''mosaic''))
       = baseTextPrompt (asc ''kaset'') @ tone_general
   \<and> imagePrompt (getPrompts (asc ''western'') (asc ''kaset'') (asc ''mosaic''))
       = switch_imageCategory (asc ''western'') (baseImagePrompt (asc ''kaset''))
           @ render_faded_photo
   \<and> textPrompt (getPrompts (asc ''western'') (asc ''kaset'') (asc ''mosaic'')) \<noteq> []
   \<and> imagePrompt (getPrompts (asc ''western'') (asc ''kaset'') (asc ''mosaic'')) \<noteq> []"
proof -
  have c: "asc ''western'' \<notin> set categories"
    by (simp add: categories_def asc_def)
  have s: "asc ''mosaic'' \<notin> set styles"
    by (simp add: styles_def asc_def)
  have q: "asc ''kaset'' \<noteq> []"
    by (simp add: asc_def)
  from c s q
    getPrompts_fallback_nonempty [of "asc ''western''" "asc ''kaset''" "asc ''mosaic''"]
  show ?thesis by blast
qed

text \<open>
  C8: for every category, query and style the image prompt is the base clause, then
  the clause of the category (none for \<open>'general'\<close> and unlisted categories), then the
  clause of the style; the narrative prompt is the base instruction, then the tone
  clause of the category. For \<open>'general'\<close>, \<open>'faded-photo'\<close> and the query
  \<open>misket, leblebi tozu\<close> the narrative prompt contains the query and ends with the
  general tone clause, and the image prompt ends with the faded photograph clause.
\<close>

theorem getPrompts_composition:
  "imagePrompt (getPrompts selectedCategory userQuery selectedStyle)
     = baseImagePrompt userQuery @ categoryClause selectedCategory
         @ styleClause selectedStyle
   \<and> textPrompt (getPrompts selectedCategory userQuery selectedStyle)
     = baseTextPrompt userQuery @ toneClause selectedCategory
   \<and> sublist (asc ''misket, leblebi tozu'')
       (textPrompt (getPrompts (asc ''general'') (asc ''misket, leblebi tozu'')
          (asc ''faded-photo'')))
   \<and> suffix tone_general
       (textPrompt (getPrompts (asc ''general'') (asc ''misket, leblebi tozu'')
          (asc ''faded-photo'')))
   \<and> suffix render_faded_photo
       (imagePrompt (getPrompts (asc ''general'') (asc ''misket, leblebi tozu'')
          (asc ''faded-photo'')))"
proof -
  let ?q = "asc ''misket, leblebi tozu''"
  let ?p = "getPrompts (asc ''general'') ?q (asc ''faded-photo'')"
  have t: "textPrompt ?p = baseTextPrompt ?q @ tone_general"
    by (simp add: getPrompts_clauses clauses_general)
  have i: "imagePrompt ?p = baseImagePrompt ?q @ render_faded_photo"
    by (simp add: getPrompts_clauses clauses_general)
  have "baseTextPrompt ?q @ tone_general
      = baseTextPrompt_head @ ?q @ (baseTextPrompt_tail @ tone_general)"
    by (simp add: baseTextPrompt_def)
  then have "sublist ?q (textPrompt ?p)"
    unfolding t sublist_def by blast
  moreover have "suffix tone_general (textPrompt ?p)"
    unfolding t by (rule suffix_appendI) simp
  moreover have "suffix render_faded_photo (imagePrompt ?p)"
    unfolding i by (rule suffix_appendI) simp
  ultimately show ?thesis by (simp add: getPrompts_clauses)
qed

section \<open>Properties of the playback state machine\<close>

lemma onboundary_index_ok:
  "hi = - 1 \<or> index_ok wm hi \<Longrightarrow>
     onboundary wm c hi = - 1 \<or> index_ok wm (onboundary wm c hi)"
  using currentWordIndex_range [of wm c]
  by (auto simp: onboundary_def index_ok_def Let_def)

lemma playback_inv_initial: "playback_inv (initial_world pc)"
  by (simp add: playback_inv_def initial_world_def initial_synth_def initial_app_def)

lemma playback_inv_toggle: "playback_inv w \<Longrightarrow> playback_inv (handlePlayToggle w)"
  by (auto simp: playback_inv_def handlePlayToggle_def pause_def resume_def speak_def
      cancel_def made_by_toggle_def textValue_def textParts_string split: option.splits)

lemma playback_inv_load: "playback_inv w \<Longrightarrow> playback_inv (loadMemoryFromHistory m w)"
  by (auto simp: playback_inv_def loadMemoryFromHistory_def cancelIfSpeaking_def
      cancel_def speaking_def)

lemma playback_inv_startNew: "playback_inv w \<Longrightarrow> playback_inv (handleStartNew w)"
  by (auto simp: playback_inv_def handleStartNew_def cancelIfSpeaking_def
      cancel_def speaking_def)

lemma playback_inv_generate_begin:
  "playback_inv w \<Longrightarrow> playback_inv (handleGenerate_begin w)"
  using playback_inv_startNew [of w]
  by (auto simp: handleGenerate_begin_def Let_def playback_inv_def)

lemma playback_inv_step: "playback_inv w \<Longrightarrow> playback_inv (step e w)"
proof (cases e)
  case PlayToggle
  assume "playback_inv w"
  then show ?thesis unfolding PlayToggle by (simp add: playback_inv_toggle)
next
  case (LoadMemory m)
  assume "playback_inv w"
  then show ?thesis unfolding LoadMemory by (simp add: playback_inv_load)
next
  case StartNew
  assume "playback_inv w"
  then show ?thesis unfolding StartNew by (simp add: playback_inv_startNew)
next
  case GenerateClick
  assume "playback_inv w"
  then show ?thesis unfolding GenerateClick by (simp add: playback_inv_generate_begin)
next
  case (UtteranceBoundary c)
  assume a: "playback_inv w"
  show ?thesis
  proof (cases "queue (synth w) \<noteq> [] \<and> begun (synth w)")
    case False
    with a show ?thesis unfolding UtteranceBoundary by (auto split: list.splits)
  next
    case True
    then obtain u us where q: "queue (synth w) = u # us"
      by (cases "queue (synth w)") auto
    from a q True have "highlightedWordIndex (ui w) = - 1
        \<or> index_ok (boundaryMap u) (highlightedWordIndex (ui w))"
      by (auto simp: playback_inv_def)
    then have "onboundary (boundaryMap u) c (highlightedWordIndex (ui w)) = - 1
        \<or> index_ok (boundaryMap u) (onboundary (boundaryMap u) c (highlightedWordIndex (ui w)))"
      by (rule onboundary_index_ok)
    with a q True show ?thesis unfolding UtteranceBoundary
      by (auto simp: playback_inv_def)
  qed
qed (auto simp: playback_inv_def handleGenerate_done_def handleGenerate_failed_def
      onstart_def onend_def onerror_def index_ok_def made_by_toggle_def
      split: list.splits)

lemma playback_inv_run: "playback_inv w \<Longrightarrow> playback_inv (run es w)"
  by (induction es arbitrary: w) (simp_all add: playback_inv_step)

text \<open>No handler and no event changes how the engine counts a pending utterance.\<close>

lemma pendingCounts_step: "pendingCounts (synth (step e w)) = pendingCounts (synth w)"
  by (cases e)
    (simp_all add: handlePlayToggle_def pause_def resume_def speak_def cancel_def
      loadMemoryFromHistory_def handleStartNew_def cancelIfSpeaking_def
      handleGenerate_begin_def handleGenerate_done_def handleGenerate_failed_def
      Let_def textValue_def textParts_string split: option.splits list.splits)

lemma pendingCounts_run: "pendingCounts (synth (run es w)) = pendingCounts (synth w)"
  by (induction es arbitrary: w) (simp_all add: pendingCounts_step)

lemma toggle_starts_single:
  assumes "resultText (ui w) = Some t" "t \<noteq> []" "\<not> isSpeaking (ui w)"
  shows "synth (handlePlayToggle w)
      = (synth w)\<lparr>queue := [\<lparr>utext = t, boundaryMap = wordMap (matchAll t)\<rparr>],
          begun := False, cancelled := cancelled (synth w) @ queue (synth w)\<rparr>"
  using assms
  by (simp add: handlePlayToggle_def speak_def cancel_def textValue_def textParts_string)

lemma toggle_pause_resume_queue:
  "isSpeaking (ui w) \<Longrightarrow> queue (synth (handlePlayToggle w)) = queue (synth w)"
  by (simp add: handlePlayToggle_def pause_def resume_def split: option.splits)

lemma load_then_toggle:
  assumes "mem_resultText m = Some t" "t \<noteq> []"
  shows "queue (synth (handlePlayToggle (loadMemoryFromHistory m w)))
      = [\<lparr>utext = t, boundaryMap = wordMap (matchAll t)\<rparr>]"
proof -
  have "synth (handlePlayToggle (loadMemoryFromHistory m w))
      = (synth (loadMemoryFromHistory m w))
          \<lparr>queue := [\<lparr>utext = t, boundaryMap = wordMap (matchAll t)\<rparr>],
           begun := False,
           cancelled := cancelled (synth (loadMemoryFromHistory m w))
             @ queue (synth (loadMemoryFromHistory m w))\<rparr>"
    by (rule toggle_starts_single) (simp_all add: loadMemoryFromHistory_def assms)
  then show ?thesis by simp
qed

lemma unmount_speaking:
  "speaking (synth w) \<Longrightarrow>
     queue (synth (unmountCleanup w)) = []
     \<and> cancelled (synth (unmountCleanup w)) = cancelled (synth w) @ queue (synth w)"
  by (simp add: unmountCleanup_def cancelIfSpeaking_def cancel_def)

lemma unmount_begun:
  assumes "playback_inv w" "begun (synth w)"
  shows "queue (synth (unmountCleanup w)) = []"
proof -
  from assms have "speaking (synth w)"
    by (auto simp: playback_inv_def speaking_def)
  then show ?thesis by (simp add: unmount_speaking)
qed

lemma unmount_pendingCounts:
  assumes "pendingCounts (synth w)"
  shows "queue (synth (unmountCleanup w)) = []"
  using assms
  by (cases "queue (synth w) = []")
    (simp_all add: unmountCleanup_def cancelIfSpeaking_def cancel_def speaking_def)

text \<open>
  The queue of the engine along the runs of the component from its initial state: it
  never holds more than one utterance. Whenever \<open>handlePlayToggle\<close> starts playback
  (the text is not empty and the component is not in its speaking state) it cancels
  first: whatever the engine held, spoken, paused or pending, goes to the cancelled
  utterances, and the queue afterwards holds exactly the new utterance, which has not
  begun. While the component is in its speaking state the toggle pauses or resumes and
  adds nothing. Starting with one text, loading another text \<open>B\<close> and starting again
  leaves exactly the utterance for \<open>B\<close>. The cleanup of the unmounted component
  cancels whenever the engine reports \<open>speaking\<close>, and the queue is empty afterwards:
  so it is in every run for an utterance that has begun, and for every utterance on an
  engine that counts a pending utterance as speaking.
\<close>

lemma single_utterance_in_flight:
  "length (queue (synth (run es (initial_world pc)))) \<le> 1
   \<and> (resultText (ui w) = Some t \<and> t \<noteq> [] \<and> \<not> isSpeaking (ui w) \<longrightarrow>
        (\<exists>parts. textParts (Some (JString t)) = Inr parts
           \<and> queue (synth (handlePlayToggle w))
               = [\<lparr>utext = t, boundaryMap = wordMap parts\<rparr>])
        \<and> cancelled (synth (handlePlayToggle w)) = cancelled (synth w) @ queue (synth w)
        \<and> \<not> begun (synth (handlePlayToggle w)))
   \<and> (isSpeaking (ui w) \<longrightarrow> queue (synth (handlePlayToggle w)) = queue (synth w))
   \<and> (mem_resultText m = Some t' \<and> t' \<noteq> [] \<longrightarrow>
        (\<exists>parts. textParts (Some (JString t')) = Inr parts
           \<and> queue (synth (handlePlayToggle (loadMemoryFromHistory m (handlePlayToggle w))))
               = [\<lparr>utext = t', boundaryMap = wordMap parts\<rparr>]))
   \<and> (speaking (synth w) \<longrightarrow>
        queue (synth (unmountCleanup w)) = []
        \<and> cancelled (synth (unmountCleanup w)) = cancelled (synth w) @ queue (synth w))
   \<and> (begun (synth (run es (initial_world pc))) \<longrightarrow>
        queue (synth (unmountCleanup (run es (initial_world pc)))) = [])
   \<and> (pc \<longrightarrow> queue (synth (unmountCleanup (run es (initial_world pc)))) = [])"
proof -
  let ?w = "run es (initial_world pc)"
  have inv: "playback_inv ?w"
    by (rule playback_inv_run) (rule playback_inv_initial)
  then have one: "length (queue (synth ?w)) \<le> 1"
    by (simp add: playback_inv_def)
  have start: "(\<exists>parts. textParts (Some (JString t)) = Inr parts
           \<and> queue (synth (handlePlayToggle w))
               = [\<lparr>utext = t, boundaryMap = wordMap parts\<rparr>])
        \<and> cancelled (synth (handlePlayToggle w)) = cancelled (synth w) @ queue (synth w)
        \<and> \<not> begun (synth (handlePlayToggle w))"
    if "resultText (ui w) = Some t \<and> t \<noteq> [] \<and> \<not> isSpeaking (ui w)"
    using toggle_starts_single [of w t] that by (simp add: textParts_string)
  have again: "\<exists>parts. textParts (Some (JString t')) = Inr parts
           \<and> queue (synth (handlePlayToggle (loadMemoryFromHistory m (handlePlayToggle w))))
               = [\<lparr>utext = t', boundaryMap = wordMap parts\<rparr>]"
    if "mem_resultText m = Some t' \<and> t' \<noteq> []"
    using load_then_toggle [of m t' "handlePlayToggle w"] that
    by (simp add: textParts_string)
  have spoken: "queue (synth (unmountCleanup ?w)) = []" if "begun (synth ?w)"
    using inv that by (rule unmount_begun)
  have "pendingCounts (synth ?w) = pc"
    by (simp add: pendingCounts_run initial_world_def initial_synth_def)
  then have counted: "queue (synth (unmountCleanup ?w)) = []" if pc
    using that unmount_pendingCounts [of ?w] by simp
  from one start again spoken counted toggle_pause_resume_queue [of w]
    unmount_speaking [of w]
  show ?thesis by blast
qed

lemma run_a_state:
  "resultText (ui (run run_a (initial_world False))) = Some (asc ''a'')"
  "\<not> isSpeaking (ui (run run_a (initial_world False)))"
  "queue (synth (run run_a (initial_world False))) = []"
  by (simp_all add: run_a_def initial_world_def initial_app_def initial_synth_def
      handleGenerate_begin_def handleGenerate_done_def handleStartNew_def
      cancelIfSpeaking_def speaking_def trim_def isWhiteSpace_def asc_def Let_def)

lemma run_a_spoken:
  "synth (run (run_a @ [PlayToggle, UtteranceStart]) (initial_world False))
     = \<lparr>queue = [\<lparr>utext = asc ''a'', boundaryMap = [\<lparr>word = asc ''a'', startIndex = 0\<rparr>]\<rparr>],
        begun = True, paused = False, cancelled = [], pendingCounts = False\<rparr>"
  by (simp add: run_a_def initial_world_def initial_app_def initial_synth_def
      handleGenerate_begin_def handleGenerate_done_def handleStartNew_def
      handlePlayToggle_def speak_def cancel_def onstart_def
      cancelIfSpeaking_def speaking_def trim_def isWhiteSpace_def asc_def Let_def
      textValue_def textParts_def truthy_def String_match_def matchPart_def wordMap_def)

lemma single_utterance_in_flight_examples:
  "resultText (ui (run run_a (initial_world False))) = Some (asc ''a'')
   \<and> asc ''a'' \<noteq> [] \<and> \<not> isSpeaking (ui (run run_a (initial_world False)))
   \<and> mem_resultText memory_b = Some (asc ''b'') \<and> asc ''b'' \<noteq> []
   \<and> length (queue (synth (run (run_a @ [PlayToggle, UtteranceStart, LoadMemory memory_b,
         PlayToggle]) (initial_world False)))) \<le> 1
   \<and> (\<exists>parts. textParts (Some (JString (asc ''a''))) = Inr parts
        \<and> queue (synth (handlePlayToggle (run run_a (initial_world False))))
            = [\<lparr>utext = asc ''a'', boundaryMap = wordMap parts\<rparr>])
   \<and> (\<exists>parts. textParts (Some (JString (asc ''b''))) = Inr parts
        \<and> queue (synth (handlePlayToggle (loadMemoryFromHistory memory_b
              (handlePlayToggle (run run_a (initial_world False))))))
            = [\<lparr>utext = asc ''b'', boundaryMap = wordMap parts\<rparr>])
   \<and> speaking (synth (run (run_a @ [PlayToggle, UtteranceStart]) (initial_world False)))
   \<and> begun (synth (run (run_a @ [PlayToggle, UtteranceStart]) (initial_world False)))
   \<and> queue (synth (run (run_a @ [PlayToggle, UtteranceStart]) (initial_world False))) \<noteq> []
   \<and> queue (synth (unmountCleanup
        (run (run_a @ [PlayToggle, UtteranceStart]) (initial_world False)))) = []
   \<and> cancelled (synth (unmountCleanup
        (run (run_a @ [PlayToggle, UtteranceStart]) (initial_world False))))
       = queue (synth (run (run_a @ [PlayToggle, UtteranceStart]) (initial_world False)))
   \<and> queue (synth (unmountCleanup (run (run_a @ [PlayToggle]) (initial_world True)))) = []"
proof -
  have a: "asc ''a'' \<noteq> []" by (simp add: asc_def)
  have b: "mem_resultText memory_b = Some (asc ''b'')" "asc ''b'' \<noteq> []"
    by (simp_all add: memory_b_def asc_def)
  have s: "speaking (synth (run (run_a @ [PlayToggle, UtteranceStart]) (initial_world False)))"
      "begun (synth (run (run_a @ [PlayToggle, UtteranceStart]) (initial_world False)))"
      "queue (synth (run (run_a @ [PlayToggle, UtteranceStart]) (initial_world False))) \<noteq> []"
      "cancelled (synth (run (run_a @ [PlayToggle, UtteranceStart]) (initial_world False)))
        = []"
    by (simp_all add: run_a_spoken speaking_def)
  from a b s run_a_state(1,2)
    single_utterance_in_flight
      [of "run_a @ [PlayToggle, UtteranceStart, LoadMemory memory_b, PlayToggle]" False
          "run run_a (initial_world False)" "asc ''a''" memory_b "asc ''b''"]
    single_utterance_in_flight
      [of "run_a @ [PlayToggle, UtteranceStart]" False
          "run (run_a @ [PlayToggle, UtteranceStart]) (initial_world False)"]
    single_utterance_in_flight [of "run_a @ [PlayToggle]" True]
  show ?thesis by simp
qed

section \<open>The claims on playback\<close>

text \<open>
  C5 (every start forces a full stop of the prior utterance, also on teardown, so that
  at most one utterance is active). The queue never holds more than one utterance, and
  every start cancels first (\<open>single_utterance_in_flight\<close>). The code differs on
  teardown: the cleanup of the unmounted component calls \<open>cancel\<close> only when
  \<open>speechSynthesis.speaking\<close> holds, which the Web Speech API defines as true for an
  utterance that has begun. After playback was started for the text \<open>a\<close> and before
  the utterance has begun, such an engine reports \<open>false\<close>; the cleanup then cancels
  nothing, the utterance stays in the queue, and it begins afterwards.
\<close>

theorem teardown_pending_utterance:
  "queue (synth (run (run_a @ [PlayToggle]) (initial_world False)))
     = [\<lparr>utext = asc ''a'', boundaryMap = [\<lparr>word = asc ''a'', startIndex = 0\<rparr>]\<rparr>]
   \<and> \<not> speaking (synth (run (run_a @ [PlayToggle]) (initial_world False)))
   \<and> queue (synth (unmountCleanup (run (run_a @ [PlayToggle]) (initial_world False))))
       = [\<lparr>utext = asc ''a'', boundaryMap = [\<lparr>word = asc ''a'', startIndex = 0\<rparr>]\<rparr>]
   \<and> queue (synth (unmountCleanup (run (run_a @ [PlayToggle]) (initial_world False)))) \<noteq> []
   \<and> begun (synth (step UtteranceStart
        (unmountCleanup (run (run_a @ [PlayToggle]) (initial_world False)))))"
  by (simp add: run_a_def initial_world_def initial_app_def initial_synth_def
      handleGenerate_begin_def handleGenerate_done_def handleStartNew_def
      handlePlayToggle_def speak_def cancel_def unmountCleanup_def
      cancelIfSpeaking_def speaking_def trim_def isWhiteSpace_def asc_def Let_def
      textValue_def textParts_def truthy_def String_match_def matchPart_def wordMap_def)

text \<open>
  C10 (the highlighted index is \<open>- 1\<close> or a position of the current word spans). Two
  runs end with an index that is neither. The start handler sets 0 for every non-empty
  text, and a text of whitespace only is not empty but has no span: after the
  generation returned a single space, playback was started and the utterance began, the
  index is 0 and the span sequence is empty. And the boundary handler of an utterance
  scans the word map of the text it was made from: playback is started for a text of
  four words, and before the utterance has begun \<open>handleStartNew\<close> and
  \<open>loadMemoryFromHistory\<close> put a text of one word on the screen; on an engine that does
  not count the pending utterance as speaking neither cancels it, it begins, and at
  the boundary of its fourth word the index is 3 while the text on the screen has one
  span.
\<close>

theorem highlighted_index_outside_spans:
  "resultText (ui (run run_blank (initial_world False))) = Some (asc '' '')
   \<and> textParts (textValue (resultText (ui (run run_blank (initial_world False))))) = Inr []
   \<and> highlightedWordIndex (ui (run run_blank (initial_world False))) = 0
   \<and> \<not> (highlightedWordIndex (ui (run run_blank (initial_world False))) = - 1
        \<or> (0 \<le> highlightedWordIndex (ui (run run_blank (initial_world False)))
            \<and> highlightedWordIndex (ui (run run_blank (initial_world False)))
                < int (length ([] :: jsstring list))))
   \<and> resultText (ui (run (run_words @ [PlayToggle, StartNew, LoadMemory memory_b,
        UtteranceStart, UtteranceBoundary 6]) (initial_world False))) = Some (asc ''b'')
   \<and> textParts (textValue (resultText (ui (run (run_words @ [PlayToggle, StartNew,
        LoadMemory memory_b, UtteranceStart, UtteranceBoundary 6]) (initial_world False)))))
       = Inr [asc ''b'']
   \<and> highlightedWordIndex (ui (run (run_words @ [PlayToggle, StartNew,
        LoadMemory memory_b, UtteranceStart, UtteranceBoundary 6]) (initial_world False))) = 3
   \<and> \<not> (highlightedWordIndex (ui (run (run_words @ [PlayToggle, StartNew,
          LoadMemory memory_b, UtteranceStart, UtteranceBoundary 6]) (initial_world False)))
          = - 1
        \<or> (0 \<le> highlightedWordIndex (ui (run (run_words @ [PlayToggle, StartNew,
              LoadMemory memory_b, UtteranceStart, UtteranceBoundary 6])
              (initial_world False)))
            \<and> highlightedWordIndex (ui (run (run_words @ [PlayToggle, StartNew,
                LoadMemory memory_b, UtteranceStart, UtteranceBoundary 6])
                (initial_world False)))
                < int (length [asc ''b''])))"
  by (simp add: run_blank_def run_words_def memory_b_def initial_world_def
      initial_app_def initial_synth_def
      handleGenerate_begin_def handleGenerate_done_def handleStartNew_def
      loadMemoryFromHistory_def handlePlayToggle_def speak_def cancel_def onstart_def
      cancelIfSpeaking_def speaking_def trim_def isWhiteSpace_def asc_def Let_def
      textValue_def textParts_def truthy_def String_match_def matchPart_def wordMap_def
      onboundary_def currentWordIndex_takeWhile)

text \<open>
  The highlighted index and the utterance that set it: in every run the index is
  \<open>- 1\<close>, or an utterance is being spoken and the index is a position of the word
  spans of the text that utterance was made from, or it is 0 while an utterance whose
  text has no span is being spoken.
\<close>

lemma highlighted_index_utterance_spans:
  "highlightedWordIndex (ui (run es (initial_world pc))) = - 1
    \<or> (\<exists>u. queue (synth (run es (initial_world pc))) = [u]
          \<and> begun (synth (run es (initial_world pc))) \<and> utext u \<noteq> []
          \<and> textParts (Some (JString (utext u))) = Inr (matchAll (utext u))
          \<and> ((0 \<le> highlightedWordIndex (ui (run es (initial_world pc)))
               \<and> highlightedWordIndex (ui (run es (initial_world pc)))
                   < int (length (matchAll (utext u))))
              \<or> (highlightedWordIndex (ui (run es (initial_world pc))) = 0
                  \<and> matchAll (utext u) = [])))"
proof (cases "highlightedWordIndex (ui (run es (initial_world pc))) = - 1")
  case True
  then show ?thesis by simp
next
  case False
  let ?w = "run es (initial_world pc)"
  let ?hi = "highlightedWordIndex (ui ?w)"
  have inv: "playback_inv ?w"
    by (rule playback_inv_run) (rule playback_inv_initial)
  with False have b: "begun (synth ?w)" and ne: "queue (synth ?w) \<noteq> []"
    and ok: "index_ok (boundaryMap (hd (queue (synth ?w)))) ?hi"
    and len: "length (queue (synth ?w)) \<le> 1"
    and made: "list_all made_by_toggle (queue (synth ?w))"
    by (auto simp: playback_inv_def)
  from ne len obtain u where q: "queue (synth ?w) = [u]"
    by (cases "queue (synth ?w)") auto
  from made q have m: "utext u \<noteq> []" "boundaryMap u = wordMap (matchAll (utext u))"
    by (simp_all add: made_by_toggle_def textParts_string)
  from ok q m(2) have "index_ok (wordMap (matchAll (utext u))) ?hi"
    by simp
  then have "(0 \<le> ?hi \<and> ?hi < int (length (matchAll (utext u))))
        \<or> (?hi = 0 \<and> matchAll (utext u) = [])"
    by (auto simp: index_ok_def)
  with q b m(1) show ?thesis
    by (auto simp: textParts_string)
qed

text \<open>
  C10 as the code has it. In every run the highlighted index is \<open>- 1\<close> unless an
  utterance is being spoken. While the text on the screen is the text of that
  utterance, the index is a position of the current word spans, or it is 0 and the
  text has no span. The scan of the boundary handler returns \<open>- 1\<close> or a position of
  its word map and leaves the index as it is when it returns \<open>- 1\<close>; the start handler
  sets 0; the handlers \<open>onend\<close> and \<open>onerror\<close>, \<open>loadMemoryFromHistory\<close> and
  \<open>handleStartNew\<close> set \<open>- 1\<close>.
\<close>

theorem highlighted_index_of_spoken_utterance:
  "(highlightedWordIndex (ui (run es (initial_world pc))) = - 1
    \<or> (\<exists>u. queue (synth (run es (initial_world pc))) = [u]
          \<and> begun (synth (run es (initial_world pc)))
          \<and> (resultText (ui (run es (initial_world pc))) = Some (utext u) \<longrightarrow>
               (\<exists>parts.
                  textParts (textValue (resultText (ui (run es (initial_world pc)))))
                    = Inr parts
                  \<and> ((0 \<le> highlightedWordIndex (ui (run es (initial_world pc)))
                       \<and> highlightedWordIndex (ui (run es (initial_world pc)))
                           < int (length parts))
                      \<or> (highlightedWordIndex (ui (run es (initial_world pc))) = 0
                          \<and> parts = []))))))
   \<and> - 1 \<le> currentWordIndex wm c \<and> currentWordIndex wm c < int (length wm)
   \<and> (if currentWordIndex wm c = - 1 then onboundary wm c hi = hi
       else onboundary wm c hi = currentWordIndex wm c)
   \<and> highlightedWordIndex (onstart a) = 0
   \<and> highlightedWordIndex (onend a) = - 1 \<and> highlightedWordIndex (onerror a) = - 1
   \<and> highlightedWordIndex (ui (loadMemoryFromHistory m w)) = - 1
   \<and> highlightedWordIndex (ui (handleStartNew w)) = - 1"
proof -
  let ?w = "run es (initial_world pc)"
  let ?hi = "highlightedWordIndex (ui ?w)"
  have first: "?hi = - 1
    \<or> (\<exists>u. queue (synth ?w) = [u] \<and> begun (synth ?w)
          \<and> (resultText (ui ?w) = Some (utext u) \<longrightarrow>
               (\<exists>parts. textParts (textValue (resultText (ui ?w))) = Inr parts
                  \<and> ((0 \<le> ?hi \<and> ?hi < int (length parts))
                      \<or> (?hi = 0 \<and> parts = [])))))"
  proof (cases "?hi = - 1")
    case True
    then show ?thesis by simp
  next
    case False
    with highlighted_index_utterance_spans [of es pc]
    obtain u where u: "queue (synth ?w) = [u]" "begun (synth ?w)"
        "(0 \<le> ?hi \<and> ?hi < int (length (matchAll (utext u))))
          \<or> (?hi = 0 \<and> matchAll (utext u) = [])"
      by blast
    have "\<exists>parts. textParts (textValue (resultText (ui ?w))) = Inr parts
        \<and> ((0 \<le> ?hi \<and> ?hi < int (length parts)) \<or> (?hi = 0 \<and> parts = []))"
      if "resultText (ui ?w) = Some (utext u)"
      using that u(3) by (simp add: textValue_def textParts_string)
    with u(1,2) show ?thesis by blast
  qed
  have scan: "- 1 \<le> currentWordIndex wm c \<and> currentWordIndex wm c < int (length wm)"
    by (rule currentWordIndex_range)
  have upd: "(if currentWordIndex wm c = - 1 then onboundary wm c hi = hi
       else onboundary wm c hi = currentWordIndex wm c)"
    by (simp add: onboundary_def)
  have resets: "highlightedWordIndex (onstart a) = 0"
      "highlightedWordIndex (onend a) = - 1"
      "highlightedWordIndex (onerror a) = - 1"
      "highlightedWordIndex (ui (loadMemoryFromHistory m w)) = - 1"
      "highlightedWordIndex (ui (handleStartNew w)) = - 1"
    by (simp_all add: onstart_def onend_def onerror_def loadMemoryFromHistory_def
        handleStartNew_def)
  from first scan upd resets show ?thesis by blast
qed

lemma run_words_spoken:
  "ui (run (run_words @ [PlayToggle, UtteranceStart, UtteranceBoundary 6])
       (initial_world False))
     = initial_app\<lparr>resultText := Some (asc ''a b c d''), isSpeaking := True,
         highlightedWordIndex := 3\<rparr>"
  "queue (synth (run (run_words @ [PlayToggle, UtteranceStart, UtteranceBoundary 6])
       (initial_world False)))
     = [\<lparr>utext = asc ''a b c d'',
         boundaryMap = wordMap [asc ''a '', asc ''b '', asc ''c '', asc ''d'']\<rparr>]"
  by (simp_all add: run_words_def initial_world_def initial_app_def initial_synth_def
      handleGenerate_begin_def handleGenerate_done_def handleStartNew_def
      handlePlayToggle_def speak_def cancel_def onstart_def
      cancelIfSpeaking_def speaking_def trim_def isWhiteSpace_def asc_def Let_def
      textValue_def textParts_def truthy_def String_match_def matchPart_def wordMap_def
      onboundary_def currentWordIndex_takeWhile)

theorem highlighted_index_of_spoken_utterance_witness:
  "highlightedWordIndex (ui (run (run_words @ [PlayToggle, UtteranceStart,
      UtteranceBoundary 6]) (initial_world False))) = 3
   \<and> queue (synth (run (run_words @ [PlayToggle, UtteranceStart, UtteranceBoundary 6])
        (initial_world False)))
       = [\<lparr>utext = asc ''a b c d'',
           boundaryMap = wordMap [asc ''a '', asc ''b '', asc ''c '', asc ''d'']\<rparr>]
   \<and> resultText (ui (run (run_words @ [PlayToggle, UtteranceStart, UtteranceBoundary 6])
        (initial_world False))) = Some (asc ''a b c d'')
   \<and> (\<exists>parts. textParts (textValue (resultText (ui (run (run_words @ [PlayToggle,
          UtteranceStart, UtteranceBoundary 6]) (initial_world False))))) = Inr parts
        \<and> 3 < int (length parts))"
proof -
  have hi: "highlightedWordIndex (ui (run (run_words @ [PlayToggle, UtteranceStart,
      UtteranceBoundary 6]) (initial_world False))) = 3"
    by (simp add: run_words_spoken(1))
  have same: "resultText (ui (run (run_words @ [PlayToggle, UtteranceStart,
      UtteranceBoundary 6]) (initial_world False))) = Some (asc ''a b c d'')"
    by (simp add: run_words_spoken(1))
  from hi same run_words_spoken(2)
    highlighted_index_of_spoken_utterance
      [of "run_words @ [PlayToggle, UtteranceStart, UtteranceBoundary 6]" False]
  show ?thesis by auto
qed
section \<open>Properties of the JSON functions\<close>

subsection \<open>The parser consumes what it reads\<close>

lemma parseDigits_shorter: "parseDigits s = Some (x, r) \<Longrightarrow> length r < length s"
proof -
  assume a: "parseDigits s = Some (x, r)"
  then have ne: "takeWhile isDigit s \<noteq> []" and r: "r = dropWhile isDigit s"
    by (auto simp: parseDigits_def split: if_splits)
  have "length (takeWhile isDigit s) + length (dropWhile isDigit s) = length s"
    by (metis length_append takeWhile_dropWhile_id)
  with ne r show ?thesis by (cases "takeWhile isDigit s") auto
qed

lemma parseInt_shorter: "parseInt s = Some (x, r) \<Longrightarrow> length r < length s"
  by (auto simp: parseInt_def split: list.splits if_splits dest: parseDigits_shorter)

lemma parseFraction_shorter: "parseFraction s = Some (x, r) \<Longrightarrow> length r \<le> length s"
  by (fastforce simp: parseFraction_def split: list.splits if_splits
      dest: parseDigits_shorter)

lemma parseExponent_shorter: "parseExponent s = Some (x, r) \<Longrightarrow> length r \<le> length s"
  by (fastforce simp: parseExponent_def split: list.splits if_splits
      dest: parseDigits_shorter)

lemma parseNumber_shorter:
  assumes "parseNumber s = Some (x, r)"
  shows "length r < length s"
proof -
  define s1 where "s1 = (case s of [] \<Rightarrow> s | c # cs \<Rightarrow> if c = 0x2D then cs else s)"
  have s1: "length s1 \<le> length s"
    by (simp add: s1_def split: list.splits)
  from assms obtain i s2 f s3 e where
    "parseInt s1 = Some (i, s2)" "parseFraction s2 = Some (f, s3)"
    "parseExponent s3 = Some (e, r)"
    by (auto simp: parseNumber_def s1_def split: list.splits if_splits option.splits)
  then have "length s2 < length s1" "length s3 \<le> length s2" "length r \<le> length s3"
    by (auto dest: parseInt_shorter parseFraction_shorter parseExponent_shorter)
  with s1 show ?thesis by simp
qed

lemma parseLiteral_shorter:
  "lit \<noteq> [] \<Longrightarrow> parseLiteral lit v s = Some (x, r) \<Longrightarrow> length r < length s"
proof -
  assume l: "lit \<noteq> []" and a: "parseLiteral lit v s = Some (x, r)"
  from a have t: "take (length lit) s = lit" and r: "r = drop (length lit) s"
    by (auto simp: parseLiteral_def split: if_splits)
  from t l have "s \<noteq> []" by auto
  with l r show ?thesis by (cases lit) auto
qed

lemma parseLiteral_Cons_shorter:
  "parseLiteral (l # ls) v s = Some (x, r) \<Longrightarrow> length r < length s"
  by (rule parseLiteral_shorter [of "l # ls"]) simp_all

lemma parse_shorter:
  "\<forall>v r. parseValue s = Some (v, r) \<longrightarrow> length r < length s"
  "\<forall>v r. parseElements s1 = Some (v, r) \<longrightarrow> length r < length s1"
  "\<forall>v r. parseMembers s2 = Some (v, r) \<longrightarrow> length r < length s2"
proof (induction s and s1 and s2 rule: parseValue_parseElements_parseMembers.induct)
  case (1 s)
  show ?case
  proof (intro allI impI)
    fix v r
    assume a: "parseValue s = Some (v, r)"
    then obtain c cs where sk: "skipWhitespace s = c # cs"
      by (subst (asm) parseValue.simps) (auto split: list.splits)
    have len: "length cs < length s"
      using sk by (rule skipWhitespace_Cons_length)
    have le: "length (c # cs) \<le> length s"
      using skipWhitespace_length [of s] sk by simp
    consider (obj) "c = 0x7B" | (arr) "c \<noteq> 0x7B" "c = 0x5B"
      | (other) "c \<noteq> 0x7B" "c \<noteq> 0x5B"
      by blast
    then show "length r < length s"
    proof cases
      case obj
      from a sk obj obtain d ds where sd: "skipWhitespace cs = d # ds"
        by (subst (asm) parseValue.simps) (auto split: list.splits)
      have dl: "length (d # ds) \<le> length cs"
        using skipWhitespace_length [of cs] sd by simp
      show ?thesis
      proof (cases "d = 0x7D")
        case True
        with a sk obj sd have "r = ds"
          by (subst (asm) parseValue.simps) simp
        with dl len show ?thesis by simp
      next
        case False
        with a sk obj sd obtain ms where "parseMembers (d # ds) = Some (ms, r)"
          by (subst (asm) parseValue.simps) auto
        with "1.IH"(1) [OF sk obj sd False] have "length r < length (d # ds)" by blast
        with dl len show ?thesis by simp
      qed
    next
      case arr
      from a sk arr obtain d ds where sd: "skipWhitespace cs = d # ds"
        by (subst (asm) parseValue.simps) (auto split: list.splits)
      have dl: "length (d # ds) \<le> length cs"
        using skipWhitespace_length [of cs] sd by simp
      show ?thesis
      proof (cases "d = 0x5D")
        case True
        with a sk arr sd have "r = ds"
          by (subst (asm) parseValue.simps) simp
        with dl len show ?thesis by simp
      next
        case False
        with a sk arr sd obtain xs where "parseElements (d # ds) = Some (xs, r)"
          by (subst (asm) parseValue.simps) auto
        with "1.IH"(2) [OF sk arr(1) arr(2) sd False] have "length r < length (d # ds)"
          by blast
        with dl len show ?thesis by simp
      qed
    next
      case other
      from a sk other have "length r < length (c # cs) \<or> length r < length cs"
        by (subst (asm) parseValue.simps)
          (auto simp: asc_def split: if_splits
            dest: parseStringBody_shorter parseLiteral_Cons_shorter parseNumber_shorter)
      with le len show ?thesis by auto
    qed
  qed
next
  case (2 s)
  show ?case
  proof (intro allI impI)
    fix xs r
    assume a: "parseElements s = Some (xs, r)"
    then obtain v r1 where pv: "parseValue s = Some (v, r1)"
      by (subst (asm) parseElements.simps) (auto split: option.splits)
    with "2.IH"(1) have l1: "length r1 < length s" by blast
    from a pv obtain c cs where sk: "skipWhitespace r1 = c # cs"
      by (subst (asm) parseElements.simps) (auto split: list.splits)
    have cl: "length cs < length r1"
      using sk by (rule skipWhitespace_Cons_length)
    show "length r < length s"
    proof (cases "c = 0x5D")
      case True
      with a pv sk have "r = cs"
        by (subst (asm) parseElements.simps) simp
      with cl l1 show ?thesis by simp
    next
      case False
      with a pv sk have g: "c = 0x2C \<and> length cs < length s"
        by (subst (asm) parseElements.simps) (auto split: if_splits)
      with a pv sk False obtain ys where "parseElements cs = Some (ys, r)"
        by (subst (asm) parseElements.simps) auto
      with "2.IH"(2) [OF pv refl sk False g] have "length r < length cs" by blast
      with cl l1 show ?thesis by simp
    qed
  qed
next
  case (3 s)
  show ?case
  proof (intro allI impI)
    fix ms r
    assume a: "parseMembers s = Some (ms, r)"
    then obtain q qs where sq: "skipWhitespace s = q # qs"
      by (subst (asm) parseMembers.simps) (auto split: list.splits)
    from a sq have q: "\<not> q \<noteq> 0x22"
      by (subst (asm) parseMembers.simps) (auto split: if_splits)
    from a sq q obtain k r0 where ps: "parseStringBody qs = Some (k, r0)"
      by (subst (asm) parseMembers.simps) (auto split: option.splits)
    from a sq q ps obtain c cs where sc: "skipWhitespace r0 = c # cs"
      by (subst (asm) parseMembers.simps) (auto split: list.splits)
    from a sq q ps sc have c: "\<not> c \<noteq> 0x3A"
      by (subst (asm) parseMembers.simps) (auto split: if_splits)
    from a sq q ps sc c obtain v r1 where pv: "parseValue cs = Some (v, r1)"
      by (subst (asm) parseMembers.simps) (auto split: option.splits)
    from a sq q ps sc c pv obtain e es where se: "skipWhitespace r1 = e # es"
      by (subst (asm) parseMembers.simps) (auto split: list.splits)
    have l0: "length qs < length s" using sq by (rule skipWhitespace_Cons_length)
    have l1: "length r0 < length qs" using ps by (rule parseStringBody_shorter)
    have l2: "length cs < length r0" using sc by (rule skipWhitespace_Cons_length)
    have l3: "length r1 < length cs"
      using "3.IH"(1) [OF sq q ps refl sc c] pv by blast
    have l4: "length es < length r1" using se by (rule skipWhitespace_Cons_length)
    show "length r < length s"
    proof (cases "e = 0x7D")
      case True
      with a sq q ps sc c pv se have "r = es"
        by (subst (asm) parseMembers.simps) simp
      with l0 l1 l2 l3 l4 show ?thesis by simp
    next
      case False
      with a sq q ps sc c pv se have g: "e = 0x2C \<and> length es < length s"
        by (subst (asm) parseMembers.simps) (auto split: if_splits)
      with a sq q ps sc c pv se False obtain ns where "parseMembers es = Some (ns, r)"
        by (subst (asm) parseMembers.simps) auto
      with "3.IH"(2) [OF sq q ps refl sc c pv refl se False g] have "length r < length es"
        by blast
      with l0 l1 l2 l3 l4 show ?thesis by simp
    qed
  qed
qed


lemma parseValue_shorter: "parseValue s = Some (v, r) \<Longrightarrow> length r < length s"
  using parse_shorter(1) by blast

text \<open>The equations of the grammar without the comparisons of lengths.\<close>

lemma parseElements_unfold:
  "parseElements s =
     (case parseValue s of
        None \<Rightarrow> None
      | Some (v, r) \<Rightarrow>
          (case skipWhitespace r of
             [] \<Rightarrow> None
           | c # cs \<Rightarrow>
               if c = 0x5D then Some ([v], cs)
               else if c = 0x2C then map_option (map_prod ((#) v) id) (parseElements cs)
               else None))"
proof (cases "parseValue s")
  case None
  then show ?thesis by (subst parseElements.simps) simp
next
  case (Some p)
  obtain v r where p: "p = (v, r)" by (cases p)
  have l: "length r < length s"
    using Some p by (intro parseValue_shorter) simp
  show ?thesis
  proof (cases "skipWhitespace r")
    case Nil
    with Some p show ?thesis by (subst parseElements.simps) simp
  next
    case (Cons c cs)
    then have "length cs < length r" by (rule skipWhitespace_Cons_length)
    with l have "length cs < length s" by simp
    with Some p Cons show ?thesis by (subst parseElements.simps) simp
  qed
qed

lemma parseMembers_unfold:
  "parseMembers s =
     (case skipWhitespace s of
        [] \<Rightarrow> None
      | q # qs \<Rightarrow>
          if q \<noteq> 0x22 then None
          else
            (case parseStringBody qs of
               None \<Rightarrow> None
             | Some (k, r0) \<Rightarrow>
                 (case skipWhitespace r0 of
                    [] \<Rightarrow> None
                  | c # cs \<Rightarrow>
                      if c \<noteq> 0x3A then None
                      else
                        (case parseValue cs of
                           None \<Rightarrow> None
                         | Some (v, r) \<Rightarrow>
                             (case skipWhitespace r of
                                [] \<Rightarrow> None
                              | e # es \<Rightarrow>
                                  if e = 0x7D then Some ([(k, v)], es)
                                  else if e = 0x2C
                                  then map_option (map_prod ((#) (k, v)) id)
                                         (parseMembers es)
                                  else None)))))"
proof -
  have g: "length es < length s"
    if "skipWhitespace s = q # qs" "parseStringBody qs = Some (k, r0)"
      "skipWhitespace r0 = c # cs" "parseValue cs = Some (v, r)" "skipWhitespace r = e # es"
    for q qs k r0 c cs v r e es
  proof -
    have "length qs < length s" using that(1) by (rule skipWhitespace_Cons_length)
    moreover have "length r0 < length qs" using that(2) by (rule parseStringBody_shorter)
    moreover have "length cs < length r0" using that(3) by (rule skipWhitespace_Cons_length)
    moreover have "length r < length cs" using that(4) by (rule parseValue_shorter)
    moreover have "length es < length r" using that(5) by (rule skipWhitespace_Cons_length)
    ultimately show ?thesis by simp
  qed
  show ?thesis
    by (subst parseMembers.simps)
      (auto split: list.splits option.splits dest: g)
qed

subsection \<open>Strings and numbers are read back as printed\<close>

lemma unat_of_nat16: "k < 65536 \<Longrightarrow> unat (of_nat k :: jschar) = k"
  by (simp add: unat_of_nat)

lemma unat_lowerHexDigit:
  assumes "n < 16"
  shows "unat (lowerHexDigit n) = (if n < 10 then 48 + n else 87 + n)"
proof (cases "n < 10")
  case True
  have "unat (of_nat (0x30 + n) :: jschar) = 0x30 + n"
    using assms by (intro unat_of_nat16) simp
  with True show ?thesis by (simp add: lowerHexDigit_def)
next
  case False
  have "unat (of_nat (0x61 + (n - 10)) :: jschar) = 0x61 + (n - 10)"
    using assms by (intro unat_of_nat16) simp
  with False show ?thesis by (simp add: lowerHexDigit_def)
qed

lemma hexDigitValue_lower: "n < 16 \<Longrightarrow> hexDigitValue (lowerHexDigit n) = Some n"
  by (simp add: hexDigitValue_def word_le_nat_alt unat_lowerHexDigit)

lemma hex_split:
  fixes x :: nat
  shows "4096 * (x div 4096) + 256 * (x div 256 mod 16)
          + 16 * (x div 16 mod 16) + x mod 16 = x"
proof -
  have a: "x div 256 = x div 16 div 16" by (simp add: div_mult2_eq)
  have b: "x div 4096 = x div 16 div 16 div 16" by (simp add: div_mult2_eq)
  have 1: "16 * (x div 16) + x mod 16 = x" by simp
  have 2: "16 * (x div 16 div 16) + x div 16 mod 16 = x div 16" by simp
  have 3: "16 * (x div 16 div 16 div 16) + x div 16 div 16 mod 16 = x div 16 div 16" by simp
  show ?thesis unfolding a b using 1 2 3 by linarith
qed

lemma hex4_of_escape:
  "hex4 (lowerHexDigit (unat c div 4096)) (lowerHexDigit (unat c div 256 mod 16))
        (lowerHexDigit (unat c div 16 mod 16)) (lowerHexDigit (unat c mod 16)) = Some c"
proof -
  have "unat c < 65536" using unsigned_less [of c] by simp
  then have "unat c div 4096 < 16" by simp
  then show ?thesis
    by (simp add: hex4_def hexDigitValue_lower hex_split)
qed

lemma parseStringBody_unicodeEscape:
  "parseStringBody (unicodeEscape c @ r)
     = map_option (map_prod ((#) c) id) (parseStringBody r)"
  by (simp add: unicodeEscape_def hex4_of_escape)

lemma parseStringBody_quoteChar:
  "parseStringBody (quoteChar c @ r)
     = map_option (map_prod ((#) c) id) (parseStringBody r)"
  by (auto simp: quoteChar_def parseStringBody_unicodeEscape unescapeChar_def)

lemma parseStringBody_quoteBody:
  "parseStringBody (quoteBody s @ 0x22 # r) = Some (s, r)"
proof (induction s rule: quoteBody.induct)
  case 1
  show ?case by simp
next
  case (2 c)
  show ?case
    by (simp add: parseStringBody_unicodeEscape parseStringBody_quoteChar)
next
  case (3 c d cs)
  then show ?case 
    by (auto simp: parseStringBody_unicodeEscape parseStringBody_quoteChar isHighSurrogate_def isLowSurrogate_def word_le_nat_alt word_less_nat_alt)
qed


lemma isDigit_digit: "d < 10 \<Longrightarrow> isDigit (digitChar d)"
proof -
  assume d: "d < 10"
  have "unat (of_nat (0x30 + d) :: jschar) = 0x30 + d"
    using d by (intro unat_of_nat16) simp
  with d show ?thesis by (simp add: isDigit_def digitChar_def word_le_nat_alt)
qed

lemma digit_zero_iff: "d < 10 \<Longrightarrow> digitChar d = 0x30 \<longleftrightarrow> d = 0"
proof -
  assume d: "d < 10"
  have u: "unat (of_nat (0x30 + d) :: jschar) = 0x30 + d"
    using d by (intro unat_of_nat16) simp
  show ?thesis
  proof
    assume "digitChar d = 0x30"
    then have "unat (of_nat (0x30 + d) :: jschar) = unat (0x30 :: jschar)"
      by (simp add: digitChar_def)
    with u show "d = 0" by simp
  next
    assume "d = 0"
    then show "digitChar d = 0x30" by (simp add: digitChar_def)
  qed
qed

lemma natToString_nonempty: "natToString n \<noteq> []"
  by (subst natToString.simps) simp

lemma natToString_digits: "c \<in> set (natToString n) \<Longrightarrow> isDigit c"
proof (induction n arbitrary: c rule: natToString.induct)
  case (1 n)
  show ?case
  proof (cases "n < 10")
    case True
    with "1.prems" show ?thesis
      by (subst (asm) natToString.simps) (simp add: isDigit_digit)
  next
    case False
    from "1.prems" have "c \<in> set (natToString (n div 10)) \<or> c = digitChar (n mod 10)"
      using False by (subst (asm) natToString.simps) auto
    then show ?thesis
      using "1.IH" [OF False] by (auto intro: isDigit_digit)
  qed
qed

lemma natToString_hd: "hd (natToString n) = 0x30 \<longleftrightarrow> n = 0"
proof (induction n rule: natToString.induct)
  case (1 n)
  show ?case
  proof (cases "n < 10")
    case True
    then show ?thesis
      by (subst natToString.simps) (simp add: digit_zero_iff)
  next
    case False
    then have "n div 10 \<noteq> 0" by simp
    with "1.IH" [OF False] have "hd (natToString (n div 10)) \<noteq> 0x30" by simp
    moreover have "hd (natToString n) = hd (natToString (n div 10))"
      using False by (subst natToString.simps) (simp add: natToString_nonempty)
    ultimately show ?thesis using False by simp
  qed
qed

lemma closes_not_digit: "closes r \<Longrightarrow> takeWhile isDigit r = []"
  by (cases r) (auto simp: closes_def isDigit_def)

lemma parseDigits_natToString:
  "closes r \<Longrightarrow> parseDigits (natToString n @ r) = Some (natToString n, r)"
proof -
  assume c: "closes r"
  have all: "\<forall>c \<in> set (natToString n). isDigit c"
    by (simp add: natToString_digits)
  have t: "takeWhile isDigit (natToString n @ r) = natToString n"
    using all by (simp add: takeWhile_append2 closes_not_digit [OF c])
  have "dropWhile isDigit r = r"
    using closes_not_digit [OF c] by (cases r) (auto split: if_splits)
  then have d: "dropWhile isDigit (natToString n @ r) = r"
    using all by (simp add: dropWhile_append2)
  show ?thesis
    by (simp add: parseDigits_def t d natToString_nonempty)
qed

lemma parseInt_natToString:
  "closes r \<Longrightarrow> parseInt (natToString n @ r) = Some (natToString n, r)"
proof (cases "n = 0")
  case True
  assume "closes r"
  have z: "natToString 0 = [0x30]"
    by (subst natToString.simps) (simp add: digitChar_def)
  show ?thesis unfolding True z
    by (simp add: parseInt_def)
next
  case False
  assume c: "closes r"
  obtain d ds where nd: "natToString n = d # ds"
    using natToString_nonempty [of n] by (cases "natToString n") auto
  with False natToString_hd [of n] have d: "d \<noteq> 0x30" by simp
  have "parseInt (natToString n @ r) = parseDigits (natToString n @ r)"
    using d by (simp add: parseInt_def nd)
  then show ?thesis by (simp add: parseDigits_natToString [OF c])
qed

lemma parseFraction_closes: "closes r \<Longrightarrow> parseFraction r = Some ([], r)"
  by (cases r) (auto simp: parseFraction_def closes_def)

lemma parseExponent_closes: "closes r \<Longrightarrow> parseExponent r = Some ([], r)"
  by (cases r) (auto simp: parseExponent_def closes_def)

lemma parseNumber_numberToString:
  assumes "closes r"
  shows "parseNumber (numberToString i @ r) = Some (numberToString i, r)"
proof (cases "i < 0")
  case True
  then show ?thesis
    by (simp add: parseNumber_def numberToString_def parseInt_natToString [OF assms]
        parseFraction_closes [OF assms] parseExponent_closes [OF assms])
next
  case False
  obtain d ds where nd: "natToString (nat i) = d # ds"
    using natToString_nonempty [of "nat i"] by (cases "natToString (nat i)") auto
  have "isDigit d"
    using natToString_digits [of d "nat i"] nd by simp
  then have d: "d \<noteq> 0x2D" by (auto simp: isDigit_def)
  have "parseNumber (natToString (nat i) @ r) = Some (natToString (nat i), r)"
    using d parseInt_natToString [OF assms, of "nat i"]
    by (simp add: parseNumber_def nd parseFraction_closes [OF assms]
        parseExponent_closes [OF assms])
  with False show ?thesis by (simp add: numberToString_def)
qed

subsection \<open>Printed values are read back\<close>

lemma skipWhitespace_start:
  "\<not> isJSONWhitespace c \<Longrightarrow> skipWhitespace (c # cs) = c # cs"
  by (simp add: skipWhitespace_def)

lemma startsValue_numberToString: "startsValue (numberToString i @ r)"
proof -
  obtain d ds where nd: "natToString (nat \<bar>i\<bar>) = d # ds"
    using natToString_nonempty [of "nat \<bar>i\<bar>"] by (cases "natToString (nat \<bar>i\<bar>)") auto
  have "isDigit d"
    using natToString_digits [of d "nat \<bar>i\<bar>"] nd by simp
  then have "\<not> isJSONWhitespace d \<and> d \<noteq> 0x5D \<and> d \<noteq> 0x7D"
    by (auto simp: isDigit_def isJSONWhitespace_def)
  moreover have "i < 0 \<Longrightarrow> nat (- i) = nat \<bar>i\<bar>" "\<not> i < 0 \<Longrightarrow> nat i = nat \<bar>i\<bar>"
    by simp_all
  ultimately show ?thesis
    using nd by (auto simp: startsValue_def numberToString_def isJSONWhitespace_def)
qed

lemma startsValue_stringify: "printable v \<Longrightarrow> startsValue (JSON_stringify v @ r)"
proof (cases v)
  case (JNumber n)
  assume "printable v"
  with JNumber obtain i where "n = numberToString i" by auto
  with JNumber show ?thesis by (simp add: startsValue_numberToString)
qed (simp_all add: startsValue_def asc_def isJSONWhitespace_def quoteJSONString_def)

lemma parseValue_number_branch:
  assumes "\<not> isJSONWhitespace c" "c \<noteq> 0x7B" "c \<noteq> 0x5B" "c \<noteq> 0x22" "c \<noteq> 0x74"
      "c \<noteq> 0x66" "c \<noteq> 0x6E"
  shows "parseValue (c # cs) = map_option (map_prod JNumber id) (parseNumber (c # cs))"
  using assms by (subst parseValue.simps) (simp add: skipWhitespace_start)

lemma parseValue_number:
  assumes "closes r"
  shows "parseValue (numberToString i @ r) = Some (JNumber (numberToString i), r)"
proof -
  have "\<exists>c cs. numberToString i @ r = c # cs \<and> (c = 0x2D \<or> isDigit c)"
  proof (cases "i < 0")
    case True
    then show ?thesis by (simp add: numberToString_def)
  next
    case False
    obtain d ds where nd: "natToString (nat i) = d # ds"
      using natToString_nonempty [of "nat i"] by (cases "natToString (nat i)") auto
    have "isDigit d"
      using natToString_digits [of d "nat i"] nd by simp
    with False nd show ?thesis by (simp add: numberToString_def)
  qed
  then obtain c cs where c: "numberToString i @ r = c # cs" and cd: "c = 0x2D \<or> isDigit c"
    by blast
  from cd have cc: "\<not> isJSONWhitespace c" "c \<noteq> 0x7B" "c \<noteq> 0x5B" "c \<noteq> 0x22" "c \<noteq> 0x74"
      "c \<noteq> 0x66" "c \<noteq> 0x6E"
    by (auto simp: isDigit_def isJSONWhitespace_def)
  have "parseValue (numberToString i @ r)
      = map_option (map_prod JNumber id) (parseNumber (numberToString i @ r))"
    unfolding c using cc by (rule parseValue_number_branch)
  then show ?thesis
    by (simp add: parseNumber_numberToString [OF assms])
qed

lemma parseElements_printed:
  assumes "xs \<noteq> []"
    and "\<And>x r. x \<in> set xs \<Longrightarrow> closes r \<Longrightarrow> parseValue (JSON_stringify x @ r) = Some (x, r)"
  shows "parseElements (commaSeparated (map JSON_stringify xs) @ 0x5D # r) = Some (xs, r)"
  using assms
proof (induction xs rule: induct_list012)
  case 1
  then show ?case by simp
next
  case (2 x)
  have "parseValue (JSON_stringify x @ 0x5D # r) = Some (x, 0x5D # r)"
    by (rule 2(2)) (simp_all add: closes_def)
  then show ?case
    by (subst parseElements.simps) (simp add: skipWhitespace_start isJSONWhitespace_def)
next
  case (3 x y zs)
  let ?rest = "commaSeparated (map JSON_stringify (y # zs)) @ 0x5D # r"
  have v: "parseValue (JSON_stringify x @ 0x2C # ?rest) = Some (x, 0x2C # ?rest)"
    by (rule 3(4)) (simp_all add: closes_def)
  have ih: "parseElements ?rest = Some (y # zs, r)"
    by (rule 3(2)) (simp_all add: 3(4))
  show ?case
    using v ih by (subst parseElements.simps)
      (simp add: skipWhitespace_start isJSONWhitespace_def)
qed

lemma parseMembers_printed:
  assumes "ms \<noteq> []"
    and "\<And>m r. m \<in> set ms \<Longrightarrow> closes r
           \<Longrightarrow> parseValue (JSON_stringify (snd m) @ r) = Some (snd m, r)"
  shows "parseMembers
           (commaSeparated
              (map (\<lambda>m. quoteJSONString (fst m) @ 0x3A # JSON_stringify (snd m)) ms)
            @ 0x7D # r) = Some (ms, r)"
  using assms
proof (induction ms rule: induct_list012)
  case 1
  then show ?case by simp
next
  case (2 m)
  have v: "parseValue (JSON_stringify (snd m) @ 0x7D # r) = Some (snd m, 0x7D # r)"
    by (rule 2(2)) (simp_all add: closes_def)
  show ?case
    by (subst parseMembers.simps)
      (simp add: quoteJSONString_def parseStringBody_quoteBody v skipWhitespace_start
        isJSONWhitespace_def)
next
  case (3 m n ms)
  let ?rest = "commaSeparated
      (map (\<lambda>m. quoteJSONString (fst m) @ 0x3A # JSON_stringify (snd m)) (n # ms))
      @ 0x7D # r"
  have v: "parseValue (JSON_stringify (snd m) @ 0x2C # ?rest) = Some (snd m, 0x2C # ?rest)"
    by (rule 3(4)) (simp_all add: closes_def)
  have ih: "parseMembers ?rest = Some (n # ms, r)"
    by (rule 3(2)) (simp_all add: 3(4))
  show ?case
    using v ih by (subst parseMembers.simps)
      (simp add: quoteJSONString_def parseStringBody_quoteBody skipWhitespace_start
        isJSONWhitespace_def)
qed

lemma parseValue_stringify:
  "printable v \<Longrightarrow> closes r \<Longrightarrow> parseValue (JSON_stringify v @ r) = Some (v, r)"
proof (induction v arbitrary: r)
  case JNull
  show ?case
    by (subst parseValue.simps)
      (simp add: asc_def skipWhitespace_start isJSONWhitespace_def parseLiteral_def)
next
  case (JBool b)
  show ?case
    by (subst parseValue.simps)
      (simp add: asc_def skipWhitespace_start isJSONWhitespace_def parseLiteral_def)
next
  case (JNumber n)
  then obtain i where "n = numberToString i" by auto
  with JNumber(2) show ?case by (simp add: parseValue_number)
next
  case (JString s)
  show ?case
    by (subst parseValue.simps)
      (simp add: quoteJSONString_def skipWhitespace_start isJSONWhitespace_def
        parseStringBody_quoteBody)
next
  case (JArray xs)
  show ?case
  proof (cases xs)
    case Nil
    show ?thesis unfolding Nil
      by (subst parseValue.simps) (simp add: skipWhitespace_start isJSONWhitespace_def)
  next
    case (Cons y ys)
    let ?body = "commaSeparated (map JSON_stringify xs) @ 0x5D # r"
    have p: "\<And>x r. x \<in> set xs \<Longrightarrow> closes r
        \<Longrightarrow> parseValue (JSON_stringify x @ r) = Some (x, r)"
      using JArray by (simp add: list_all_iff)
    have el: "parseElements ?body = Some (xs, r)"
      using Cons by (intro parseElements_printed p) simp_all
    have "printable y" using JArray(2) Cons by simp
    then have "startsValue (JSON_stringify y @ (if ys = [] then [] else 0x2C # commaSeparated (map JSON_stringify ys)) @ 0x5D # r)"
      by (rule startsValue_stringify)
    moreover have "?body = JSON_stringify y @ (if ys = [] then [] else 0x2C # commaSeparated (map JSON_stringify ys)) @ 0x5D # r"
      unfolding Cons by (cases ys) simp_all
    ultimately have "startsValue ?body" by simp
    then obtain d ds where b: "?body = d # ds" and d: "\<not> isJSONWhitespace d" "d \<noteq> 0x5D"
      by (auto simp: startsValue_def split: list.splits)
    have "parseValue (0x5B # ?body) = map_option (map_prod JArray id) (parseElements ?body)"
      unfolding b using d
      by (subst parseValue.simps) (simp add: skipWhitespace_start isJSONWhitespace_def)
    then show ?thesis by (simp add: el)
  qed
next
  case (JObject ms)
  show ?case
  proof (cases ms)
    case Nil
    show ?thesis unfolding Nil
      by (subst parseValue.simps) (simp add: skipWhitespace_start isJSONWhitespace_def)
  next
    case (Cons m ms')
    let ?body = "commaSeparated
        (map (\<lambda>m. quoteJSONString (fst m) @ 0x3A # JSON_stringify (snd m)) ms) @ 0x7D # r"
    have p: "\<And>m r. m \<in> set ms \<Longrightarrow> closes r
        \<Longrightarrow> parseValue (JSON_stringify (snd m) @ r) = Some (snd m, r)"
    proof -
      fix m r
      assume m: "m \<in> set ms" and c: "closes r"
      obtain k v where kv: "m = (k, v)" by (cases m)
      have "printable v" using JObject(2) m kv by (auto simp: list_all_iff)
      moreover have "v \<in> Basic_BNFs.snds m" using kv by simp
      ultimately show "parseValue (JSON_stringify (snd m) @ r) = Some (snd m, r)"
        using JObject(1) [OF m _ _ c, of v] kv by simp
    qed
    have mem: "parseMembers ?body = Some (ms, r)"
      using Cons by (intro parseMembers_printed p) simp_all
    obtain ds where b: "?body = 0x22 # ds"
      unfolding Cons by (cases ms') (simp_all add: quoteJSONString_def)
    have "parseValue (0x7B # ?body) = map_option (map_prod JObject id) (parseMembers ?body)"
      unfolding b
      by (subst parseValue.simps) (simp add: skipWhitespace_start isJSONWhitespace_def)
    then show ?thesis by (simp add: mem)
  qed
qed

lemma JSON_parse_stringify: "printable v \<Longrightarrow> JSON_parse (JSON_stringify v) = Inr v"
  using parseValue_stringify [of v "[]"]
  by (simp add: JSON_parse_def closes_def skipWhitespace_def)

section \<open>Properties of the codec functions\<close>

subsection \<open>\<open>atob\<close> inverts \<open>btoa\<close>\<close>

lemma byte_div16:
  fixes b :: nat
  assumes "b < 256"
  shows "b div 16 < 16" "b div 16 div 16 = 0" "b div 16 mod 16 = b div 16"
proof -
  show a: "b div 16 < 16"
    using assms by (simp add: less_mult_imp_div_less)
  then show "b div 16 div 16 = 0" "b div 16 mod 16 = b div 16"
    by simp_all
qed

lemma byte_div64:
  fixes c :: nat
  assumes "c < 256"
  shows "c div 64 < 4" "c div 64 div 4 = 0" "c div 64 mod 4 = c div 64"
proof -
  show a: "c div 64 < 4"
    using assms by (simp add: less_mult_imp_div_less)
  then show "c div 64 div 4 = 0" "c div 64 mod 4 = c div 64"
    by simp_all
qed

lemma d1: "b < 256 \<Longrightarrow> (a div 4) * 4 + (a mod 4 * 16 + b div 16) div 16 = (a::nat)"
  by (simp add: byte_div16)

lemma d2: "b < 256 \<Longrightarrow> c < 256 \<Longrightarrow>
  (a mod 4 * 16 + b div 16) mod 16 * 16 + (b mod 16 * 4 + c div 64) div 4 = (b::nat)"
  by (simp add: byte_div16 byte_div64)

lemma d3: "c < 256 \<Longrightarrow> (b mod 16 * 4 + c div 64) mod 4 * 64 + c mod 64 = (c::nat)"
  by (simp add: byte_div64)

lemma d2': "b < 256 \<Longrightarrow>
  (a mod 4 * 16 + b div 16) mod 16 * 16 + (b mod 16 * 4) div 4 = (b::nat)"
  by (simp add: byte_div16)

lemma r1: "a < 256 \<Longrightarrow> a div 4 < (64::nat)"
  by (simp add: less_mult_imp_div_less)

lemma r2: "b < 256 \<Longrightarrow> a mod 4 * 16 + b div 16 < (64::nat)"
proof -
  assume "b < 256"
  then have "b div 16 < 16" by (rule byte_div16)
  moreover have "a mod 4 < 4" by simp
  ultimately show ?thesis by linarith
qed

lemma r3: "c < 256 \<Longrightarrow> b mod 16 * 4 + c div 64 < (64::nat)"
proof -
  assume "c < 256"
  then have "c div 64 < 4" by (rule byte_div64)
  moreover have "b mod 16 < 16" by simp
  ultimately show ?thesis by linarith
qed

lemma r4: "a mod 4 * 16 < (64::nat)" "b mod 16 * 4 < (64::nat)" "c mod 64 < (64 :: nat)"
proof -
  have "a mod 4 < 4" "b mod 16 < 16" by simp_all
  then show "a mod 4 * 16 < (64::nat)" "b mod 16 * 4 < (64::nat)" by linarith+
  show "c mod 64 < (64 :: nat)" by simp
qed


lemma unat_base64Char:
  assumes "v < 64"
  shows "unat (base64Char v) =
     (if v < 26 then 0x41 + v else if v < 52 then 0x61 + (v - 26)
      else if v < 62 then 0x30 + (v - 52) else if v = 62 then 0x2B else 0x2F)"
proof -
  consider (upper) "v < 26" | (lower) "\<not> v < 26" "v < 52"
    | (digit) "\<not> v < 26" "\<not> v < 52" "v < 62" | (plus) "v = 62" | (slash) "v = 63"
    using assms by linarith
  then show ?thesis
  proof cases
    case upper
    have "unat (of_nat (0x41 + v) :: jschar) = 0x41 + v"
      using upper by (intro unat_of_nat16) simp
    with upper show ?thesis by (simp add: base64Char_def)
  next
    case lower
    have "unat (of_nat (0x61 + (v - 26)) :: jschar) = 0x61 + (v - 26)"
      using lower by (intro unat_of_nat16) simp
    with lower show ?thesis by (simp add: base64Char_def)
  next
    case digit
    have "unat (of_nat (0x30 + (v - 52)) :: jschar) = 0x30 + (v - 52)"
      using digit by (intro unat_of_nat16) simp
    with digit show ?thesis by (simp add: base64Char_def)
  next
    case plus
    then show ?thesis by (simp add: base64Char_def)
  next
    case slash
    then show ?thesis by (simp add: base64Char_def)
  qed
qed

lemma base64Char_props:
  assumes "v < 64"
  shows "base64Value (base64Char v) = Some v" "base64Char v \<noteq> 0x3D"
    "\<not> isAsciiWhitespace (base64Char v)"
proof -
  define c where "c = base64Char v"
  have u: "unat c =
     (if v < 26 then 0x41 + v else if v < 52 then 0x61 + (v - 26)
      else if v < 62 then 0x30 + (v - 52) else if v = 62 then 0x2B else 0x2F)"
    unfolding c_def using assms by (rule unat_base64Char)
  have e: "c = x \<longleftrightarrow> unat c = unat x" for x
    by (simp add: word_unat_eq_iff)
  show "base64Value (base64Char v) = Some v"
    unfolding c_def [symmetric] using assms
    by (auto simp: base64Value_def word_le_nat_alt e u split: if_splits)
  show "base64Char v \<noteq> 0x3D"
    unfolding c_def [symmetric] using assms by (auto simp: e u split: if_splits)
  show "\<not> isAsciiWhitespace (base64Char v)"
    unfolding c_def [symmetric] using assms
    by (auto simp: isAsciiWhitespace_def e u split: if_splits)
qed

lemma base64Encode_split:
  "base64Encode bs = map base64Char (base64Sextets bs) @ base64Padding bs"
  by (induction bs rule: base64Encode.induct) simp_all

lemma base64Sextets_range:
  "\<forall>b \<in> set bs. b < 256 \<Longrightarrow> v \<in> set (base64Sextets bs) \<Longrightarrow> v < 64"
  by (induction bs arbitrary: v rule: base64Sextets.induct) (auto simp: r1 r2 r3 r4)

lemma base64Decode_sextets:
  "\<forall>b \<in> set bs. b < 256 \<Longrightarrow> base64DecodeValues (base64Sextets bs) = bs"
  by (induction bs rule: base64Sextets.induct) (auto simp: byte_div16 byte_div64)

lemma base64_lengths:
  "length (base64Sextets bs) mod 4 \<noteq> 1"
  "(length (base64Sextets bs) + length (base64Padding bs)) mod 4 = 0"
  by (induction bs rule: base64Sextets.induct) simp_all

lemma base64Padding_cases:
  "base64Padding bs = [] \<or> base64Padding bs = [0x3D] \<or> base64Padding bs = [0x3D, 0x3D]"
  by (induction bs rule: base64Padding.induct) simp_all

lemma dropPad_padding:
  assumes "\<forall>c \<in> set xs. c \<noteq> 0x3D"
  shows "dropPad (dropPad (xs @ base64Padding bs)) = xs"
proof -
  have n: "dropPad xs = xs"
    using assms by (cases xs rule: rev_cases) (auto simp: dropPad_def)
  have one: "dropPad (xs @ [0x3D]) = xs"
    by (simp add: dropPad_def)
  have two: "dropPad (xs @ [0x3D, 0x3D]) = xs @ [0x3D]"
    by (simp add: dropPad_def butlast_append)
  from base64Padding_cases [of bs] show ?thesis
    by (auto simp: n one two)
qed

lemma those_map_Some: "those (map Some xs) = Some xs"
  by (induction xs) simp_all

lemma atob_base64Encode:
  assumes "\<forall>b \<in> set bs. b < 256"
  shows "atob (base64Encode bs) = Inr (map of_nat bs)"
proof -
  let ?vs = "base64Sextets bs"
  let ?body = "map base64Char ?vs"
  have v: "\<forall>v \<in> set ?vs. v < 64"
    using base64Sextets_range [OF assms] by blast
  have body_ne: "\<forall>c \<in> set ?body. c \<noteq> 0x3D"
    using v by (auto simp: base64Char_props)
  have nows: "filter (\<lambda>c. \<not> isAsciiWhitespace c) (base64Encode bs) = base64Encode bs"
  proof -
    have "\<forall>c \<in> set (base64Padding bs). \<not> isAsciiWhitespace c"
      using base64Padding_cases [of bs] by (auto simp: isAsciiWhitespace_def)
    moreover have "\<forall>c \<in> set ?body. \<not> isAsciiWhitespace c"
      using v by (auto simp: base64Char_props)
    ultimately show ?thesis
      by (auto simp: base64Encode_split)
  qed
  have len: "length (base64Encode bs) mod 4 = 0"
    by (simp add: base64Encode_split base64_lengths)
  have pad: "dropPad (dropPad (base64Encode bs)) = ?body"
    unfolding base64Encode_split using body_ne by (rule dropPad_padding)
  have m: "map base64Value ?body = map Some ?vs"
    unfolding map_map
  proof (rule map_cong [OF refl])
    fix x
    assume "x \<in> set ?vs"
    with v have "x < 64" by blast
    then show "(base64Value \<circ> base64Char) x = Some x"
      by (simp add: base64Char_props)
  qed
  have th: "those (map base64Value ?body) = Some ?vs"
    unfolding m by (rule those_map_Some)
  have l1: "length ?body mod 4 \<noteq> 1"
    using base64_lengths(1) [of bs] by simp
  show ?thesis
    using l1 th by (simp add: atob_def nows len pad base64Decode_sextets [OF assms])
qed

lemma atob_btoa:
  assumes "\<forall>c \<in> set s. c \<le> 0xFF"
  shows "btoa s = Inr (base64Encode (map unat s))"
    and "atob (base64Encode (map unat s)) = Inr s"
proof -
  show "btoa s = Inr (base64Encode (map unat s))"
    using assms by (auto simp: btoa_def)
  have "\<forall>b \<in> set (map unat s). b < 256"
    using assms by (auto simp: word_le_nat_alt)
  then have "atob (base64Encode (map unat s)) = Inr (map of_nat (map unat s))"
    by (rule atob_base64Encode)
  then show "atob (base64Encode (map unat s)) = Inr s"
    by (simp add: map_idI)
qed

subsection \<open>\<open>decodeURIComponent\<close> inverts \<open>encodeURIComponent\<close> on base64 text\<close>

lemma isBase64Text_cases:
  assumes "isBase64Text c"
  shows "(uriUnreserved c \<and> c \<noteq> 0x25) \<or> c = 0x2B \<or> c = 0x2F \<or> c = 0x3D"
  using assms
  by (auto simp: isBase64Text_def base64Value_def uriUnreserved_def split: if_splits)

lemma decodeURIComponent_copy:
  "c \<noteq> 0x25 \<Longrightarrow> decodeURIComponent (c # t) = map_sum id ((#) c) (decodeURIComponent t)"
  by simp

lemma percentEncode_symbols:
  "percentEncode (unat (0x2B :: jschar)) = [0x25, 0x32, 0x42]"
  "percentEncode (unat (0x2F :: jschar)) = [0x25, 0x32, 0x46]"
  "percentEncode (unat (0x3D :: jschar)) = [0x25, 0x33, 0x44]"
  by (simp_all add: percentEncode_def utf8Encode_def percentOctet_def upperHexDigit_def)

lemma decode_symbols:
  "decodeURIComponent (0x25 # 0x32 # 0x42 # t) = map_sum id ((#) 0x2B) (decodeURIComponent t)"
  "decodeURIComponent (0x25 # 0x32 # 0x46 # t) = map_sum id ((#) 0x2F) (decodeURIComponent t)"
  "decodeURIComponent (0x25 # 0x33 # 0x44 # t) = map_sum id ((#) 0x3D) (decodeURIComponent t)"
  by (simp_all add: parseHexOctet_def hexDigitValue_def)

lemma symbols_reserved:
  "\<not> uriUnreserved 0x2B" "\<not> uriUnreserved 0x2F" "\<not> uriUnreserved 0x3D"
  "\<not> isHighSurrogate 0x2B" "\<not> isHighSurrogate 0x2F" "\<not> isHighSurrogate 0x3D"
  "\<not> isLowSurrogate 0x2B" "\<not> isLowSurrogate 0x2F" "\<not> isLowSurrogate 0x3D"
  by (simp_all add: uriUnreserved_def asc_def isHighSurrogate_def isLowSurrogate_def)

lemma symbol_facts:
  assumes "c = 0x2B \<or> c = 0x2F \<or> c = 0x3D"
  shows "\<not> uriUnreserved c" "\<not> isHighSurrogate c" "\<not> isLowSurrogate c"
    "decodeURIComponent (percentEncode (unat c) @ t)
       = map_sum id ((#) c) (decodeURIComponent t)"
proof -
  from assms show "\<not> uriUnreserved c" "\<not> isHighSurrogate c" "\<not> isLowSurrogate c"
    using symbols_reserved by blast+
  from assms show "decodeURIComponent (percentEncode (unat c) @ t)
       = map_sum id ((#) c) (decodeURIComponent t)"
  proof (elim disjE)
    assume "c = 0x2B"
    then show ?thesis by (simp only: percentEncode_symbols append.simps decode_symbols)
  next
    assume "c = 0x2F"
    then show ?thesis by (simp only: percentEncode_symbols append.simps decode_symbols)
  next
    assume "c = 0x3D"
    then show ?thesis by (simp only: percentEncode_symbols append.simps decode_symbols)
  qed
qed

lemma unreserved_not_surrogate:
  "uriUnreserved c \<Longrightarrow> \<not> isHighSurrogate c \<and> \<not> isLowSurrogate c"
  by (auto simp: uriUnreserved_def asc_def isHighSurrogate_def isLowSurrogate_def
      word_le_nat_alt)

lemma uri_roundtrip_base64:
  "\<forall>c \<in> set s. isBase64Text c \<Longrightarrow>
     \<exists>t. encodeURIComponent s = Inr t \<and> decodeURIComponent t = Inr s"
proof (induction s rule: encodeURIComponent.induct)
  case 1
  show ?case by simp
next
  case (2 c)
  then have "isBase64Text c" by simp
  then consider (copy) "uriUnreserved c" "c \<noteq> 0x25" | (pct) "c = 0x2B \<or> c = 0x2F \<or> c = 0x3D"
    using isBase64Text_cases by blast
  then show ?case
  proof cases
    case copy
    then show ?thesis by simp
  next
    case pct
    have "decodeURIComponent (percentEncode (unat c) @ []) = Inr [c]"
      unfolding symbol_facts(4) [OF pct] by simp
    then show ?thesis
      using symbol_facts(1-3) [OF pct] by simp
  qed
next
  case (3 c d cs)
  then have c: "isBase64Text c" and rest: "\<forall>x \<in> set (d # cs). isBase64Text x"
    by simp_all
  from c consider (copy) "uriUnreserved c" "c \<noteq> 0x25"
    | (pct) "c = 0x2B \<or> c = 0x2F \<or> c = 0x3D"
    using isBase64Text_cases by blast
  then show ?case
  proof cases
    case copy
    from "3.IH"(1) [OF copy(1) rest] obtain t where
      t: "encodeURIComponent (d # cs) = Inr t" "decodeURIComponent t = Inr (d # cs)"
      by blast
    have "encodeURIComponent (c # d # cs) = Inr (c # t)"
      using copy t(1) by simp
    moreover have "decodeURIComponent (c # t) = Inr (c # d # cs)"
      using copy(2) t(2) by simp
    ultimately show ?thesis by blast
  next
    case pct
    note f = symbol_facts [OF pct]
    from "3.IH"(3) [OF f(1) f(2) f(3) rest] obtain t where
      t: "encodeURIComponent (d # cs) = Inr t" "decodeURIComponent t = Inr (d # cs)"
      by blast
    have "encodeURIComponent (c # d # cs) = Inr (percentEncode (unat c) @ t)"
      using f(1-3) t(1) by simp
    moreover have "decodeURIComponent (percentEncode (unat c) @ t) = Inr (c # d # cs)"
      unfolding f(4) using t(2) by simp
    ultimately show ?thesis by blast
  qed
qed

lemma base64Encode_text: 
  "\<forall>b \<in> set bs. b < 256 \<Longrightarrow> c \<in> set (base64Encode bs) \<Longrightarrow> isBase64Text c"
proof -
  assume b: "\<forall>b \<in> set bs. b < 256" and c: "c \<in> set (base64Encode bs)"
  from c have "c \<in> base64Char ` set (base64Sextets bs) \<or> c \<in> set (base64Padding bs)"
    by (auto simp: base64Encode_split)
  then show ?thesis
  proof
    assume "c \<in> base64Char ` set (base64Sextets bs)"
    then obtain v where "v \<in> set (base64Sextets bs)" "c = base64Char v" by blast
    with base64Sextets_range [OF b] have "base64Value c = Some v"
      by (simp add: base64Char_props)
    then show ?thesis by (simp add: isBase64Text_def)
  next
    assume "c \<in> set (base64Padding bs)"
    with base64Padding_cases [of bs] show ?thesis
      by (auto simp: isBase64Text_def)
  qed
qed

subsection \<open>The JSON text of Latin-1 data\<close>

lemma latin1_simps [simp]:
  "latin1 []" "latin1 (c # s) \<longleftrightarrow> c \<le> 0xFF \<and> latin1 s"
  "latin1 (s @ t) \<longleftrightarrow> latin1 s \<and> latin1 t"
  by (auto simp: latin1_def)

lemma lowerHexDigit_latin1: "n < 16 \<Longrightarrow> lowerHexDigit n \<le> 0xFF"
  by (simp add: word_le_nat_alt unat_lowerHexDigit)

lemma unicodeEscape_latin1: "latin1 (unicodeEscape c)"
proof -
  have "unat c < 65536" using unsigned_less [of c] by simp
  then have "unat c div 4096 < 16" by simp
  then show ?thesis
    by (simp add: unicodeEscape_def lowerHexDigit_latin1)
qed

lemma quoteChar_latin1: "c \<le> 0xFF \<Longrightarrow> latin1 (quoteChar c)"
  by (simp add: quoteChar_def unicodeEscape_latin1)

lemma quoteBody_latin1: "latin1 s \<Longrightarrow> latin1 (quoteBody s)"
  by (induction s rule: quoteBody.induct)
    (simp_all add: unicodeEscape_latin1 quoteChar_latin1)

lemma quoteJSONString_latin1: "latin1 s \<Longrightarrow> latin1 (quoteJSONString s)"
  by (simp add: quoteJSONString_def quoteBody_latin1)

lemma stringify_shared_latin1:
  "latin1Data d \<Longrightarrow> latin1 (JSON_stringify (sharedMemoryData_json d))"
  by (simp add: latin1Data_def sharedMemoryData_json_def quoteBody_latin1
      quoteJSONString_def quoteChar_def isHighSurrogate_def isLowSurrogate_def asc_def)

lemma quoteChar_wide: "0xFF < c \<Longrightarrow> quoteChar c = [c]"
  by (auto simp: quoteChar_def word_less_nat_alt)

lemma quoteBody_keeps_wide:
  "c \<in> set s \<Longrightarrow> 0xFF < c \<Longrightarrow> \<not> isHighSurrogate c \<Longrightarrow> \<not> isLowSurrogate c
     \<Longrightarrow> c \<in> set (quoteBody s)"
  by (induction s rule: quoteBody.induct) (auto simp: quoteChar_wide)

lemma btoa_wide: "c \<in> set s \<Longrightarrow> 0xFF < c \<Longrightarrow> btoa s = Inl InvalidCharacterError"
  by (auto simp: btoa_def)

section \<open>The claims on the history store\<close>

lemma printable_memory: "printable (memory_json m)"
  by (auto simp: memory_json_def split: option.splits)

lemma printable_history: "printable (history_json h)"
  by (simp add: history_json_def list_all_iff printable_memory)

lemma history_json_nonempty: "JSON_stringify (history_json h) \<noteq> []"
  by (simp add: history_json_def)

lemma loadHistory_snapshot:
  assumes "item st = Some (JSON_stringify (history_json h))"
  shows "loadHistory st = (Some (history_json h), st)"
  using assms
  by (simp add: loadHistory_def getItem_def history_json_nonempty
      JSON_parse_stringify [OF printable_history])

lemma appendMemory_history: "fst (appendMemory m hs) = m # fst hs"
  by (simp add: appendMemory_def Let_def)

lemma appendMemory_capacity: "capacity (snd (appendMemory m hs)) = capacity (snd hs)"
  by (simp add: appendMemory_def Let_def setItem_def)

lemma appendMemory_written:
  assumes "length storageKey + length (JSON_stringify (history_json (m # fst hs)))
      \<le> capacity (snd hs)"
  shows "item (snd (appendMemory m hs)) = Some (JSON_stringify (history_json (m # fst hs)))"
  using assms by (simp add: appendMemory_def Let_def setItem_def)

lemma appendMemory_failed:
  assumes "\<not> length storageKey + length (JSON_stringify (history_json (m # fst hs)))
      \<le> capacity (snd hs)"
  shows "snd (appendMemory m hs) = snd hs"
  using assms by (simp add: appendMemory_def Let_def setItem_def)

lemma handleSetTitle_appends:
  assumes "trim (tempTitle a) \<noteq> []"
  shows "history (fst (handleSetTitle now (a, st))) =
           \<lparr>mem_id = now, mem_title = trim (tempTitle a), mem_query = query a,
            mem_category = category a, mem_imageStyle = imageStyle a,
            mem_resultText = resultText a,
            mem_imageUrl = (case imageUrls a of [] \<Rightarrow> None | u # us \<Rightarrow> u)\<rparr> # history a"
    and "snd (handleSetTitle now (a, st)) =
           snd (appendMemory
             \<lparr>mem_id = now, mem_title = trim (tempTitle a), mem_query = query a,
              mem_category = category a, mem_imageStyle = imageStyle a,
              mem_resultText = resultText a,
              mem_imageUrl = (case imageUrls a of [] \<Rightarrow> None | u # us \<Rightarrow> u)\<rparr>
             (history a, st))"
  using assms by (simp_all add: handleSetTitle_def Let_def appendMemory_history)

text \<open>
  C6 (after two appends a load returns the two memories before the prior ones). The
  write of \<open>handleSetTitle\<close> can fail, and the failure is caught and ignored: with a
  storage that has no room left, both writes fail, the history in memory holds the two
  memories, and a load afterwards finds no entry.
\<close>

theorem history_append_full_storage:
  "fst (appendMemory memory_b (appendMemory memory_a ([], full_storage)))
     = [memory_b, memory_a]
   \<and> snd (appendMemory memory_b (appendMemory memory_a ([], full_storage))) = full_storage
   \<and> fst (loadHistory
         (snd (appendMemory memory_b (appendMemory memory_a ([], full_storage))))) = None
   \<and> fst (loadHistory
         (snd (appendMemory memory_b (appendMemory memory_a ([], full_storage)))))
       \<noteq> Some (history_json [memory_b, memory_a])"
  by (simp add: appendMemory_def Let_def setItem_def full_storage_def storageKey_def
      asc_def loadHistory_def getItem_def)

text \<open>
  C6 as the code has it. Appending \<open>M1\<close> and then \<open>M2\<close> puts each at the head of the
  list in memory, which then is \<open>M2\<close>, \<open>M1\<close> and the prior memories; each append
  writes the whole list, and a write that fails leaves the entry of the storage as it
  was. When the second write succeeds, the entry is the JSON text of the whole list,
  and a load afterwards parses it to the array of the objects of \<open>M2\<close>, \<open>M1\<close> and the
  prior memories, in this order. \<open>handleSetTitle\<close> with a title that is not blank is
  such an append, of the memory it makes from the state.
\<close>

theorem history_append_then_load:
  "fst (appendMemory M2 (appendMemory M1 (h, st))) = M2 # M1 # h
   \<and> (length storageKey + length (JSON_stringify (history_json (M2 # M1 # h)))
         \<le> capacity st \<longrightarrow>
       item (snd (appendMemory M2 (appendMemory M1 (h, st))))
         = Some (JSON_stringify (history_json (M2 # M1 # h)))
       \<and> fst (loadHistory (snd (appendMemory M2 (appendMemory M1 (h, st)))))
         = Some (JArray (memory_json M2 # memory_json M1 # map memory_json h)))
   \<and> (\<not> length storageKey + length (JSON_stringify (history_json (M2 # M1 # h)))
         \<le> capacity st \<longrightarrow>
       snd (appendMemory M2 (appendMemory M1 (h, st))) = snd (appendMemory M1 (h, st)))
   \<and> (trim (tempTitle a) \<noteq> [] \<longrightarrow>
       history (fst (handleSetTitle now (a, st))) =
         \<lparr>mem_id = now, mem_title = trim (tempTitle a), mem_query = query a,
          mem_category = category a, mem_imageStyle = imageStyle a,
          mem_resultText = resultText a,
          mem_imageUrl = (case imageUrls a of [] \<Rightarrow> None | u # us \<Rightarrow> u)\<rparr> # history a
       \<and> snd (handleSetTitle now (a, st)) =
           snd (appendMemory
             \<lparr>mem_id = now, mem_title = trim (tempTitle a), mem_query = query a,
              mem_category = category a, mem_imageStyle = imageStyle a,
              mem_resultText = resultText a,
              mem_imageUrl = (case imageUrls a of [] \<Rightarrow> None | u # us \<Rightarrow> u)\<rparr>
             (history a, st)))"
proof -
  let ?s1 = "appendMemory M1 (h, st)"
  let ?s2 = "appendMemory M2 ?s1"
  have h1: "fst ?s1 = M1 # h"
    by (simp add: appendMemory_history)
  have mem: "fst ?s2 = M2 # M1 # h"
    by (simp add: appendMemory_history)
  have cap: "capacity (snd ?s1) = capacity st"
    by (simp add: appendMemory_capacity)
  have ok: "item (snd ?s2) = Some (JSON_stringify (history_json (M2 # M1 # h)))
      \<and> fst (loadHistory (snd ?s2))
          = Some (JArray (memory_json M2 # memory_json M1 # map memory_json h))"
    if fits: "length storageKey + length (JSON_stringify (history_json (M2 # M1 # h)))
        \<le> capacity st"
  proof -
    have "item (snd ?s2) = Some (JSON_stringify (history_json (M2 # fst ?s1)))"
      by (rule appendMemory_written) (simp add: h1 cap fits)
    then have i: "item (snd ?s2) = Some (JSON_stringify (history_json (M2 # M1 # h)))"
      by (simp add: h1)
    then have "loadHistory (snd ?s2) = (Some (history_json (M2 # M1 # h)), snd ?s2)"
      by (rule loadHistory_snapshot)
    with i show ?thesis by (simp add: history_json_def)
  qed
  have failed: "snd ?s2 = snd ?s1"
    if "\<not> length storageKey + length (JSON_stringify (history_json (M2 # M1 # h)))
        \<le> capacity st"
    by (rule appendMemory_failed) (use that in \<open>simp add: h1 cap\<close>)
  from mem ok failed handleSetTitle_appends [of a now st] show ?thesis
    by blast
qed

theorem history_append_then_load_witness:
  "length storageKey + length (JSON_stringify (history_json [memory_b, memory_a]))
     \<le> capacity roomy_storage
   \<and> fst (appendMemory memory_b (appendMemory memory_a ([], roomy_storage)))
       = [memory_b, memory_a]
   \<and> fst (loadHistory (snd (appendMemory memory_b (appendMemory memory_a ([], roomy_storage)))))
       = Some (JArray [memory_json memory_b, memory_json memory_a])
   \<and> \<not> length storageKey + length (JSON_stringify (history_json [memory_b, memory_a]))
         \<le> capacity full_storage
   \<and> snd (appendMemory memory_b (appendMemory memory_a ([], full_storage)))
       = snd (appendMemory memory_a ([], full_storage))
   \<and> trim (tempTitle titled_app) = asc ''Bayram'' \<and> trim (tempTitle titled_app) \<noteq> []
   \<and> map mem_title (history (fst (handleSetTitle 7 (titled_app, roomy_storage))))
       = [asc ''Bayram'']"
proof -
  have len: "length (JSON_stringify (history_json [memory_b, memory_a])) \<le> 900"
    by (simp add: history_json_def memory_json_def memory_a_def memory_b_def
        quoteJSONString_def quoteChar_def isHighSurrogate_def isLowSurrogate_def
        numberToString_def natToString.simps digitChar_def asc_def)
  have fits: "length storageKey + length (JSON_stringify (history_json [memory_b, memory_a]))
      \<le> capacity roomy_storage"
    using len by (simp add: storageKey_def roomy_storage_def asc_def)
  have nofit: "\<not> length storageKey
      + length (JSON_stringify (history_json [memory_b, memory_a])) \<le> capacity full_storage"
    by (simp add: storageKey_def full_storage_def asc_def)
  have t: "trim (tempTitle titled_app) = asc ''Bayram''"
    by (simp add: titled_app_def trim_def isWhiteSpace_def asc_def)
  have tn: "trim (tempTitle titled_app) \<noteq> []"
    unfolding t by (simp add: asc_def)
  have empty: "history titled_app = []"
    by (simp add: titled_app_def initial_app_def)
  from history_append_then_load [of memory_b memory_a "[]" roomy_storage titled_app 7]
    history_append_then_load [of memory_b memory_a "[]" full_storage titled_app 7]
    fits nofit t tn empty
  show ?thesis by simp
qed

section \<open>The claims on the share codec\<close>

lemma handleSharedMemory_decode_failed:
  "sd \<noteq> [] \<Longrightarrow> decodeShared sd = Inl e
     \<Longrightarrow> handleSharedMemory_decode (Some sd) = SharedFailed sharedErrorMessage"
  by (simp add: handleSharedMemory_decode_def)

lemma readFields_not_null:
  "v \<noteq> JNull \<Longrightarrow>
     readFields v =
       Inr \<lparr>f_query = (case v of JObject ms \<Rightarrow> map_of (rev ms) (asc ''query'') | _ \<Rightarrow> None),
            f_resultText =
              (case v of JObject ms \<Rightarrow> map_of (rev ms) (asc ''resultText'') | _ \<Rightarrow> None),
            f_title = (case v of JObject ms \<Rightarrow> map_of (rev ms) (asc ''title'') | _ \<Rightarrow> None),
            f_category =
              (case v of JObject ms \<Rightarrow> map_of (rev ms) (asc ''category'') | _ \<Rightarrow> None),
            f_imageStyle =
              (case v of JObject ms \<Rightarrow> map_of (rev ms) (asc ''imageStyle'') | _ \<Rightarrow> None)\<rparr>"
  by (cases v) (simp_all add: readFields_def getProperty_def)

lemma readFields_null: "readFields JNull = Inl TypeError"
  by (simp add: readFields_def getProperty_def)

text \<open>
  Where \<open>btoa\<close> accepts the JSON text, the link decodes to the data: the round trip for
  data whose characters all lie below \<open>0x100\<close>.
\<close>

lemma readFields_shared: "readFields (sharedMemoryData_json d) = Inr (fieldsOf d)"
  by (simp add: readFields_def getProperty_def sharedMemoryData_json_def fieldsOf_def
      asc_def)

lemma share_roundtrip_latin1:
  assumes "latin1Data d"
  shows "\<exists>token. encodeShare (sharedMemoryData_json d) = Inr token
      \<and> decodeShared token = Inr (sharedMemoryData_json d)
      \<and> handleSharedMemory_decode (Some token) = SharedLoaded (fieldsOf d)"
proof -
  let ?j = "sharedMemoryData_json d"
  let ?s = "JSON_stringify ?j"
  let ?b = "base64Encode (map unat ?s)"
  have l: "\<forall>c \<in> set ?s. c \<le> 0xFF"
    using stringify_shared_latin1 [OF assms] by (simp add: latin1_def)
  have bt: "btoa ?s = Inr ?b" and ab: "atob ?b = Inr ?s"
    using atob_btoa [OF l] by simp_all
  have "\<forall>b \<in> set (map unat ?s). b < 256"
    using l by (auto simp: word_le_nat_alt)
  then have "\<forall>c \<in> set ?b. isBase64Text c"
    using base64Encode_text by blast
  then obtain token where
    t: "encodeURIComponent ?b = Inr token" "decodeURIComponent token = Inr ?b"
    using uri_roundtrip_base64 by blast
  have p: "printable ?j"
    by (simp add: sharedMemoryData_json_def)
  have enc: "encodeShare ?j = Inr token"
    by (simp add: encodeShare_def bt t(1))
  have dec: "decodeShared token = Inr ?j"
    by (simp add: decodeShared_def t(2) ab JSON_parse_stringify [OF p])
  have "?b \<noteq> []"
    by (cases "map unat ?s" rule: base64Encode.cases)
      (simp_all add: sharedMemoryData_json_def)
  with t(2) have ne: "token \<noteq> []" by auto
  have "handleSharedMemory_decode (Some token) = SharedLoaded (fieldsOf d)"
    using ne by (simp add: handleSharedMemory_decode_def dec readFields_shared)
  with enc dec show ?thesis by blast
qed

lemma share_roundtrip_bayram:
  "\<exists>token. encodeShare (sharedMemoryData_json bayram) = Inr token
     \<and> handleSharedMemory_decode (Some token) = SharedLoaded (fieldsOf bayram)"
proof -
  have "latin1Data bayram"
    by (simp add: latin1Data_def bayram_def asc_def)
  from share_roundtrip_latin1 [OF this] show ?thesis by blast
qed

text \<open>
  And \<open>btoa\<close> rejects the JSON text as soon as one field holds a character above
  \<open>0xFF\<close> that is no surrogate.
\<close>

lemma encodeShare_wide:
  assumes "c \<in> set (sh_title d) \<union> set (sh_resultText d) \<union> set (sh_query d)
        \<union> set (sh_category d) \<union> set (sh_imageStyle d)"
    and "0xFF < c" "\<not> isHighSurrogate c" "\<not> isLowSurrogate c"
  shows "encodeShare (sharedMemoryData_json d) = Inl InvalidCharacterError"
proof -
  from assms(1) have "c \<in> set (quoteBody (sh_title d)) \<union> set (quoteBody (sh_resultText d))
      \<union> set (quoteBody (sh_query d)) \<union> set (quoteBody (sh_category d))
      \<union> set (quoteBody (sh_imageStyle d))"
    using quoteBody_keeps_wide [OF _ assms(2-4)] by blast
  then have "c \<in> set (JSON_stringify (sharedMemoryData_json d))"
    by (auto simp: sharedMemoryData_json_def quoteJSONString_def)
  then have "btoa (JSON_stringify (sharedMemoryData_json d)) = Inl InvalidCharacterError"
    using assms(2) by (rule btoa_wide)
  then show ?thesis by (simp add: encodeShare_def)
qed

text \<open>
  C2 (decoding an encoded link returns the data). \<open>btoa\<close> accepts code units up to
  \<open>0xFF\<close> only, and \<open>JSON.stringify\<close> copies the Turkish letters as they are: for the
  title \<open>An\<close>, dotless i (\<open>0x131\<close>), \<open>handleCopyLink\<close> throws
  \<open>InvalidCharacterError\<close> and no link is made.
\<close>

theorem encodeShare_turkish_title:
  "encodeShare (sharedMemoryData_json
     \<lparr>sh_title = [0x41, 0x6E, 0x131], sh_query = asc ''misket'',
      sh_category = asc ''general'', sh_imageStyle = asc ''faded-photo'',
      sh_resultText = asc ''...''\<rparr>) = Inl InvalidCharacterError
   \<and> handleCopyLink_token
       (initial_app\<lparr>title := [0x41, 0x6E, 0x131], query := asc ''misket'',
          resultText := Some (asc ''...'')\<rparr>) = Inl InvalidCharacterError"
  by (simp add: encodeShare_def sharedMemoryData_json_def handleCopyLink_token_def
      dataToShare_def initial_app_def quoteJSONString_def quoteChar_def
      isHighSurrogate_def isLowSurrogate_def btoa_def asc_def)

text \<open>
  The outcomes of the decoding. For a non-empty value of the parameter: if it is not
  valid percent-encoding, or its decoding is not valid base64, or the decoded text is
  not valid JSON, or the JSON is \<open>null\<close>, the handler ends in its \<open>catch\<close> and sets the
  error message. For every other JSON value the five values that go to the setters are
  the properties of the parsed value, \<open>undefined\<close> where it has none. Without the
  parameter, or with an empty one, nothing is decoded.
\<close>

lemma handleSharedMemory_decode_cases:
  assumes "sd \<noteq> []"
  shows "(decodeURIComponent sd = Inl e1 \<longrightarrow>
            handleSharedMemory_decode (Some sd) = SharedFailed sharedErrorMessage)
     \<and> (decodeURIComponent sd = Inr b64 \<and> atob b64 = Inl e2 \<longrightarrow>
            handleSharedMemory_decode (Some sd) = SharedFailed sharedErrorMessage)
     \<and> (decodeURIComponent sd = Inr b64 \<and> atob b64 = Inr serialized
          \<and> JSON_parse serialized = Inl e3 \<longrightarrow>
            handleSharedMemory_decode (Some sd) = SharedFailed sharedErrorMessage)
     \<and> (decodeShared sd = Inr JNull \<longrightarrow>
            handleSharedMemory_decode (Some sd) = SharedFailed sharedErrorMessage)
     \<and> (decodeShared sd = Inr v \<and> v \<noteq> JNull \<longrightarrow>
            handleSharedMemory_decode (Some sd) =
              SharedLoaded
                \<lparr>f_query =
                   (case v of JObject ms \<Rightarrow> map_of (rev ms) (asc ''query'') | _ \<Rightarrow> None),
                 f_resultText =
                   (case v of JObject ms \<Rightarrow> map_of (rev ms) (asc ''resultText'')
                    | _ \<Rightarrow> None),
                 f_title =
                   (case v of JObject ms \<Rightarrow> map_of (rev ms) (asc ''title'') | _ \<Rightarrow> None),
                 f_category =
                   (case v of JObject ms \<Rightarrow> map_of (rev ms) (asc ''category'')
                    | _ \<Rightarrow> None),
                 f_imageStyle =
                   (case v of JObject ms \<Rightarrow> map_of (rev ms) (asc ''imageStyle'')
                    | _ \<Rightarrow> None)\<rparr>)
     \<and> handleSharedMemory_decode None = NoSharedData
     \<and> handleSharedMemory_decode (Some []) = NoSharedData"
proof (intro conjI impI)
  assume "decodeURIComponent sd = Inl e1"
  then have "decodeShared sd = Inl e1"
    by (simp add: decodeShared_def)
  with assms show "handleSharedMemory_decode (Some sd) = SharedFailed sharedErrorMessage"
    by (rule handleSharedMemory_decode_failed)
next
  assume "decodeURIComponent sd = Inr b64 \<and> atob b64 = Inl e2"
  then have "decodeShared sd = Inl e2"
    by (simp add: decodeShared_def)
  with assms show "handleSharedMemory_decode (Some sd) = SharedFailed sharedErrorMessage"
    by (rule handleSharedMemory_decode_failed)
next
  assume "decodeURIComponent sd = Inr b64 \<and> atob b64 = Inr serialized
      \<and> JSON_parse serialized = Inl e3"
  then have "decodeShared sd = Inl e3"
    by (simp add: decodeShared_def)
  with assms show "handleSharedMemory_decode (Some sd) = SharedFailed sharedErrorMessage"
    by (rule handleSharedMemory_decode_failed)
next
  assume "decodeShared sd = Inr JNull"
  with assms show "handleSharedMemory_decode (Some sd) = SharedFailed sharedErrorMessage"
    by (simp add: handleSharedMemory_decode_def readFields_null)
next
  assume "decodeShared sd = Inr v \<and> v \<noteq> JNull"
  with assms show "handleSharedMemory_decode (Some sd) =
      SharedLoaded
        \<lparr>f_query = (case v of JObject ms \<Rightarrow> map_of (rev ms) (asc ''query'') | _ \<Rightarrow> None),
         f_resultText =
           (case v of JObject ms \<Rightarrow> map_of (rev ms) (asc ''resultText'') | _ \<Rightarrow> None),
         f_title = (case v of JObject ms \<Rightarrow> map_of (rev ms) (asc ''title'') | _ \<Rightarrow> None),
         f_category =
           (case v of JObject ms \<Rightarrow> map_of (rev ms) (asc ''category'') | _ \<Rightarrow> None),
         f_imageStyle =
           (case v of JObject ms \<Rightarrow> map_of (rev ms) (asc ''imageStyle'') | _ \<Rightarrow> None)\<rparr>"
    by (simp add: handleSharedMemory_decode_def readFields_not_null)
next
  show "handleSharedMemory_decode None = NoSharedData"
    by (simp add: handleSharedMemory_decode_def)
  show "handleSharedMemory_decode (Some []) = NoSharedData"
    by (simp add: handleSharedMemory_decode_def)
qed

text \<open>
  The cases at five tokens: \<open>%\<close> is not valid percent-encoding; \<open>e\<close> is not valid base64; \<open>ew==\<close> is
  the base64 of a single opening brace, which is not valid JSON; \<open>bnVsbA==\<close> is the
  base64 of \<open>null\<close>; \<open>eyJxdWVyeSI6ImEifQ==\<close> is the base64 of an object with the
  member \<open>query\<close> only.
\<close>

lemma handleSharedMemory_decode_examples:
  "asc ''%'' \<noteq> [] \<and> decodeURIComponent (asc ''%'') = Inl URIError
   \<and> handleSharedMemory_decode (Some (asc ''%'')) = SharedFailed sharedErrorMessage
   \<and> asc ''e'' \<noteq> [] \<and> decodeURIComponent (asc ''e'') = Inr (asc ''e'')
   \<and> atob (asc ''e'') = Inl InvalidCharacterError
   \<and> handleSharedMemory_decode (Some (asc ''e'')) = SharedFailed sharedErrorMessage
   \<and> asc ''ew=='' \<noteq> [] \<and> decodeURIComponent (asc ''ew=='') = Inr (asc ''ew=='')
   \<and> atob (asc ''ew=='') = Inr [0x7B] \<and> JSON_parse [0x7B] = Inl SyntaxError
   \<and> handleSharedMemory_decode (Some (asc ''ew=='')) = SharedFailed sharedErrorMessage
   \<and> asc ''bnVsbA=='' \<noteq> [] \<and> decodeShared (asc ''bnVsbA=='') = Inr JNull
   \<and> handleSharedMemory_decode (Some (asc ''bnVsbA=='')) = SharedFailed sharedErrorMessage
   \<and> asc ''eyJxdWVyeSI6ImEifQ=='' \<noteq> []
   \<and> decodeShared (asc ''eyJxdWVyeSI6ImEifQ=='')
       = Inr (JObject [(asc ''query'', JString (asc ''a''))])
   \<and> handleSharedMemory_decode (Some (asc ''eyJxdWVyeSI6ImEifQ=='')) =
       SharedLoaded \<lparr>f_query = Some (JString (asc ''a'')), f_resultText = None,
                     f_title = None, f_category = None, f_imageStyle = None\<rparr>"
proof -
  note ev = decodeShared_def atob_def isAsciiWhitespace_def dropPad_def base64Value_def
    JSON_parse_def parseValue.simps parseMembers.simps parseLiteral_def parseNumber_def
    parseInt_def parseDigits_def isDigit_def skipWhitespace_def isJSONWhitespace_def
    asc_def
  have n: "asc ''%'' \<noteq> []" "asc ''e'' \<noteq> []" "asc ''ew=='' \<noteq> []"
      "asc ''bnVsbA=='' \<noteq> []" "asc ''eyJxdWVyeSI6ImEifQ=='' \<noteq> []"
    by (simp_all add: asc_def)
  have a: "decodeURIComponent (asc ''%'') = Inl URIError"
    by (simp add: asc_def)
  have b: "decodeURIComponent (asc ''e'') = Inr (asc ''e'')"
      "atob (asc ''e'') = Inl InvalidCharacterError"
    by (simp_all add: ev)
  have c: "decodeURIComponent (asc ''ew=='') = Inr (asc ''ew=='')"
      "atob (asc ''ew=='') = Inr [0x7B]" "JSON_parse [0x7B] = Inl SyntaxError"
    by (simp_all add: ev)
  have d: "decodeShared (asc ''bnVsbA=='') = Inr JNull"
    by (simp add: ev)
  have e: "decodeShared (asc ''eyJxdWVyeSI6ImEifQ=='')
      = Inr (JObject [(asc ''query'', JString (asc ''a''))])"
    by (simp add: ev)
  have o: "JObject [(asc ''query'', JString (asc ''a''))] \<noteq> JNull"
    by simp
  from handleSharedMemory_decode_cases [OF n(1), of URIError] a
  have 1: "handleSharedMemory_decode (Some (asc ''%'')) = SharedFailed sharedErrorMessage"
    by blast
  from handleSharedMemory_decode_cases [OF n(2), of _ "asc ''e''" InvalidCharacterError] b
  have 2: "handleSharedMemory_decode (Some (asc ''e'')) = SharedFailed sharedErrorMessage"
    by blast
  from handleSharedMemory_decode_cases
    [OF n(3), of _ "asc ''ew==''" _ "[0x7B]" SyntaxError] c
  have 3: "handleSharedMemory_decode (Some (asc ''ew=='')) = SharedFailed sharedErrorMessage"
    by blast
  from handleSharedMemory_decode_cases [OF n(4)] d
  have 4: "handleSharedMemory_decode (Some (asc ''bnVsbA==''))
      = SharedFailed sharedErrorMessage"
    by blast
  from handleSharedMemory_decode_cases
    [OF n(5), of _ _ _ _ _ "JObject [(asc ''query'', JString (asc ''a''))]"] e o
  have 5: "handleSharedMemory_decode (Some (asc ''eyJxdWVyeSI6ImEifQ=='')) =
      SharedLoaded \<lparr>f_query = Some (JString (asc ''a'')), f_resultText = None,
                    f_title = None, f_category = None, f_imageStyle = None\<rparr>"
    by (simp add: asc_def)
  from n a b c d e 1 2 3 4 5 show ?thesis by blast
qed

text \<open>
  Before the link is handled the cells hold the values of the initial state.
\<close>

lemma initial_linkState_cells:
  "l_query initial_linkState = Some (JString (query initial_app))"
  "l_resultText initial_linkState = textValue (resultText initial_app)"
  "l_title initial_linkState = Some (JString (title initial_app))"
  "l_category initial_linkState = Some (JString (category initial_app))"
  "l_imageStyle initial_linkState = Some (JString (imageStyle initial_app))"
  "l_isTitleSet initial_linkState = isTitleSet initial_app"
  "l_loading initial_linkState = loading initial_app"
  "l_error initial_linkState = error initial_app"
  by (simp_all add: initial_linkState_def initial_app_def textValue_def)

text \<open>
  \<open>textParts\<close> throws exactly for the truthy values that are no strings.
\<close>

lemma textParts_throws:
  "textParts v = Inl TypeError \<longleftrightarrow> truthy v \<and> (\<forall>s. v \<noteq> Some (JString s))"
proof (cases v)
  case None
  then show ?thesis by (simp add: textParts_def truthy_def)
next
  case (Some j)
  then show ?thesis by (cases j) (simp_all add: textParts_def truthy_def)
qed

text \<open>
  A link whose object has no member \<open>query\<close> and no truthy member \<open>resultText\<close>: when the
  image is regenerated, the handler ends without an error message, the input section
  is rendered, and the attribute of its button throws.
\<close>

lemma handleSharedMemory_without_query:
  assumes "sd \<noteq> []" "decodeShared sd = Inr (JObject ms)"
    and "map_of (rev ms) (asc ''query'') = None"
    and "\<not> truthy (map_of (rev ms) (asc ''resultText''))"
  shows "l_error (handleSharedMemory (Some sd) (ImagesGenerated urls) st) = l_error st"
    and "l_query (handleSharedMemory (Some sd) (ImagesGenerated urls) st) = None"
    and "inputSectionRendered (handleSharedMemory (Some sd) (ImagesGenerated urls) st)"
    and "generateDisabled (handleSharedMemory (Some sd) (ImagesGenerated urls) st)
      = Inl TypeError"
  using assms
  by (simp_all add: handleSharedMemory_def handleSharedMemory_decode_def
      readFields_not_null Let_def inputSectionRendered_def generateDisabled_def
      callTrim_def)

text \<open>
  C3 (a link that lacks a required field ends in a decode error, and no exception
  escapes). The code differs: nothing checks the fields. \<open>e30=\<close> is the base64 of \<open>{}\<close>;
  it decodes to the empty object, the five properties read as \<open>undefined\<close> and go to
  the setters, and the handler goes on to regenerate the image. When the service
  answers, the handler ends without an error message, with \<open>query\<close> and \<open>resultText\<close>
  \<open>undefined\<close> and \<open>loading\<close> false; the render then shows the input section and
  evaluates \<open>query.trim()\<close> for its button, which throws \<open>TypeError\<close> outside every
  \<open>try\<close>. Only when the service fails does the handler set its error message, and
  \<open>loading\<close> stays true.
\<close>

theorem handleSharedMemory_missing_fields:
  "decodeShared (asc ''e30='') = Inr (JObject [])
   \<and> handleSharedMemory_decode (Some (asc ''e30='')) =
       SharedLoaded \<lparr>f_query = None, f_resultText = None, f_title = None,
                     f_category = None, f_imageStyle = None\<rparr>
   \<and> handleSharedMemory (Some (asc ''e30='')) (ImagesGenerated urls) initial_linkState =
       \<lparr>l_query = None, l_resultText = None, l_title = None, l_category = None,
        l_imageStyle = None, l_isTitleSet = True, l_loading = False, l_imageUrls = urls,
        l_activeImageIndex = 0, l_error = [], l_isLoadingShared = False\<rparr>
   \<and> l_error (handleSharedMemory (Some (asc ''e30='')) (ImagesGenerated urls)
        initial_linkState) \<noteq> sharedErrorMessage
   \<and> inputSectionRendered
        (handleSharedMemory (Some (asc ''e30='')) (ImagesGenerated urls) initial_linkState)
   \<and> generateDisabled
        (handleSharedMemory (Some (asc ''e30='')) (ImagesGenerated urls) initial_linkState)
       = Inl TypeError
   \<and> handleSharedMemory (Some (asc ''e30='')) ImagesFailed initial_linkState =
       \<lparr>l_query = None, l_resultText = None, l_title = None, l_category = None,
        l_imageStyle = None, l_isTitleSet = True, l_loading = True, l_imageUrls = [],
        l_activeImageIndex = 0, l_error = sharedErrorMessage, l_isLoadingShared = False\<rparr>"
proof -
  have d: "decodeShared (asc ''e30='') = Inr (JObject [])"
    by (simp add: decodeShared_def atob_def isAsciiWhitespace_def dropPad_def
        base64Value_def JSON_parse_def parseValue.simps skipWhitespace_def
        isJSONWhitespace_def asc_def)
  have ne: "asc ''e30='' \<noteq> []"
    by (simp add: asc_def)
  have l: "handleSharedMemory_decode (Some (asc ''e30='')) =
       SharedLoaded \<lparr>f_query = None, f_resultText = None, f_title = None,
                     f_category = None, f_imageStyle = None\<rparr>"
    using ne by (simp add: d handleSharedMemory_decode_def readFields_def getProperty_def)
  have m: "sharedErrorMessage \<noteq> []"
    by (simp add: sharedErrorMessage_def asc_def)
  show ?thesis
    using m
    by (simp add: d l handleSharedMemory_def Let_def initial_linkState_def
        inputSectionRendered_def generateDisabled_def callTrim_def truthy_def)
qed

text \<open>
  C9 (\<open>textParts\<close> of the empty string and of \<open>undefined\<close> is the empty sequence, and
  \<open>textParts\<close> never fails). The first part holds. The second fails at a value of
  \<open>resultText\<close> that is truthy and no string, which a shared link can set, by the
  defect of C3: \<open>eyJyZXN1bHRUZXh0IjoxfQ==\<close> is the base64 of an object whose member
  \<open>resultText\<close> is the number 1; the handler passes the number to \<open>setResultText\<close>
  unchecked, however the regeneration of the image ends, and at the next render
  \<open>textParts\<close> calls \<open>match\<close> on the number and throws \<open>TypeError\<close>.
\<close>

theorem textParts_number_from_link:
  "textParts (Some (JString [])) = Inr [] \<and> textParts None = Inr []
   \<and> decodeShared (asc ''eyJyZXN1bHRUZXh0IjoxfQ=='')
       = Inr (JObject [(asc ''resultText'', JNumber (asc ''1''))])
   \<and> l_resultText (handleSharedMemory (Some (asc ''eyJyZXN1bHRUZXh0IjoxfQ=='')) images
        initial_linkState) = Some (JNumber (asc ''1''))
   \<and> truthy (Some (JNumber (asc ''1'')))
   \<and> textParts (l_resultText (handleSharedMemory (Some (asc ''eyJyZXN1bHRUZXh0IjoxfQ==''))
        images initial_linkState)) = Inl TypeError"
proof -
  have d: "decodeShared (asc ''eyJyZXN1bHRUZXh0IjoxfQ=='')
       = Inr (JObject [(asc ''resultText'', JNumber (asc ''1''))])"
    by (simp add: decodeShared_def atob_def isAsciiWhitespace_def dropPad_def
        base64Value_def JSON_parse_def parseValue.simps parseMembers.simps
        parseLiteral_def parseNumber_def parseInt_def parseDigits_def parseFraction_def
        parseExponent_def isDigit_def skipWhitespace_def isJSONWhitespace_def asc_def)
  have ne: "asc ''eyJyZXN1bHRUZXh0IjoxfQ=='' \<noteq> []"
    by (simp add: asc_def)
  have rf: "readFields (JObject [(asc ''resultText'', JNumber (asc ''1''))]) =
       Inr \<lparr>f_query = None, f_resultText = Some (JNumber (asc ''1'')),
            f_title = None, f_category = None, f_imageStyle = None\<rparr>"
    by (simp add: readFields_def getProperty_def asc_def)
  have l: "handleSharedMemory_decode (Some (asc ''eyJyZXN1bHRUZXh0IjoxfQ=='')) =
       SharedLoaded \<lparr>f_query = None, f_resultText = Some (JNumber (asc ''1'')),
                     f_title = None, f_category = None, f_imageStyle = None\<rparr>"
    using ne by (simp add: d rf handleSharedMemory_decode_def)
  have r: "l_resultText (handleSharedMemory (Some (asc ''eyJyZXN1bHRUZXh0IjoxfQ=='')) images
        initial_linkState) = Some (JNumber (asc ''1''))"
    by (cases images) (simp_all add: l handleSharedMemory_def Let_def)
  have t: "truthy (Some (JNumber (asc ''1'')))"
    by (simp add: truthy_def numberIsZero_def digitsValue_def isDigit_def Let_def asc_def)
  have e: "textParts (Some (JNumber (asc ''1''))) = Inl TypeError"
    using t by (simp add: textParts_def)
  have f: "textParts (Some (JString [])) = Inr []" "textParts None = Inr []"
    by (simp_all add: textParts_def truthy_def)
  from d r t e f show ?thesis by simp
qed

end
